(* ===== verification/Pay_Prelude.thy ===== *)
theory Pay_Prelude
  imports Main "HOL-Library.Word"
begin

text \<open>
  The prelude of the development: the operations of \<open>std::string\<close> the sources use
  (\<open>find\<close>, \<open>find_first_of\<close>, \<open>rfind\<close>, \<open>substr\<close>, prefix tests), ASCII character
  classes, decimal numerals, the bounds of \<open>int64_t\<close>, and the lemmas on them that the
  component theories share.

  A \<open>std::string\<close> is a \<open>string\<close>, that is a list of bytes. A position is a \<open>nat\<close>
  and \<open>std::string::npos\<close> is \<open>None\<close>.
\<close>

named_theorems str_find \<open>positions found in strings of a known shape\<close>
named_theorems dec_simps \<open>decimal numerals, printed and read back\<close>

section \<open>Characters\<close>

abbreviation byte :: "char \<Rightarrow> nat" where
  "byte c \<equiv> of_char c"

definition in_range :: "char \<Rightarrow> char \<Rightarrow> char \<Rightarrow> bool" where
  "in_range lo hi c \<longleftrightarrow> byte lo \<le> byte c \<and> byte c \<le> byte hi"

text \<open>\<open>std::isdigit\<close> in the C locale.\<close>

definition is_digit :: "char \<Rightarrow> bool" where
  "is_digit c \<longleftrightarrow> in_range (CHR ''0'') (CHR ''9'') c"

definition is_lower :: "char \<Rightarrow> bool" where
  "is_lower c \<longleftrightarrow> in_range (CHR ''a'') (CHR ''z'') c"

definition is_upper :: "char \<Rightarrow> bool" where
  "is_upper c \<longleftrightarrow> in_range (CHR ''A'') (CHR ''Z'') c"

text \<open>\<open>::tolower\<close> in the C locale.\<close>

definition to_lower :: "char \<Rightarrow> char" where
  "to_lower c = (if is_upper c then char_of (byte c + 32) else c)"

definition digit_val :: "char \<Rightarrow> nat" where
  "digit_val c = byte c - byte (CHR ''0'')"

definition digit_char :: "nat \<Rightarrow> char" where
  "digit_char n = char_of (48 + n)"

lemma is_digit_byte: "is_digit c \<longleftrightarrow> 48 \<le> byte c \<and> byte c \<le> 57"
  by (simp add: is_digit_def in_range_def)

lemma byte_digit_char [simp]: "n < 10 \<Longrightarrow> byte (digit_char n) = 48 + n"
  by (simp add: digit_char_def)

lemma is_digit_digit_char [simp]: "n < 10 \<Longrightarrow> is_digit (digit_char n)"
  by (simp add: is_digit_byte)

lemma digit_val_digit_char [simp]: "n < 10 \<Longrightarrow> digit_val (digit_char n) = n"
  by (simp add: digit_val_def)

lemma digit_val_less: "is_digit c \<Longrightarrow> digit_val c < 10"
  by (auto simp: is_digit_byte digit_val_def)

lemma digit_val_numerals [simp]:
  "digit_val (CHR ''0'') = 0" "digit_val (CHR ''1'') = 1" "digit_val (CHR ''2'') = 2"
  "digit_val (CHR ''3'') = 3" "digit_val (CHR ''4'') = 4" "digit_val (CHR ''5'') = 5"
  "digit_val (CHR ''6'') = 6" "digit_val (CHR ''7'') = 7" "digit_val (CHR ''8'') = 8"
  "digit_val (CHR ''9'') = 9"
  by (simp_all add: digit_val_def)

lemma digit_char_numerals [simp]:
  "digit_char 0 = CHR ''0''" "digit_char 1 = CHR ''1''" "digit_char (Suc 0) = CHR ''1''"
  "digit_char 2 = CHR ''2''" "digit_char 3 = CHR ''3''" "digit_char 4 = CHR ''4''"
  "digit_char 5 = CHR ''5''" "digit_char 6 = CHR ''6''" "digit_char 7 = CHR ''7''"
  "digit_char 8 = CHR ''8''" "digit_char 9 = CHR ''9''"
  by code_simp+

lemma is_digit_numerals [simp]:
  "is_digit (CHR ''0'')" "is_digit (CHR ''1'')" "is_digit (CHR ''2'')" "is_digit (CHR ''3'')"
  "is_digit (CHR ''4'')" "is_digit (CHR ''5'')" "is_digit (CHR ''6'')" "is_digit (CHR ''7'')"
  "is_digit (CHR ''8'')" "is_digit (CHR ''9'')"
  by (simp_all add: is_digit_byte)

lemma byte_inject: "byte c = byte d \<longleftrightarrow> c = d"
  by simp

lemma is_digit_neq: "is_digit c \<Longrightarrow> \<not> is_digit d \<Longrightarrow> c \<noteq> d"
  by auto

lemma not_digit_simps [simp]:
  "\<not> is_digit (CHR ''.'')" "\<not> is_digit (CHR ''/'')" "\<not> is_digit (CHR '':'')"
  "\<not> is_digit (CHR ''?'')" "\<not> is_digit (CHR ''#'')" "\<not> is_digit (CHR ''@'')"
  "\<not> is_digit (CHR ''['')" "\<not> is_digit (CHR ''-'')" "\<not> is_digit (CHR ''+'')"
  "\<not> is_digit (CHR ''T'')" "\<not> is_digit (CHR ''Z'')" "\<not> is_digit (CHR ''x'')"
  "\<not> is_digit (CHR ''X'')"
  by (simp_all add: is_digit_byte)

section \<open>Searching strings\<close>

fun index_of :: "('a \<Rightarrow> bool) \<Rightarrow> 'a list \<Rightarrow> nat option" where
  "index_of P [] = None"
| "index_of P (x # xs) = (if P x then Some 0 else map_option Suc (index_of P xs))"

fun last_index_of :: "('a \<Rightarrow> bool) \<Rightarrow> 'a list \<Rightarrow> nat option" where
  "last_index_of P [] = None"
| "last_index_of P (x # xs) =
     (case last_index_of P xs of
        Some i \<Rightarrow> Some (Suc i)
      | None \<Rightarrow> if P x then Some 0 else None)"

text \<open>\<open>s.find(c, pos)\<close> and \<open>s.find_first_of(set, pos)\<close>.\<close>

definition find_at :: "(char \<Rightarrow> bool) \<Rightarrow> string \<Rightarrow> nat \<Rightarrow> nat option" where
  "find_at P s pos = map_option (\<lambda>i. pos + i) (index_of P (drop pos s))"

text \<open>\<open>s.rfind(c, pos)\<close>: the last position not after \<open>pos\<close>.\<close>

definition rfind_at :: "(char \<Rightarrow> bool) \<Rightarrow> string \<Rightarrow> nat \<Rightarrow> nat option" where
  "rfind_at P s pos = last_index_of P (take (Suc pos) s)"

text \<open>\<open>s.substr(pos, n)\<close>; every call of the sources has \<open>pos <= size()\<close>.\<close>

definition substr :: "string \<Rightarrow> nat \<Rightarrow> nat \<Rightarrow> string" where
  "substr s pos n = take n (drop pos s)"

text \<open>\<open>s.rfind(p, 0) == 0\<close> and \<open>s.find(p) == 0\<close>: \<open>p\<close> is a prefix.\<close>

definition starts_with :: "string \<Rightarrow> string \<Rightarrow> bool" where
  "starts_with p s \<longleftrightarrow> take (length p) s = p"

text \<open>\<open>s.find(p)\<close> for a string \<open>p\<close>.\<close>

fun find_sub :: "string \<Rightarrow> string \<Rightarrow> nat option" where
  "find_sub p [] = (if p = [] then Some 0 else None)"
| "find_sub p (c # s) = (if starts_with p (c # s) then Some 0 else map_option Suc (find_sub p s))"

lemma starts_with_append [simp]: "starts_with p (p @ s)"
  by (simp add: starts_with_def)

lemma starts_with_self [simp]: "starts_with p p"
  by (simp add: starts_with_def)

lemma starts_withE:
  assumes "starts_with p s"
  obtains t where "s = p @ t"
  using assms append_take_drop_id [of "length p" s] by (metis starts_with_def)

lemma starts_with_iff: "starts_with p s \<longleftrightarrow> (\<exists>t. s = p @ t)"
  by (auto elim: starts_withE)

lemma index_of_None: "index_of P xs = None \<longleftrightarrow> (\<forall>x\<in>set xs. \<not> P x)"
  by (induction xs) auto

lemma index_of_Some:
  "index_of P xs = Some i \<Longrightarrow> i < length xs \<and> P (xs ! i) \<and> (\<forall>j<i. \<not> P (xs ! j))"
proof (induction xs arbitrary: i)
  case Nil
  then show ?case by simp
next
  case (Cons x xs)
  then show ?case
    by (cases i) (auto split: if_splits simp: nth_Cons' less_Suc_eq_0_disj)
qed

lemma index_of_append [str_find]:
  "(\<And>x. x \<in> set xs \<Longrightarrow> \<not> P x) \<Longrightarrow>
     index_of P (xs @ ys) = map_option (\<lambda>i. length xs + i) (index_of P ys)"
  by (induction xs) (auto simp: map_option_case split: option.splits)

lemma last_index_of_None: "last_index_of P xs = None \<longleftrightarrow> (\<forall>x\<in>set xs. \<not> P x)"
  by (induction xs) (auto split: option.splits)

lemma last_index_of_append [str_find]:
  "P y \<Longrightarrow> (\<And>x. x \<in> set ys \<Longrightarrow> \<not> P x) \<Longrightarrow> last_index_of P (xs @ y # ys) = Some (length xs)"
proof (induction xs)
  case Nil
  then have "last_index_of P ys = None" by (simp add: last_index_of_None)
  with Nil show ?case by simp
next
  case (Cons x xs)
  then show ?case by simp
qed

section \<open>Decimal numerals\<close>

text \<open>Reading a run of decimal digits, most significant first.\<close>

definition dec_value :: "string \<Rightarrow> nat" where
  "dec_value s = foldl (\<lambda>v c. v * 10 + digit_val c) 0 s"

text \<open>\<open>std::to_string\<close> and \<open>operator<<\<close> on a non-negative integer.\<close>

fun show_nat :: "nat \<Rightarrow> string" where
  "show_nat n = (if n < 10 then [digit_char n] else show_nat (n div 10) @ [digit_char (n mod 10)])"

declare show_nat.simps [simp del]

definition show_int :: "int \<Rightarrow> string" where
  "show_int i = (if i < 0 then ''-'' @ show_nat (nat (- i)) else show_nat (nat i))"

lemma dec_value_Cons: "dec_value (c # s) = digit_val c * 10 ^ length s + dec_value s"
proof (induction s rule: rev_induct)
  case Nil
  then show ?case by (simp add: dec_value_def)
next
  case (snoc d s)
  have "dec_value (c # s @ [d]) = dec_value (c # s) * 10 + digit_val d"
    by (simp add: dec_value_def)
  moreover have "dec_value (s @ [d]) = dec_value s * 10 + digit_val d"
    by (simp add: dec_value_def)
  ultimately show ?case using snoc by (simp add: algebra_simps)
qed

lemma dec_value_Nil [simp]: "dec_value [] = 0"
  by (simp add: dec_value_def)

lemma dec_value_snoc [simp]: "dec_value (s @ [c]) = dec_value s * 10 + digit_val c"
  by (simp add: dec_value_def)

lemma dec_value_singleton [simp]: "dec_value [c] = digit_val c"
  by (simp add: dec_value_def)

lemma dec_value_append: "dec_value (s @ t) = dec_value s * 10 ^ length t + dec_value t"
proof (induction t rule: rev_induct)
  case Nil
  then show ?case by simp
next
  case (snoc c t)
  have "dec_value (s @ t @ [c]) = dec_value (s @ t) * 10 + digit_val c"
    by (metis append_assoc dec_value_snoc)
  with snoc show ?case by (simp add: algebra_simps)
qed

lemma dec_value_less: "list_all is_digit s \<Longrightarrow> dec_value s < 10 ^ length s"
proof (induction s rule: rev_induct)
  case Nil
  then show ?case by simp
next
  case (snoc c s)
  then have "dec_value s < 10 ^ length s" and "digit_val c < 10"
    by (simp_all add: digit_val_less)
  then show ?case by simp
qed

lemma dec_value_show_nat [simp, dec_simps]: "dec_value (show_nat n) = n"
proof (induction n rule: show_nat.induct)
  case (1 n)
  then show ?case by (cases "n < 10") (simp_all add: show_nat.simps [of n])
qed

lemma digits_show_nat [simp, dec_simps]: "list_all is_digit (show_nat n)"
proof (induction n rule: show_nat.induct)
  case (1 n)
  then show ?case by (cases "n < 10") (simp_all add: show_nat.simps [of n])
qed

lemma set_show_nat: "c \<in> set (show_nat n) \<Longrightarrow> is_digit c"
  using digits_show_nat [of n] by (auto simp: list_all_iff)

lemma show_nat_not_Nil [simp]: "show_nat n \<noteq> []"
  by (simp add: show_nat.simps [of n])

lemma length_show_nat: "n < 10 ^ Suc k \<Longrightarrow> length (show_nat n) \<le> Suc k"
proof (induction k arbitrary: n)
  case 0
  then show ?case by (simp add: show_nat.simps [of n])
next
  case (Suc k)
  show ?case
  proof (cases "n < 10")
    case True
    then show ?thesis by (simp add: show_nat.simps [of n])
  next
    case False
    from Suc.prems have "n div 10 < 10 ^ Suc k" by simp
    then have "length (show_nat (n div 10)) \<le> Suc k" by (rule Suc.IH)
    with False show ?thesis by (simp add: show_nat.simps [of n])
  qed
qed

text \<open>A printed numeral of more than one digit does not begin with a zero.\<close>

lemma hd_show_nat: "0 < n \<Longrightarrow> hd (show_nat n) \<noteq> CHR ''0''"
proof (induction n rule: show_nat.induct)
  case (1 n)
  show ?case
  proof (cases "n < 10")
    case True
    have "byte (digit_char n) \<noteq> byte (CHR ''0'')" using True "1.prems" by simp
    then have "digit_char n \<noteq> CHR ''0''" by metis
    with True show ?thesis by (simp add: show_nat.simps [of n])
  next
    case False
    then have "hd (show_nat (n div 10)) \<noteq> CHR ''0''" using "1.IH" by simp
    with False show ?thesis by (simp add: show_nat.simps [of n])
  qed
qed

section \<open>Bounds of \<open>int64_t\<close>\<close>

definition int64_max :: int where
  "int64_max = 9223372036854775807"

definition int64_min :: int where
  "int64_min = - 9223372036854775808"

definition is_int64 :: "int \<Rightarrow> bool" where
  "is_int64 i \<longleftrightarrow> int64_min \<le> i \<and> i \<le> int64_max"

lemmas int64_defs = is_int64_def int64_min_def int64_max_def

text \<open>
  \<open>std::stoll\<close> on a non-empty run of decimal digits: the value, or \<open>std::out_of_range\<close>
  (\<open>None\<close>) above the range.
\<close>

definition stoll_digits :: "string \<Rightarrow> int option" where
  "stoll_digits s = (let v = int (dec_value s) in if v \<le> int64_max then Some v else None)"

lemma stoll_digits_Some: "stoll_digits s = Some v \<Longrightarrow> v = int (dec_value s) \<and> 0 \<le> v \<and> v \<le> int64_max"
  by (auto simp: stoll_digits_def Let_def split: if_splits)

end
