(* ===== verification/Pay_Amount.thy ===== *)
theory Pay_Amount
  imports Pay_Prelude
begin

text \<open>
  The amount and status helpers of \<open>utils/PayUtils.cc\<close>: parsing a decimal amount into
  fen, comparing it, deciding whether settled refunds cover an order, and the maps from
  WeChat trade and refund states to local statuses. An out parameter together with a
  \<open>bool\<close> result is an \<open>option\<close>: \<open>None\<close> is \<open>return false\<close>.
\<close>

section \<open>Parsing amounts\<close>

text \<open>The \<open>try\<close> block of \<open>parseAmountToFen\<close>; an exception of \<open>stoll\<close> is \<open>None\<close>.\<close>

definition scaleToFen :: "string \<Rightarrow> string \<Rightarrow> int option" where
  "scaleToFen yuanPart centPart =
     (case stoll_digits yuanPart of
        None \<Rightarrow> None
      | Some yuan \<Rightarrow>
          (case stoll_digits centPart of
             None \<Rightarrow> None
           | Some cents \<Rightarrow>
               if (int64_max - 99) div 100 < yuan then None
               else Some (yuan * 100 + cents)))"

definition parseAmountToFen :: "string \<Rightarrow> int option" where
  "parseAmountToFen amount =
     (if amount = [] then None
      else
        let dotPos = find_at (\<lambda>c. c = CHR ''.'') amount 0;
            yuanText = (case dotPos of None \<Rightarrow> amount | Some p \<Rightarrow> substr amount 0 p);
            centText = (case dotPos of None \<Rightarrow> ''00'' | Some p \<Rightarrow> drop (p + 1) amount);
            yuanPart = (if yuanText = [] then ''0'' else yuanText)
        in if \<not> list_all is_digit yuanPart then None
           else if \<not> list_all is_digit centText then None
           else if 2 < length centText then None
           else
             let centPadded = (if length centText = 1 then centText @ ''0'' else centText);
                 centPart = (if centPadded = [] then ''00'' else centPadded)
             in scaleToFen yuanPart centPart)"

definition amountEqualsFen :: "string \<Rightarrow> int \<Rightarrow> bool" where
  "amountEqualsFen amount expectedFen \<longleftrightarrow>
     (case parseAmountToFen amount of None \<Rightarrow> False | Some fen \<Rightarrow> fen = expectedFen)"

definition refundsCoverOrderAmount :: "int \<Rightarrow> int \<Rightarrow> bool" where
  "refundsCoverOrderAmount settledRefundFen orderTotalFen \<longleftrightarrow>
     orderTotalFen > 0 \<and> settledRefundFen \<ge> orderTotalFen"

definition resolveRefundedOrderStatus :: "string \<Rightarrow> int \<Rightarrow> int \<Rightarrow> string" where
  "resolveRefundedOrderStatus mappedOrderStatus settledRefundFen orderTotalFen =
     (if mappedOrderStatus = ''REFUNDED'' \<and>
         \<not> refundsCoverOrderAmount settledRefundFen orderTotalFen
      then ''PAID'' else mappedOrderStatus)"

text \<open>\<open>mapTradeState\<close>: the pair (order status, payment status).\<close>

definition mapTradeState :: "string \<Rightarrow> string \<times> string" where
  "mapTradeState tradeState =
     (if tradeState = ''SUCCESS'' then (''PAID'', ''SUCCESS'')
      else if tradeState = ''USERPAYING'' \<or> tradeState = ''NOTPAY'' then (''PAYING'', ''PROCESSING'')
      else if tradeState = ''REFUND'' then (''REFUNDED'', ''SUCCESS'')
      else if tradeState = ''CLOSED'' \<or> tradeState = ''REVOKED'' then (''CLOSED'', ''FAIL'')
      else (''FAILED'', ''FAIL''))"

definition mapRefundStatus :: "string \<Rightarrow> string" where
  "mapRefundStatus wechatStatus =
     (if wechatStatus = ''SUCCESS'' then ''REFUND_SUCCESS''
      else if wechatStatus = ''CLOSED'' then ''REFUND_FAIL''
      else if wechatStatus = ''ABNORMAL'' then ''REFUND_FAIL''
      else if wechatStatus = ''PROCESSING'' then ''REFUNDING''
      else [])"

text \<open>
  The Alipay \<open>total_amount\<close> text that \<open>PaymentService::proceedCreatePayment\<close> builds
  from a fen amount with integer arithmetic: yuan, a dot, two cent digits. The amount is
  non-negative there (it comes from \<^const>\<open>parseAmountToFen\<close>).
\<close>

definition yuanString :: "int \<Rightarrow> string" where
  "yuanString totalFen =
     (let yuan = totalFen div 100; cents = totalFen mod 100
      in show_int yuan @ ''.'' @ (if cents < 10 then ''0'' else []) @ show_int cents)"

section \<open>Reference grammar of amounts\<close>

text \<open>
  The declarative reading of an amount: an optional run of digits, then optionally a dot
  and up to two digits; the value in fen; and the largest yuan that scales to fen inside
  \<open>int64_t\<close>.
\<close>

definition cents_of :: "string \<Rightarrow> nat" where
  "cents_of c = (if length c = 1 then dec_value c * 10 else dec_value c)"

definition max_yuan :: nat where
  "max_yuan = 92233720368547757"

definition amount_denotes :: "string \<Rightarrow> int \<Rightarrow> bool" where
  "amount_denotes s fen \<longleftrightarrow>
     s \<noteq> [] \<and>
     (\<exists>y c. list_all is_digit y \<and> list_all is_digit c \<and> length c \<le> 2 \<and>
        (s = y \<and> c = [] \<or> s = y @ CHR ''.'' # c) \<and>
        dec_value y \<le> max_yuan \<and> fen = int (dec_value y * 100 + cents_of c))"

lemma amount_denotesI:
  assumes "list_all is_digit y" "list_all is_digit c" "length c \<le> 2"
    and "s = y \<and> c = [] \<or> s = y @ CHR ''.'' # c" "s \<noteq> []"
    and "dec_value y \<le> max_yuan" "fen = int (dec_value y * 100 + cents_of c)"
  shows "amount_denotes s fen"
  using assms unfolding amount_denotes_def by blast

lemma dot_position:
  "(\<And>x. x \<in> set y \<Longrightarrow> x \<noteq> CHR ''.'') \<Longrightarrow>
     find_at (\<lambda>c. c = CHR ''.'') (y @ CHR ''.'' # c) 0 = Some (length y)"
  by (simp add: find_at_def index_of_append)

lemma digits_no_dot: "list_all is_digit y \<Longrightarrow> x \<in> set y \<Longrightarrow> x \<noteq> CHR ''.''"
  by (auto simp: list_all_iff)

lemma dot_split:
  assumes "find_at (\<lambda>c. c = CHR ''.'') s 0 = Some p"
  shows "s = take p s @ CHR ''.'' # drop (p + 1) s" and "p < length s"
proof -
  from assms have "index_of (\<lambda>c. c = CHR ''.'') s = Some p" by (simp add: find_at_def map_option_case split: option.splits)
  from index_of_Some [OF this] have "p < length s" and "s ! p = CHR ''.''" by simp_all
  then show "s = take p s @ CHR ''.'' # drop (p + 1) s" and "p < length s"
    using id_take_nth_drop [of p s] by simp_all
qed

lemma no_dot: "find_at (\<lambda>c. c = CHR ''.'') s 0 = None \<longleftrightarrow> CHR ''.'' \<notin> set s"
  by (auto simp: find_at_def index_of_None)

text \<open>The two shapes the parser distinguishes, each with its value.\<close>

definition scaled :: "nat \<Rightarrow> nat \<Rightarrow> int option" where
  "scaled yuan cents = (if yuan \<le> max_yuan then Some (int (yuan * 100 + cents)) else None)"

lemma dec_value_zeros [simp]: "dec_value ''0'' = 0" "dec_value ''00'' = 0"
  by (simp_all add: dec_value_def)

lemma stoll_short:
  assumes "list_all is_digit c" "length c \<le> 2"
  shows "stoll_digits c = Some (int (dec_value c))"
proof -
  have "dec_value c < 10 ^ length c" using assms(1) by (rule dec_value_less)
  also have "\<dots> \<le> (10 :: nat) ^ 2" using assms(2) by (intro power_increasing) auto
  finally show ?thesis by (simp add: stoll_digits_def int64_max_def)
qed

lemma cents_padded:
  assumes "list_all is_digit c" "length c \<le> 2"
  defines "p \<equiv> (if length c = 1 then c @ ''0'' else c)"
  shows "stoll_digits (if p = [] then ''00'' else p) = Some (int (cents_of c))"
proof -
  let ?q = "if p = [] then ''00'' else p"
  have "list_all is_digit ?q" and "length ?q \<le> 2" using assms by (auto simp: p_def)
  then have "stoll_digits ?q = Some (int (dec_value ?q))" by (rule stoll_short)
  moreover have "dec_value ?q = cents_of c"
    by (auto simp: p_def cents_of_def digit_val_def dec_value_def)
  ultimately show ?thesis by simp
qed

lemma scaleToFen_scaled:
  "stoll_digits c = Some (int k) \<Longrightarrow> scaleToFen y c = scaled (dec_value y) k"
  by (auto simp: scaleToFen_def stoll_digits_def Let_def int64_max_def scaled_def max_yuan_def)

lemma parse_dotted:
  assumes "list_all is_digit y" "list_all is_digit c" "length c \<le> 2"
  shows "parseAmountToFen (y @ CHR ''.'' # c) = scaled (dec_value y) (cents_of c)"
proof -
  let ?y = "if y = [] then ''0'' else y"
  let ?p = "if length c = 1 then c @ ''0'' else c"
  have "find_at (\<lambda>c. c = CHR ''.'') (y @ CHR ''.'' # c) 0 = Some (length y)"
    using assms(1) by (intro dot_position) (auto simp: digits_no_dot)
  then have "parseAmountToFen (y @ CHR ''.'' # c) = scaleToFen ?y (if ?p = [] then ''00'' else ?p)"
    using assms by (simp add: parseAmountToFen_def Let_def substr_def)
  also have "\<dots> = scaled (dec_value ?y) (cents_of c)"
    using assms(2,3) by (intro scaleToFen_scaled cents_padded)
  finally show ?thesis by (cases "y = []") simp_all
qed

lemma parse_plain:
  assumes "list_all is_digit y" "y \<noteq> []"
  shows "parseAmountToFen y = scaled (dec_value y) 0"
proof -
  have "find_at (\<lambda>c. c = CHR ''.'') y 0 = None"
    using assms(1) by (auto simp: no_dot list_all_iff)
  then have "parseAmountToFen y = scaleToFen y ''00''"
    using assms by (simp add: parseAmountToFen_def Let_def)
  also have "\<dots> = scaled (dec_value y) 0"
    by (rule scaleToFen_scaled) (simp add: stoll_digits_def int64_max_def)
  finally show ?thesis .
qed

lemma parse_Some_shape:
  assumes "parseAmountToFen s = Some fen"
  obtains y where "s = y" "list_all is_digit y" "y \<noteq> []"
  | y c where "s = y @ CHR ''.'' # c" "list_all is_digit y" "list_all is_digit c" "length c \<le> 2"
proof (cases "find_at (\<lambda>c. c = CHR ''.'') s 0")
  case None
  with assms show ?thesis
    by (intro that(1) [of s]) (auto simp: parseAmountToFen_def Let_def split: if_splits)
next
  case (Some p)
  have "list_all is_digit (take p s)" "list_all is_digit (drop (p + 1) s)" "length (drop (p + 1) s) \<le> 2"
    using assms Some by (auto simp: parseAmountToFen_def Let_def substr_def split: if_splits)
  with dot_split (1) [OF Some] show ?thesis by (rule that(2))
qed

section \<open>Properties\<close>

text \<open>
  C1: \<open>parseAmountToFen\<close> accepts exactly the amounts of the reference grammar and returns
  their value in fen: nothing else parses, nothing parses to a different value, and an
  amount that cannot be scaled to fen inside \<open>int64_t\<close> is refused.
\<close>

theorem parseAmountToFen_correct: "parseAmountToFen s = Some fen \<longleftrightarrow> amount_denotes s fen"
proof
  assume p: "parseAmountToFen s = Some fen"
  then show "amount_denotes s fen"
  proof (cases rule: parse_Some_shape)
    case (1 y)
    with p show ?thesis
      by (intro amount_denotesI [of y "[]"])
        (auto simp: parse_plain scaled_def cents_of_def split: if_splits)
  next
    case (2 y c)
    with p show ?thesis
      by (auto simp: amount_denotes_def parse_dotted scaled_def split: if_splits)
  qed
next
  assume "amount_denotes s fen"
  then obtain y c where yc: "list_all is_digit y" "list_all is_digit c" "length c \<le> 2"
      "s = y \<and> c = [] \<or> s = y @ CHR ''.'' # c" "s \<noteq> []"
      "dec_value y \<le> max_yuan" "fen = int (dec_value y * 100 + cents_of c)"
    by (auto simp: amount_denotes_def)
  then show "parseAmountToFen s = Some fen"
    by (auto simp: parse_plain parse_dotted scaled_def cents_of_def)
qed

lemma cents_of_less: "list_all is_digit c \<Longrightarrow> length c \<le> 2 \<Longrightarrow> cents_of c < 100"
proof -
  assume c: "list_all is_digit c" "length c \<le> 2"
  have "dec_value c < 10 ^ length c" using c(1) by (rule dec_value_less)
  moreover have "(10::nat) ^ length c \<le> 10 ^ 2" using c(2) by (intro power_increasing) auto
  ultimately show ?thesis by (auto simp: cents_of_def)
qed

lemma parse_range:
  assumes "parseAmountToFen s = Some fen"
  shows "0 \<le> fen \<and> fen \<le> 9223372036854775799"
  using assms
proof (cases rule: parse_Some_shape)
  case (1 y)
  with assms show ?thesis by (auto simp: parse_plain scaled_def max_yuan_def split: if_splits)
next
  case (2 y c)
  with assms cents_of_less [of c] show ?thesis
    by (auto simp: parse_dotted scaled_def max_yuan_def split: if_splits)
qed

text \<open>
  Whatever text is parsed, the fen value is non-negative and no step of the scaling
  leaves \<open>int64_t\<close>: the parsed yuan, the product \<open>yuan * 100\<close> and the result are all
  representable.
\<close>

lemma parseAmountToFen_no_overflow:
  assumes "parseAmountToFen s = Some fen"
  shows "0 \<le> fen \<and> fen \<le> 9223372036854775799 \<and> is_int64 fen \<and> is_int64 (fen div 100 * 100)"
proof -
  have "fen div 100 * 100 \<le> fen" "0 \<le> fen \<Longrightarrow> 0 \<le> fen div 100 * 100" by simp_all
  with parse_range [OF assms] show ?thesis by (auto simp: int64_defs)
qed

lemma yuanString_dotted:
  assumes "0 \<le> fen"
  obtains c where "yuanString fen = show_nat (nat (fen div 100)) @ CHR ''.'' # c"
    "list_all is_digit c" "length c \<le> 2" "cents_of c = nat (fen mod 100)"
proof -
  let ?k = "nat (fen mod 100)"
  let ?c = "(if fen mod 100 < 10 then ''0'' else []) @ show_nat ?k"
  have "?k < 100" using assms by (simp add: nat_less_iff)
  then have len: "length (show_nat ?k) \<le> 2" using length_show_nat [of ?k 1] by simp
  have one: "length (show_nat ?k) = 1 \<longleftrightarrow> ?k < 10"
    by (auto simp: show_nat.simps [of ?k])
  have small: "fen mod 100 < 10 \<longleftrightarrow> ?k < 10" using assms by (simp add: nat_less_iff)
  show ?thesis
  proof (rule that)
    show "yuanString fen = show_nat (nat (fen div 100)) @ CHR ''.'' # ?c"
      using assms pos_imp_zdiv_neg_iff [of 100 fen] pos_mod_sign [of 100 fen]
      by (simp add: yuanString_def show_int_def Let_def)
    show "list_all is_digit ?c" by simp
    show "length ?c \<le> 2" using len one small by auto
    show "cents_of ?c = ?k"
      using one small by (auto simp: cents_of_def dec_value_append)
  qed
qed

text \<open>
  The amount text sent to Alipay is exactly the amount that was parsed: formatting a
  non-negative fen value with \<open>yuanString\<close> and parsing it back returns the same value,
  over the whole range \<open>parseAmountToFen\<close> can produce.
\<close>

lemma yuanString_parses:
  assumes "0 \<le> fen" "fen \<le> 9223372036854775799"
  shows "parseAmountToFen (yuanString fen) = Some fen"
proof -
  obtain c where c: "yuanString fen = show_nat (nat (fen div 100)) @ CHR ''.'' # c"
      "list_all is_digit c" "length c \<le> 2" "cents_of c = nat (fen mod 100)"
    using yuanString_dotted [OF assms(1)] .
  have "parseAmountToFen (yuanString fen) = scaled (nat (fen div 100)) (nat (fen mod 100))"
    using parse_dotted [OF digits_show_nat c(2,3), of "nat (fen div 100)"] c(1,4) by simp
  also have "nat (fen div 100) \<le> max_yuan"
    using assms(2) by (simp add: max_yuan_def nat_le_iff)
  then have "scaled (nat (fen div 100)) (nat (fen mod 100)) = Some fen"
    using assms(1) pos_imp_zdiv_nonneg_iff [of 100 fen] by (simp add: scaled_def)
  finally show ?thesis .
qed

lemma resolve_REFUNDED_iff:
  "resolveRefundedOrderStatus st settled tot = ''REFUNDED'' \<longleftrightarrow>
     st = ''REFUNDED'' \<and> 0 < tot \<and> tot \<le> settled"
  by (auto simp: resolveRefundedOrderStatus_def refundsCoverOrderAmount_def)

lemma resolve_other: "st \<noteq> ''REFUNDED'' \<Longrightarrow> resolveRefundedOrderStatus st settled tot = st"
  by (simp add: resolveRefundedOrderStatus_def)

lemma resolve_range:
  "resolveRefundedOrderStatus st settled tot = st \<or>
   (st = ''REFUNDED'' \<and> resolveRefundedOrderStatus st settled tot = ''PAID'')"
  by (simp add: resolveRefundedOrderStatus_def)

lemma mapTradeState_settles:
  "fst (mapTradeState t) \<in> {''PAID'', ''REFUNDED''} \<longleftrightarrow> snd (mapTradeState t) = ''SUCCESS''"
  by (simp add: mapTradeState_def)

end
