(* ===== verification/Pay_Url.thy ===== *)
theory Pay_Url
  imports Pay_Prelude
begin

text \<open>
  The URL helpers of \<open>utils/PayUtils.cc\<close>: the host of a notify URL and the check that
  refuses private, loopback and link-local hosts (\<open>extractUrlHost\<close>, \<open>parseIpv4\<close>,
  \<open>isPrivateIpv4\<close>, \<open>isGlobalUnicastIpv6\<close>, \<open>isNumericAddressShape\<close>,
  \<open>isBlockedHost\<close>, \<open>validateNotifyUrl\<close>), and percent-encoding of one path segment
  (\<open>urlEncodePathSegment\<close>).
\<close>

unbundle bit_operations_syntax

section \<open>Host extraction\<close>

text \<open>
  The three stages of \<open>extractUrlHost\<close>: the end of the authority, the position after
  the userinfo, and the host text from there (bracketed or up to a delimiter).
\<close>

definition authorityEnd :: "string \<Rightarrow> nat \<Rightarrow> nat" where
  "authorityEnd url hostStart =
     (case find_at (\<lambda>c. c \<in> set ''/?#'') url hostStart of None \<Rightarrow> length url | Some e \<Rightarrow> e)"

definition skipUserinfo :: "string \<Rightarrow> nat \<Rightarrow> nat" where
  "skipUserinfo url hostStart =
     (if hostStart < authorityEnd url hostStart
      then (case rfind_at (\<lambda>c. c = CHR ''@'') url (authorityEnd url hostStart - 1) of
              None \<Rightarrow> hostStart
            | Some at \<Rightarrow> if hostStart \<le> at then at + 1 else hostStart)
      else hostStart)"

definition hostFrom :: "string \<Rightarrow> nat \<Rightarrow> string" where
  "hostFrom url hostStart =
     (if hostStart < length url \<and> url ! hostStart = CHR ''[''
      then (case find_at (\<lambda>c. c = CHR '']'') url (hostStart + 1) of
              None \<Rightarrow> []
            | Some close \<Rightarrow> substr url (hostStart + 1) (close - hostStart - 1))
      else (case find_at (\<lambda>c. c \<in> set ''/:?#'') url hostStart of
              None \<Rightarrow> drop hostStart url
            | Some e \<Rightarrow> substr url hostStart (e - hostStart)))"

definition extractUrlHost :: "string \<Rightarrow> string" where
  "extractUrlHost url =
     (case find_sub ''://'' url of
        None \<Rightarrow> []
      | Some schemeEnd \<Rightarrow>
          let hostStart = schemeEnd + 3
          in if hostStart \<ge> length url then [] else hostFrom url (skipUserinfo url hostStart))"

section \<open>Address literals\<close>

text \<open>
  One dotted-quad segment: at most three decimal digits, no leading zero, value at most
  255. The source accumulates the value and gives up above 255; three digits cannot
  overflow its \<open>int\<close>.
\<close>

definition ipv4Segment :: "string \<Rightarrow> 8 word option" where
  "ipv4Segment seg =
     (if seg = [] \<or> 3 < length seg then None
      else if \<not> list_all is_digit seg then None
      else if 255 < dec_value seg then None
      else if 1 < length seg \<and> hd seg = CHR ''0'' then None
      else Some (of_nat (dec_value seg)))"

text \<open>
  The loop of \<open>parseIpv4\<close> with \<open>i\<close> segments still to come after this one: all but the
  last segment end at the next dot, and the last one runs to the end of the text.
\<close>

fun parseIpv4From :: "nat \<Rightarrow> string \<Rightarrow> 8 word list option" where
  "parseIpv4From 0 s =
     (case ipv4Segment s of None \<Rightarrow> None | Some v \<Rightarrow> Some [v])"
| "parseIpv4From (Suc i) s =
     (case index_of (\<lambda>c. c = CHR ''.'') s of
        None \<Rightarrow> None
      | Some dot \<Rightarrow>
          (case ipv4Segment (take dot s) of
             None \<Rightarrow> None
           | Some v \<Rightarrow> map_option ((#) v) (parseIpv4From i (drop (dot + 1) s))))"

definition parseIpv4 :: "string \<Rightarrow> 8 word list option" where
  "parseIpv4 host = parseIpv4From 3 host"

definition isPrivateIpv4 :: "8 word \<Rightarrow> 8 word \<Rightarrow> 8 word \<Rightarrow> 8 word \<Rightarrow> bool" where
  "isPrivateIpv4 a b c d \<longleftrightarrow>
     a = 10 \<or>
     a = 172 \<and> b AND 0xF0 = 16 \<or>
     a = 192 \<and> b = 168 \<or>
     a = 127 \<or>
     a = 169 \<and> b = 254 \<or>
     a = 0 \<or>
     a = 100 \<and> b AND 0xC0 = 64"

definition hexNibble :: "char \<Rightarrow> int option" where
  "hexNibble c =
     (if in_range (CHR ''0'') (CHR ''9'') c then Some (int (byte c) - 48)
      else if in_range (CHR ''a'') (CHR ''f'') c then Some (int (byte c) - 97 + 10)
      else if in_range (CHR ''A'') (CHR ''F'') c then Some (int (byte c) - 65 + 10)
      else None)"

text \<open>The hex loop of \<open>isGlobalUnicastIpv6\<close>: at most \<open>n\<close> more digits are read.\<close>

fun hexGroup :: "nat \<Rightarrow> int \<Rightarrow> string \<Rightarrow> int" where
  "hexGroup 0 v s = v"
| "hexGroup (Suc n) v [] = v"
| "hexGroup (Suc n) v (c # s) =
     (case hexNibble c of None \<Rightarrow> v | Some nibble \<Rightarrow> hexGroup n (v * 16 + nibble) s)"

definition isGlobalUnicastIpv6 :: "string \<Rightarrow> bool" where
  "isGlobalUnicastIpv6 host \<longleftrightarrow>
     \<not> (host \<noteq> [] \<and> hd host = CHR '':'') \<and> hexGroup 4 0 host AND 0xE000 = 0x2000"

definition isHexDigit :: "char \<Rightarrow> bool" where
  "isHexDigit c \<longleftrightarrow>
     is_digit c \<or> in_range (CHR ''a'') (CHR ''f'') c \<or> in_range (CHR ''A'') (CHR ''F'') c"

text \<open>One label of \<open>isNumericAddressShape\<close>: all digits, or a \<open>0x\<close> hex group.\<close>

definition numericLabel :: "string \<Rightarrow> bool" where
  "numericLabel lab \<longleftrightarrow>
     lab \<noteq> [] \<and>
     (if 2 < length lab \<and> lab ! 0 = CHR ''0'' \<and> (lab ! 1 = CHR ''x'' \<or> lab ! 1 = CHR ''X'')
      then list_all isHexDigit (drop 2 lab)
      else list_all is_digit lab)"

text \<open>The labels of a host name, split at dots.\<close>

function labels :: "string \<Rightarrow> string list" where
  "labels s =
     (case index_of (\<lambda>c. c = CHR ''.'') s of
        None \<Rightarrow> [s]
      | Some dot \<Rightarrow> take dot s # labels (drop (dot + 1) s))"
  by pat_completeness auto
termination
  by (relation "measure length") (auto dest: index_of_Some)

declare labels.simps [simp del]

definition isNumericAddressShape :: "string \<Rightarrow> bool" where
  "isNumericAddressShape host \<longleftrightarrow> list_all numericLabel (labels host)"

definition isBlockedHost :: "string \<Rightarrow> bool" where
  "isBlockedHost host =
     (if host = [] then True
      else
        let lower = map to_lower host
        in if lower = ''localhost'' \<or> lower = ''localhost.'' then True
           else if CHR '':'' \<in> set host then \<not> isGlobalUnicastIpv6 host
           else
             (case parseIpv4 host of
                Some [a, b, c, d] \<Rightarrow> isPrivateIpv4 a b c d
              | _ \<Rightarrow> isNumericAddressShape lower))"

text \<open>\<open>validateNotifyUrl\<close>: \<open>None\<close> accepts, \<open>Some\<close> carries \<open>errorMessage\<close>.\<close>

definition validateNotifyUrl :: "string \<Rightarrow> string option" where
  "validateNotifyUrl url =
     (if url = [] then None
      else if \<not> starts_with ''http://'' url \<and> \<not> starts_with ''https://'' url
      then Some ''invalid notify_url (must start with http:// or https://)''
      else if 512 < length url then Some ''notify_url too long (max 512 characters)''
      else if isBlockedHost (extractUrlHost url)
      then Some ''notify_url host must not be a private, loopback, or link-local address''
      else None)"

section \<open>Percent-encoding of a path segment\<close>

definition unreserved :: "char \<Rightarrow> bool" where
  "unreserved c \<longleftrightarrow>
     is_upper c \<or> is_lower c \<or> is_digit c \<or> c = CHR ''-'' \<or> c = CHR ''_'' \<or> c = CHR ''.'' \<or>
     c = CHR ''~''"

definition kHex :: string where
  "kHex = ''0123456789ABCDEF''"

definition encodeByte :: "char \<Rightarrow> string" where
  "encodeByte c =
     (if unreserved c then [c]
      else [CHR ''%'', kHex ! (byte c div 16 mod 16), kHex ! (byte c mod 16)])"

definition urlEncodePathSegment :: "string \<Rightarrow> string" where
  "urlEncodePathSegment raw = concat (map encodeByte raw)"

section \<open>Reference notions\<close>

text \<open>The parts of a URL around its host, as RFC 3986 has them.\<close>

definition http_scheme :: "string \<Rightarrow> bool" where
  "http_scheme sch \<longleftrightarrow> sch = ''http://'' \<or> sch = ''https://''"

definition no_delims :: "string \<Rightarrow> bool" where
  "no_delims s \<longleftrightarrow> (\<forall>c\<in>set s. c \<notin> set ''/?#'')"

text \<open>Userinfo: nothing, or any text without a path delimiter and an at sign after it.\<close>

definition userinfo :: "string \<Rightarrow> bool" where
  "userinfo u \<longleftrightarrow> u = [] \<or> (\<exists>v. u = v @ ''@'' \<and> no_delims v)"

text \<open>A port part: nothing, or a colon and text without a delimiter or an at sign.\<close>

definition port_part :: "string \<Rightarrow> bool" where
  "port_part p \<longleftrightarrow> p = [] \<or> (\<exists>n. p = CHR '':'' # n \<and> no_delims n \<and> CHR ''@'' \<notin> set n)"

definition path_part :: "string \<Rightarrow> bool" where
  "path_part q \<longleftrightarrow> q = [] \<or> hd q \<in> set ''/?#''"

definition plain_host :: "string \<Rightarrow> bool" where
  "plain_host h \<longleftrightarrow> h \<noteq> [] \<and> hd h \<noteq> CHR ''['' \<and> (\<forall>c\<in>set h. c \<notin> set ''/?#:@'')"

text \<open>Decimal address text: the numbers joined by dots.\<close>

fun dotted :: "nat list \<Rightarrow> string" where
  "dotted [] = []"
| "dotted [n] = show_nat n"
| "dotted (n # ns) = show_nat n @ CHR ''.'' # dotted ns"

text \<open>The ranges a notify URL may not name, in CIDR terms.\<close>

definition private_range :: "nat \<Rightarrow> nat \<Rightarrow> bool" where
  "private_range a b \<longleftrightarrow>
     a = 10 \<or> a = 172 \<and> 16 \<le> b \<and> b \<le> 31 \<or> a = 192 \<and> b = 168 \<or> a = 127 \<or>
     a = 169 \<and> b = 254 \<or> a = 0 \<or> a = 100 \<and> 64 \<le> b \<and> b \<le> 127"

fun public_quad :: "nat list \<Rightarrow> bool" where
  "public_quad [a, b, c, d] = (a < 256 \<and> b < 256 \<and> c < 256 \<and> d < 256 \<and> \<not> private_range a b)"
| "public_quad _ = False"

text \<open>Percent-decoding, the inverse reading of a path segment.\<close>

definition hexValue :: "char \<Rightarrow> nat" where
  "hexValue c = (if is_digit c then byte c - 48 else byte c - 55)"

fun percentDecode :: "string \<Rightarrow> string" where
  "percentDecode (CHR ''%'' # a # b # s) = char_of (hexValue a * 16 + hexValue b) # percentDecode s"
| "percentDecode (c # s) = c # percentDecode s"
| "percentDecode [] = []"

section \<open>The host of a URL\<close>

lemma no_delims_append [simp]: "no_delims (s @ t) \<longleftrightarrow> no_delims s \<and> no_delims t"
  by (auto simp: no_delims_def)

lemma no_delims_simps [simp]: "no_delims []" "no_delims (c # s) \<longleftrightarrow> c \<notin> set ''/?#'' \<and> no_delims s"
  by (simp_all only: no_delims_def set_simps ball_simps simp_thms)

lemma no_delims_parts:
  "userinfo u \<Longrightarrow> no_delims u" "plain_host h \<Longrightarrow> no_delims h" "port_part p \<Longrightarrow> no_delims p"
proof -
  show "userinfo u \<Longrightarrow> no_delims u" by (auto simp: userinfo_def)
  show "plain_host h \<Longrightarrow> no_delims h" by (simp add: plain_host_def no_delims_def)
  show "port_part p \<Longrightarrow> no_delims p" by (auto simp: port_part_def)
qed

lemma host_no_at: "plain_host h \<Longrightarrow> CHR ''@'' \<notin> set h"
  unfolding plain_host_def by (metis list.set_intros(1,2))

lemma port_no_at: "port_part p \<Longrightarrow> CHR ''@'' \<notin> set p"
  by (auto simp: port_part_def)

lemma find_scheme:
  "http_scheme sch \<Longrightarrow> find_sub ''://'' (sch @ s) = Some (length sch - 3) \<and> 3 \<le> length sch"
  by (auto simp: http_scheme_def starts_with_def)

lemma scheme_no_at: "http_scheme sch \<Longrightarrow> x \<in> set sch \<Longrightarrow> x \<noteq> CHR ''@''"
  by (auto simp: http_scheme_def)

lemma authorityEnd_parts:
  assumes "no_delims s" "path_part q"
  shows "authorityEnd (pre @ s @ q) (length pre) = length (pre @ s)"
proof -
  have "index_of (\<lambda>c. c \<in> set ''/?#'') (s @ q) =
      map_option (\<lambda>i. length s + i) (index_of (\<lambda>c. c \<in> set ''/?#'') q)"
    using assms(1) by (intro index_of_append) (simp add: no_delims_def)
  with assms(2) show ?thesis
    by (cases q) (auto simp: path_part_def find_at_def authorityEnd_def)
qed

lemma rfind_at_last:
  assumes "t \<noteq> []"
  shows "rfind_at P (s @ t @ q) (length (s @ t) - 1) = last_index_of P (s @ t)"
proof -
  have "Suc (length (s @ t) - 1) = length (s @ t)" using assms by (cases t) simp_all
  then show ?thesis by (simp add: rfind_at_def)
qed

lemma skipUserinfo_parts:
  assumes "http_scheme sch" "userinfo u" "no_delims t" "CHR ''@'' \<notin> set t" "t \<noteq> []" "path_part q"
  shows "skipUserinfo (sch @ u @ t @ q) (length sch) = length (sch @ u)"
proof -
  have "no_delims (u @ t)" using assms(2,3) by (simp add: no_delims_parts)
  from authorityEnd_parts [OF this assms(6), of sch]
  have e: "authorityEnd (sch @ u @ t @ q) (length sch) = length ((sch @ u) @ t)" by simp
  have r: "rfind_at (\<lambda>c. c = CHR ''@'') (sch @ u @ t @ q) (length ((sch @ u) @ t) - 1)
      = last_index_of (\<lambda>c. c = CHR ''@'') (sch @ u @ t)"
    using rfind_at_last [OF assms(5), of _ "sch @ u"] by simp
  have l: "length sch < length ((sch @ u) @ t)" using assms(5) by simp
  from assms(2) consider "u = []" | v where "u = v @ ''@''" by (auto simp: userinfo_def)
  then show ?thesis
  proof cases
    case 1
    have "last_index_of (\<lambda>c. c = CHR ''@'') (sch @ u @ t) = None"
      using scheme_no_at [OF assms(1)] assms(4) 1 by (auto simp: last_index_of_None)
    with 1 show ?thesis unfolding skipUserinfo_def e r using l by simp
  next
    case 2
    have "last_index_of (\<lambda>c. c = CHR ''@'') ((sch @ v) @ CHR ''@'' # t) = Some (length (sch @ v))"
      using assms(4) by (intro last_index_of_append) auto
    then have "last_index_of (\<lambda>c. c = CHR ''@'') (sch @ u @ t) = Some (length (sch @ v))"
      by (simp add: 2)
    with 2 show ?thesis unfolding skipUserinfo_def e r using l by simp
  qed
qed

lemma hostFrom_parts:
  assumes "plain_host h" "port_part p" "path_part q"
  shows "hostFrom (pre @ h @ p @ q) (length pre) = h"
proof -
  have i: "index_of (\<lambda>c. c \<in> set ''/:?#'') (h @ p @ q) =
      map_option (\<lambda>i. length h + i) (index_of (\<lambda>c. c \<in> set ''/:?#'') (p @ q))"
    using assms(1) by (intro index_of_append) (auto simp: plain_host_def)
  have "p @ q = [] \<or> hd (p @ q) \<in> set ''/:?#''"
    using assms(2,3) by (cases p) (auto simp: port_part_def path_part_def)
  then have "index_of (\<lambda>c. c \<in> set ''/:?#'') (p @ q) = (if p @ q = [] then None else Some 0)"
    by (cases "p @ q") auto
  moreover have "(pre @ h @ p @ q) ! length pre \<noteq> CHR ''[''"
    using assms(1) by (cases h) (simp_all add: plain_host_def nth_append)
  ultimately show ?thesis using i by (auto simp: hostFrom_def find_at_def substr_def)
qed

lemma extractUrlHost_parts:
  assumes "http_scheme sch" "userinfo u" "plain_host h" "port_part p" "path_part q"
  shows "extractUrlHost (sch @ u @ h @ p @ q) = h"
proof -
  have hp: "no_delims (h @ p)" "CHR ''@'' \<notin> set (h @ p)" "h @ p \<noteq> []"
    using host_no_at [OF assms(3)] port_no_at [OF assms(4)] assms(3,4)
    by (simp_all add: no_delims_parts plain_host_def)
  have "skipUserinfo (sch @ u @ h @ p @ q) (length sch) = length (sch @ u)"
    using skipUserinfo_parts [OF assms(1,2) hp assms(5)] by simp
  moreover have "hostFrom (sch @ u @ h @ p @ q) (length (sch @ u)) = h"
    using hostFrom_parts [OF assms(3-5), of "sch @ u"] by simp
  ultimately show ?thesis
    using find_scheme [OF assms(1), of "u @ h @ p @ q"] hp(3)
    by (simp add: extractUrlHost_def)
qed

section \<open>Decimal address literals\<close>

lemma ipv4Segment_show: "ipv4Segment (show_nat n) = (if n < 256 then Some (of_nat n) else None)"
proof -
  have len: "n < 256 \<Longrightarrow> length (show_nat n) \<le> 3" using length_show_nat [of n 2] by simp
  have hd: "1 < length (show_nat n) \<Longrightarrow> hd (show_nat n) \<noteq> CHR ''0''"
    using hd_show_nat [of n] by (cases "n = 0") (auto simp: show_nat.simps [of 0])
  show ?thesis using len hd by (auto simp: ipv4Segment_def)
qed

lemma show_nat_no_dot: "x \<in> set (show_nat n) \<Longrightarrow> x \<noteq> CHR ''.''"
  using set_show_nat not_digit_simps(1) by metis

lemma index_dot_show: "index_of (\<lambda>c. c = CHR ''.'') (show_nat n) = None"
  by (auto simp: index_of_None dest: show_nat_no_dot)

lemma index_dot_show_Cons:
  "index_of (\<lambda>c. c = CHR ''.'') (show_nat n @ CHR ''.'' # s) = Some (length (show_nat n))"
  by (subst index_of_append) (auto dest: show_nat_no_dot)

lemma dotted_Cons: "ns \<noteq> [] \<Longrightarrow> dotted (n # ns) = show_nat n @ CHR ''.'' # dotted ns"
  by (cases ns) simp_all

lemma parseIpv4From_dotted:
  assumes "ns \<noteq> []"
  shows "parseIpv4From i (dotted ns) =
    (if length ns = Suc i \<and> (\<forall>n\<in>set ns. n < 256) then Some (map of_nat ns) else None)"
  using assms
proof (induction i arbitrary: ns)
  case 0
  then show ?case
  proof (cases ns rule: dotted.cases)
    case (3 n m ms)
    have "CHR ''.'' \<in> set (dotted ns)" by (simp add: 3)
    then have "\<not> list_all is_digit (dotted ns)"
      using not_digit_simps(1) unfolding list_all_iff by blast
    with 3 show ?thesis by (simp add: ipv4Segment_def)
  qed (auto simp: ipv4Segment_show)
next
  case (Suc i)
  then show ?case
  proof (cases ns rule: dotted.cases)
    case (3 n m ms)
    have IH: "parseIpv4From i (dotted (m # ms)) =
        (if length (m # ms) = Suc i \<and> (\<forall>n\<in>set (m # ms). n < 256) then Some (map of_nat (m # ms)) else None)"
      by (rule Suc.IH) simp
    from 3 IH show ?thesis by (simp add: index_dot_show_Cons ipv4Segment_show)
  qed (auto simp: index_dot_show)
qed

lemma labels_dotted: "ns \<noteq> [] \<Longrightarrow> labels (dotted ns) = map show_nat ns"
proof (induction ns rule: dotted.induct)
  case (3 n m ms)
  then show ?case by (simp add: labels.simps [of "show_nat n @ _"] index_dot_show_Cons)
qed (simp_all add: labels.simps index_dot_show)

lemma numericLabel_show: "numericLabel (show_nat n)"
proof -
  have "show_nat n ! 1 \<noteq> CHR ''x''" "show_nat n ! 1 \<noteq> CHR ''X''" if "2 < length (show_nat n)"
    using that nth_mem [of 1 "show_nat n"] set_show_nat [of "show_nat n ! 1" n] by fastforce+
  then show ?thesis by (auto simp: numericLabel_def)
qed

lemma set_dotted: "c \<in> set (dotted ns) \<Longrightarrow> is_digit c \<or> c = CHR ''.''"
  by (induction ns rule: dotted.induct) (auto dest: set_show_nat)

lemma to_lower_dotted: "map to_lower (dotted ns) = dotted ns"
proof -
  have "to_lower c = c" if "c \<in> set (dotted ns)" for c
    using set_dotted [OF that] by (auto simp: to_lower_def is_upper_def in_range_def is_digit_byte)
  then show ?thesis by (simp add: map_idI)
qed

lemma dotted_not_Nil: "ns \<noteq> [] \<Longrightarrow> dotted ns \<noteq> []"
  by (cases ns rule: dotted.cases) auto

lemma dotted_not_localhost: "dotted ns \<noteq> ''localhost''" "dotted ns \<noteq> ''localhost.''"
proof -
  have "CHR ''l'' \<notin> set (dotted ns)" using set_dotted [of "CHR ''l''" ns] by (auto simp: is_digit_byte)
  then show "dotted ns \<noteq> ''localhost''" "dotted ns \<noteq> ''localhost.''" by auto
qed

lemma plain_host_dotted: "ns \<noteq> [] \<Longrightarrow> plain_host (dotted ns)"
proof -
  assume ns: "ns \<noteq> []"
  have "c \<notin> set ''/?#:@['' " if "c \<in> set (dotted ns)" for c
    using set_dotted [OF that] by (auto simp: is_digit_byte)
  with ns dotted_not_Nil [OF ns] show ?thesis
    using hd_in_set [of "dotted ns"] by (auto simp: plain_host_def)
qed

text \<open>The two masks of \<open>isPrivateIpv4\<close> are the ranges they stand for.\<close>

lemma mask_F0:
  "n < 256 \<Longrightarrow> (of_nat n :: 8 word) AND 0xF0 = 16 \<longleftrightarrow> 16 \<le> n \<and> n \<le> 31"
proof -
  have "\<forall>n\<in>set [0..<256]. ((of_nat n :: 8 word) AND 0xF0 = 16) = (16 \<le> n \<and> n \<le> 31)"
    by code_simp
  then show "n < 256 \<Longrightarrow> (of_nat n :: 8 word) AND 0xF0 = 16 \<longleftrightarrow> 16 \<le> n \<and> n \<le> 31" by simp
qed

lemma mask_C0:
  "n < 256 \<Longrightarrow> (of_nat n :: 8 word) AND 0xC0 = 64 \<longleftrightarrow> 64 \<le> n \<and> n \<le> 127"
proof -
  have "\<forall>n\<in>set [0..<256]. ((of_nat n :: 8 word) AND 0xC0 = 64) = (64 \<le> n \<and> n \<le> 127)"
    by code_simp
  then show "n < 256 \<Longrightarrow> (of_nat n :: 8 word) AND 0xC0 = 64 \<longleftrightarrow> 64 \<le> n \<and> n \<le> 127" by simp
qed

lemma octet_eq:
  assumes "n < 256" "m < 256"
  shows "(of_nat n :: 8 word) = of_nat m \<longleftrightarrow> n = m"
  using assms by (simp add: word_of_nat_eq_iff take_bit_nat_eq_self)

lemma isPrivateIpv4_range:
  assumes "a < 256" "b < 256"
  shows "isPrivateIpv4 (of_nat a) (of_nat b) c d \<longleftrightarrow> private_range a b"
proof -
  have n: "(of_nat n :: 8 word) = numeral k \<longleftrightarrow> n = numeral k" if "n < 256" "numeral k < (256::nat)" for n k
    using octet_eq [OF that] by simp
  have "(of_nat a :: 8 word) = 0 \<longleftrightarrow> a = 0" using octet_eq [OF assms(1), of 0] by simp
  then show ?thesis using assms
    by (simp add: isPrivateIpv4_def private_range_def n mask_F0 mask_C0)
qed

lemma isBlockedHost_dotted:
  assumes "ns \<noteq> []"
  shows "isBlockedHost (dotted ns) \<longleftrightarrow> \<not> public_quad ns"
proof -
  have colon: "CHR '':'' \<notin> set (dotted ns)" using set_dotted [of "CHR '':''" ns] by auto
  have shape: "isNumericAddressShape (dotted ns)"
    using assms by (simp add: isNumericAddressShape_def labels_dotted list_all_iff numericLabel_show)
  have base: "isBlockedHost (dotted ns) =
      (case parseIpv4 (dotted ns) of Some [a, b, c, d] \<Rightarrow> isPrivateIpv4 a b c d
       | _ \<Rightarrow> isNumericAddressShape (dotted ns))"
    using colon dotted_not_Nil [OF assms] dotted_not_localhost
    by (simp add: isBlockedHost_def Let_def to_lower_dotted)
  show ?thesis
  proof (cases "length ns = 4 \<and> (\<forall>n\<in>set ns. n < 256)")
    case True
    then obtain a b c d where ns: "ns = [a, b, c, d]"
      by (auto simp: length_Suc_conv numeral_eq_Suc)
    have "parseIpv4 (dotted ns) = Some (map of_nat ns)"
      using True parseIpv4From_dotted [OF assms, of 3] by (simp add: parseIpv4_def)
    with base ns True show ?thesis by (simp add: isPrivateIpv4_range)
  next
    case False
    have "\<not> public_quad ns" using False by (auto elim!: public_quad.elims)
    moreover have "parseIpv4 (dotted ns) = None"
      using False parseIpv4From_dotted [OF assms, of 3] by (simp add: parseIpv4_def)
    ultimately show ?thesis using base shape by simp
  qed
qed

section \<open>Properties\<close>

text \<open>
  C4: the notify-URL guard decides every decimal address correctly, wherever it is placed
  in the URL. With any userinfo in front, any port and any path, query or fragment behind
  it, a URL whose host is written as decimal numbers joined by dots is accepted exactly
  when the host is a dotted quad of four octets outside 0/8, 10/8, 100.64/10, 127/8,
  169.254/16, 172.16/12 and 192.168/16 and the URL is at most 512 bytes long; the short
  and single-number spellings of an address are always refused.
\<close>

theorem validateNotifyUrl_decimal_host:
  assumes "http_scheme sch" "userinfo u" "ns \<noteq> []" "port_part p" "path_part q"
  shows "validateNotifyUrl (sch @ u @ dotted ns @ p @ q) = None \<longleftrightarrow>
     public_quad ns \<and> length (sch @ u @ dotted ns @ p @ q) \<le> 512"
proof -
  have h: "extractUrlHost (sch @ u @ dotted ns @ p @ q) = dotted ns"
    using assms by (intro extractUrlHost_parts plain_host_dotted)
  have "sch \<noteq> []" "starts_with ''http://'' (sch @ s) \<or> starts_with ''https://'' (sch @ s)" for s
    using assms(1) by (auto simp: http_scheme_def starts_with_def)
  then show ?thesis
    using isBlockedHost_dotted [OF assms(3)] by (auto simp: validateNotifyUrl_def h)
qed

theorem validateNotifyUrl_decimal_host_witness:
  "validateNotifyUrl (''http://'' @ ''a@b@'' @ dotted [127, 0, 0, 1] @ '':8080'' @ ''/cb'') \<noteq> None \<and>
   validateNotifyUrl (''https://'' @ [] @ dotted [2130706433] @ [] @ ''#x'') \<noteq> None \<and>
   validateNotifyUrl (''http://'' @ [] @ dotted [203, 0, 113, 10] @ [] @ ''/cb'') = None"
proof -
  have s: "http_scheme ''http://''" "http_scheme ''https://''" by (simp_all add: http_scheme_def)
  have u: "userinfo ''a@b@''" "userinfo []"
    by (auto simp: userinfo_def intro!: exI [of _ "''a@b''"])
  have p: "port_part '':8080''" "port_part []" by (simp_all add: port_part_def)
  have q: "path_part ''/cb''" "path_part ''#x''" by (simp_all add: path_part_def)
  have "\<not> public_quad [127, 0, 0, 1]" "\<not> public_quad [2130706433]" "public_quad [203, 0, 113, 10]"
    by (simp_all add: private_range_def)
  moreover have "length (''http://'' @ [] @ dotted [203, 0, 113, 10] @ [] @ ''/cb'') \<le> 512"
    by (simp add: show_nat.simps)
  ultimately show ?thesis
    using validateNotifyUrl_decimal_host [OF s(1) u(1) _ p(1) q(1), of "[127, 0, 0, 1]"]
      validateNotifyUrl_decimal_host [OF s(2) u(2) _ p(2) q(2), of "[2130706433]"]
      validateNotifyUrl_decimal_host [OF s(1) u(2) _ p(2) q(1), of "[203, 0, 113, 10]"]
    by blast
qed

text \<open>
  Two spellings of internal hosts pass the notify-URL guard. A loopback dotted quad
  with the root dot (\<open>127.0.0.1.\<close>) is read as a domain, although \<open>localhost.\<close> is refused
  with and without the dot, and the 6to4 form of the metadata address 169.254.169.254
  (\<open>2002:a9fe:a9fe::1\<close>) counts as global unicast because 2002::/16 lies in 2000::/3.
\<close>

lemma validateNotifyUrl_accepts_internal_spellings:
  "validateNotifyUrl ''http://127.0.0.1./cb'' = None \<and>
   validateNotifyUrl ''http://localhost./cb'' \<noteq> None \<and>
   validateNotifyUrl ''http://[2002:a9fe:a9fe::1]/cb'' = None"
  by code_simp

lemma unreserved_not_percent: "unreserved c \<Longrightarrow> c \<noteq> CHR ''%''"
  by (auto simp: unreserved_def is_upper_def is_lower_def is_digit_def in_range_def)

lemma percentDecode_plain: "c \<noteq> CHR ''%'' \<Longrightarrow> percentDecode (c # s) = c # percentDecode s"
  by (cases "(c # s)" rule: percentDecode.cases) auto

lemma hexValue_kHex: "n < 16 \<Longrightarrow> hexValue (kHex ! n) = n"
proof -
  have "\<forall>n\<in>set [0..<16]. hexValue (kHex ! n) = n" by code_simp
  then show "n < 16 \<Longrightarrow> hexValue (kHex ! n) = n" by simp
qed

lemma unreserved_kHex: "n < 16 \<Longrightarrow> unreserved (kHex ! n)"
proof -
  have "\<forall>n\<in>set [0..<16]. unreserved (kHex ! n)" by code_simp
  then show "n < 16 \<Longrightarrow> unreserved (kHex ! n)" by simp
qed

lemma percentDecode_encodeByte: "percentDecode (encodeByte c @ s) = c # percentDecode s"
proof (cases "unreserved c")
  case True
  then show ?thesis by (simp add: encodeByte_def percentDecode_plain unreserved_not_percent)
next
  case False
  have "byte c < 256" by simp
  then have "byte c div 16 < 16" using less_mult_imp_div_less [of "byte c" 16 16] by simp
  then have "hexValue (kHex ! (byte c div 16 mod 16)) * 16 + hexValue (kHex ! (byte c mod 16)) = byte c"
    by (simp add: hexValue_kHex)
  with False show ?thesis by (simp add: encodeByte_def)
qed

text \<open>
  Percent-encoding a path segment is lossless and confines it to one segment: decoding
  gives back the raw identifier for every byte string, so two identifiers never share an
  encoding, and the encoded text consists of unreserved characters and percent signs only,
  so it cannot contain a slash, a question mark, a hash or an ampersand.
\<close>

lemma urlEncodePathSegment_roundtrip:
  "percentDecode (urlEncodePathSegment raw) = raw \<and>
   set (urlEncodePathSegment raw) \<subseteq> {c. unreserved c \<or> c = CHR ''%''}"
proof
  show "percentDecode (urlEncodePathSegment raw) = raw"
    by (induction raw) (simp_all add: urlEncodePathSegment_def percentDecode_encodeByte)
  show "set (urlEncodePathSegment raw) \<subseteq> {c. unreserved c \<or> c = CHR ''%''}"
    by (auto simp: urlEncodePathSegment_def encodeByte_def unreserved_kHex split: if_splits)
qed

end
