(* ===== verification/Pay_Time.thy ===== *)
theory Pay_Time
  imports Pay_Prelude
begin

text \<open>
  The timestamp helpers of \<open>utils/PayUtils.cc\<close>: the strict RFC 3339 reader and the
  check of an order's \<open>time_expire\<close>. The reader returns \<open>Inl errorMessage\<close> or
  \<open>Inr secondsSinceEpoch\<close>; the fields are small (four or two digits), so the C++
  \<open>int\<close> and \<open>unsigned\<close> values are modelled as \<open>int\<close> and never leave their width.
\<close>

section \<open>Reading the fields\<close>

definition readFixedDigits :: "string \<Rightarrow> nat \<Rightarrow> nat \<Rightarrow> int option" where
  "readFixedDigits s at count =
     (if length s < at + count then None
      else if list_all is_digit (substr s at count) then Some (int (dec_value (substr s at count)))
      else None)"

definition isLeapYear :: "int \<Rightarrow> bool" where
  "isLeapYear year \<longleftrightarrow> (year mod 4 = 0 \<and> year mod 100 \<noteq> 0) \<or> year mod 400 = 0"

definition kDaysInMonth :: "int list" where
  "kDaysInMonth = [31, 28, 31, 30, 31, 30, 31, 31, 30, 31, 30, 31]"

definition daysInMonth :: "int \<Rightarrow> int \<Rightarrow> int" where
  "daysInMonth year month =
     (if month = 2 \<and> isLeapYear year then 29 else kDaysInMonth ! nat (month - 1))"

text \<open>C++ division by a positive divisor truncates towards zero.\<close>

definition c_div :: "int \<Rightarrow> int \<Rightarrow> int" where
  "c_div a b = (if a < 0 then - ((- a) div b) else a div b)"

definition daysFromCivil :: "int \<Rightarrow> int \<Rightarrow> int \<Rightarrow> int" where
  "daysFromCivil year0 month day =
     (let year = year0 - (if month \<le> 2 then 1 else 0);
          era = c_div (if year \<ge> 0 then year else year - 399) 400;
          yearOfEra = year - era * 400;
          shiftedMonth = month + (if month > 2 then -3 else 9);
          dayOfYear = (153 * shiftedMonth + 2) div 5 + day - 1;
          dayOfEra = yearOfEra * 365 + yearOfEra div 4 - yearOfEra div 100 + dayOfYear
      in era * 146097 + dayOfEra - 719468)"

text \<open>The plus-minus sign of the messages is the UTF-8 sequence \<open>C2 B1\<close>.\<close>

definition kFormatError :: string where
  "kFormatError =
     ''expected RFC 3339 (yyyy-MM-DDTHH:mm:ss with a Z or '' @ [CHR 0xC2, CHR 0xB1] @
     ''HH:MM timezone)''"

definition timezoneError :: string where
  "timezoneError =
     ''the timestamp must carry a timezone (Z or '' @ [CHR 0xC2, CHR 0xB1] @ ''HH:MM)''"

text \<open>The six fields, or \<open>None\<close> where the first condition of \<open>parseRfc3339\<close> fails.\<close>

definition civilFields :: "string \<Rightarrow> (int \<times> int \<times> int \<times> int \<times> int \<times> int) option" where
  "civilFields value =
     (if length value < 20 then None
      else case readFixedDigits value 0 4 of None \<Rightarrow> None | Some year \<Rightarrow>
        if value ! 4 \<noteq> CHR ''-'' then None
        else case readFixedDigits value 5 2 of None \<Rightarrow> None | Some month \<Rightarrow>
          if value ! 7 \<noteq> CHR ''-'' then None
          else case readFixedDigits value 8 2 of None \<Rightarrow> None | Some day \<Rightarrow>
            if value ! 10 \<noteq> CHR ''T'' then None
            else case readFixedDigits value 11 2 of None \<Rightarrow> None | Some hour \<Rightarrow>
              if value ! 13 \<noteq> CHR '':'' then None
              else case readFixedDigits value 14 2 of None \<Rightarrow> None | Some minute \<Rightarrow>
                if value ! 16 \<noteq> CHR '':'' then None
                else case readFixedDigits value 17 2 of None \<Rightarrow> None | Some second \<Rightarrow>
                  Some (year, month, day, hour, minute, second))"

definition momentExists :: "int \<Rightarrow> int \<Rightarrow> int \<Rightarrow> int \<Rightarrow> int \<Rightarrow> int \<Rightarrow> bool" where
  "momentExists year month day hour minute second \<longleftrightarrow>
     \<not> (month < 1 \<or> month > 12 \<or> day < 1 \<or> day > daysInMonth year month \<or> hour > 23 \<or>
        minute > 59 \<or> second > 59)"

text \<open>
  Optional fractional seconds from position 19: the position after them, or \<open>None\<close> for a
  dot without a digit.
\<close>

definition skipFraction :: "string \<Rightarrow> nat option" where
  "skipFraction value =
     (if 19 < length value \<and> value ! 19 = CHR ''.''
      then let k = length (takeWhile is_digit (drop 20 value))
           in if k = 0 then None else Some (20 + k)
      else Some 19)"

text \<open>The zone at position \<open>at\<close>: the position after it and the offset in seconds.\<close>

definition readZone :: "string \<Rightarrow> nat \<Rightarrow> string + (nat \<times> int)" where
  "readZone value at =
     (if at = length value then Inl timezoneError
      else if value ! at = CHR ''Z'' then Inr (at + 1, 0)
      else if value ! at = CHR ''+'' \<or> value ! at = CHR ''-'' then
        let sign = (if value ! at = CHR ''+'' then 1 else -1); at = at + 1
        in case readFixedDigits value at 2 of None \<Rightarrow> Inl kFormatError | Some offsetHour \<Rightarrow>
             if at + 2 \<ge> length value \<or> value ! (at + 2) \<noteq> CHR '':'' then Inl kFormatError
             else case readFixedDigits value (at + 3) 2 of None \<Rightarrow> Inl kFormatError
               | Some offsetMinute \<Rightarrow>
                   if offsetHour > 23 \<or> offsetMinute > 59
                   then Inl ''the timezone offset is out of range''
                   else Inr (at + 5, sign * (offsetHour * 3600 + offsetMinute * 60))
      else Inl kFormatError)"

definition parseRfc3339 :: "string \<Rightarrow> string + int" where
  "parseRfc3339 value =
     (case civilFields value of
        None \<Rightarrow> Inl kFormatError
      | Some (year, month, day, hour, minute, second) \<Rightarrow>
          if \<not> momentExists year month day hour minute second
          then Inl ''the timestamp names a moment that does not exist''
          else
            (case skipFraction value of
               None \<Rightarrow> Inl kFormatError
             | Some at \<Rightarrow>
                 (case readZone value at of
                    Inl e \<Rightarrow> Inl e
                  | Inr (at, offsetSeconds) \<Rightarrow>
                      if at \<noteq> length value then Inl kFormatError
                      else Inr (daysFromCivil year month day * 86400 + hour * 3600 + minute * 60 +
                                second - offsetSeconds))))"

text \<open>\<open>validateTimeExpire\<close> at clock \<open>nowSeconds\<close>: \<open>None\<close> accepts.\<close>

definition validateTimeExpire :: "int \<Rightarrow> string \<Rightarrow> string \<Rightarrow> string option" where
  "validateTimeExpire nowSeconds timeExpire channel =
     (case parseRfc3339 timeExpire of
        Inl parseError \<Rightarrow> Some (''time_expire '' @ parseError)
      | Inr expirySeconds \<Rightarrow>
          if expirySeconds \<le> nowSeconds then Some ''time_expire is already in the past''
          else if channel = ''wechat'' \<and> expirySeconds > nowSeconds + 7 * 86400
          then Some ''time_expire must be within 7 days for WeChat Pay''
          else None)"

section \<open>Reference calendar\<close>

definition valid_date :: "int \<Rightarrow> int \<Rightarrow> int \<Rightarrow> bool" where
  "valid_date y m d \<longleftrightarrow> 0 \<le> y \<and> 1 \<le> m \<and> m \<le> 12 \<and> 1 \<le> d \<and> d \<le> daysInMonth y m"

text \<open>The day after a date of the proleptic Gregorian calendar.\<close>

definition next_day :: "int \<Rightarrow> int \<Rightarrow> int \<Rightarrow> int \<times> int \<times> int" where
  "next_day y m d =
     (if d < daysInMonth y m then (y, m, d + 1)
      else if m < 12 then (y, m + 1, 1)
      else (y + 1, 1, 1))"

text \<open>Two- and four-digit fields as text, and the timestamp they make.\<close>

definition pad2 :: "nat \<Rightarrow> string" where
  "pad2 n = [digit_char (n div 10), digit_char (n mod 10)]"

definition pad4 :: "nat \<Rightarrow> string" where
  "pad4 n = [digit_char (n div 1000), digit_char (n div 100 mod 10), digit_char (n div 10 mod 10),
             digit_char (n mod 10)]"

definition rfc3339_text :: "nat \<Rightarrow> nat \<Rightarrow> nat \<Rightarrow> nat \<Rightarrow> nat \<Rightarrow> nat \<Rightarrow> string \<Rightarrow> string" where
  "rfc3339_text y m d h mi s zone =
     pad4 y @ ''-'' @ pad2 m @ ''-'' @ pad2 d @ ''T'' @ pad2 h @ '':'' @ pad2 mi @ '':'' @ pad2 s @
     zone"

definition zone_text :: "bool \<Rightarrow> nat \<Rightarrow> nat \<Rightarrow> string" where
  "zone_text east oh om = (if east then ''+'' else ''-'') @ pad2 oh @ '':'' @ pad2 om"

section \<open>Day numbers\<close>

lemma era_floor: "c_div (if y \<ge> 0 then y else y - 399) 400 = y div 400"
proof (cases "y \<ge> 0")
  case True
  then show ?thesis by (simp add: c_div_def)
next
  case False
  let ?q = "y div 400" and ?r = "y mod 400"
  have y: "y = 400 * ?q + ?r" "0 \<le> ?r" "?r < 400" by simp_all
  then have "- (y - 399) = 400 * (- ?q) + (399 - ?r)" by linarith
  then have "(- (y - 399)) div 400 = - ?q" using y(2,3) by (intro int_div_pos_eq [where r = "399 - ?r"]) simp_all
  with False show ?thesis by (simp add: c_div_def)
qed

text \<open>Days in the years before March of year \<open>y\<close>, up to a constant.\<close>

definition year_days :: "int \<Rightarrow> int" where
  "year_days y = 365 * y + y div 4 - y div 100 + y div 400"

lemma era_split:
  "y div 400 * 146097 +
     ((y - y div 400 * 400) * 365 + (y - y div 400 * 400) div 4 - (y - y div 400 * 400) div 100 + k)
   = year_days y + k" for y k :: int
proof -
  have "(y - y div 400 * 400) div 4 = y div 4 - 100 * (y div 400)"
    using div_mult_self1 [of 4 y "- 100 * (y div 400)"] by (simp add: algebra_simps)
  moreover have "(y - y div 400 * 400) div 100 = y div 100 - 4 * (y div 400)"
    using div_mult_self1 [of 100 y "- 4 * (y div 400)"] by (simp add: algebra_simps)
  ultimately show ?thesis by (simp add: year_days_def algebra_simps)
qed

lemma daysFromCivil_closed:
  "daysFromCivil y m d =
     year_days (y - (if m \<le> 2 then 1 else 0)) +
     ((153 * (m + (if m > 2 then -3 else 9)) + 2) div 5 + d - 1) - 719468"
  unfolding daysFromCivil_def Let_def era_floor era_split ..

lemma months: "1 \<le> m \<Longrightarrow> m \<le> 12 \<Longrightarrow>
  m = 1 \<or> m = 2 \<or> m = 3 \<or> m = 4 \<or> m = 5 \<or> m = 6 \<or> m = 7 \<or> m = 8 \<or> m = 9 \<or> m = 10 \<or>
  m = 11 \<or> m = (12::int)"
  by presburger

lemma div_pred:
  fixes y k :: int
  assumes "0 < k"
  shows "y div k = (y - 1) div k + (if y mod k = 0 then 1 else 0)"
proof (cases "y mod k = 0")
  case True
  then have "y - 1 = k * (y div k - 1) + (k - 1)"
    using div_mult_mod_eq [of y k] by (simp add: algebra_simps)
  then have "(y - 1) div k = y div k - 1"
    using assms by (intro int_div_pos_eq [where r = "k - 1"]) simp_all
  with True show ?thesis by simp
next
  case False
  have "0 \<le> y mod k" "y mod k < k" using assms by simp_all
  moreover have "y - 1 = k * (y div k) + (y mod k - 1)" by simp
  ultimately have "(y - 1) div k = y div k"
    using False by (intro int_div_pos_eq [where r = "y mod k - 1"]) simp_all
  with False show ?thesis by simp
qed

lemma leap_count:
  "(p400 \<longrightarrow> p100) \<Longrightarrow> (p100 \<longrightarrow> p4) \<Longrightarrow>
   365 * y + (a + (if p4 then 1 else 0)) - (b + (if p100 then 1 else 0)) + (c + (if p400 then 1 else 0)) =
   365 * (y - 1) + a - b + c + 365 + (if (p4 \<and> \<not> p100) \<or> p400 then 1 else (0::int))"
  by auto

lemma mod0_trans: "a mod b = 0 \<Longrightarrow> c dvd b \<Longrightarrow> a mod c = 0" for a b c :: int
  by (metis dvd_trans mod_0_imp_dvd dvd_imp_mod_0)

lemma year_days_step: "year_days y = year_days (y - 1) + 365 + (if isLeapYear y then 1 else 0)"
  unfolding year_days_def isLeapYear_def
  using mod0_trans [of y 400 100] mod0_trans [of y 100 4]
  by (subst div_pred [of 4 y], simp, subst div_pred [of 100 y], simp, subst div_pred [of 400 y], simp,
      intro leap_count) simp_all

text \<open>
  The day number of \<open>daysFromCivil\<close> counts the days of the proleptic Gregorian
  calendar: the epoch is day 0, and from any valid date of a year that is not negative the
  next calendar day, across the ends of months, leap years and years, has the next number.
\<close>

lemma daysFromCivil_counts_days:
  assumes "valid_date y m d" "next_day y m d = (y', m', d')"
  shows "daysFromCivil 1970 1 1 = 0 \<and> daysFromCivil y' m' d' = daysFromCivil y m d + 1"
proof
  show "daysFromCivil 1970 1 1 = 0" by (simp add: daysFromCivil_closed year_days_def)
  have m: "1 \<le> m" "m \<le> 12" and d: "d \<le> daysInMonth y m" using assms(1) by (simp_all add: valid_date_def)
  show "daysFromCivil y' m' d' = daysFromCivil y m d + 1"
  proof (cases "d < daysInMonth y m")
    case True
    with assms(2) show ?thesis by (auto simp: next_day_def daysFromCivil_closed Let_def)
  next
    case False
    with d have "d = daysInMonth y m" by simp
    moreover have "next_day y m d = (if m < 12 then (y, m + 1, 1) else (y + 1, 1, 1))"
      using False by (simp add: next_day_def)
    ultimately show ?thesis
      using assms(2) months [OF m] year_days_step [of y]
      by (elim disjE) (auto simp: daysFromCivil_closed daysInMonth_def kDaysInMonth_def Let_def)
  qed
qed

section \<open>Reading printed timestamps\<close>

lemma pad_digits:
  "n < 100 \<Longrightarrow> list_all is_digit (pad2 n)" "n < 10000 \<Longrightarrow> list_all is_digit (pad4 n)"
  by (auto simp: pad2_def pad4_def)

lemma pad_value:
  "n < 100 \<Longrightarrow> dec_value (pad2 n) = n" "n < 10000 \<Longrightarrow> dec_value (pad4 n) = n"
proof -
  show "n < 100 \<Longrightarrow> dec_value (pad2 n) = n" by (simp add: pad2_def dec_value_Cons)
  assume "n < 10000"
  then have "dec_value (pad4 n) = n div 1000 * 1000 + n div 100 mod 10 * 100 + n div 10 mod 10 * 10 + n mod 10"
    by (simp add: pad4_def dec_value_Cons)
  also have "\<dots> = n"
  proof -
    have q: "n div 100 = n div 10 div 10" "n div 1000 = n div 10 div 10 div 10"
      by (simp_all add: div_mult2_eq [symmetric])
    have "k = k div 10 * 10 + k mod 10" for k :: nat by simp
    from this [of n] this [of "n div 10"] this [of "n div 10 div 10"] show ?thesis
      unfolding q by linarith
  qed
  finally show "dec_value (pad4 n) = n" .
qed

lemma readFixedDigits_prefix:
  "drop at s = f @ t \<Longrightarrow> length f = count \<Longrightarrow> at \<le> length s \<Longrightarrow> list_all is_digit f \<Longrightarrow>
     readFixedDigits s at count = Some (int (dec_value f))"
  using length_drop [of at s] by (auto simp: readFixedDigits_def substr_def)

lemma length_pad [simp]: "length (pad2 n) = 2" "length (pad4 n) = 4"
  by (simp_all add: pad2_def pad4_def)

text \<open>Dropping and indexing the printed timestamp, field by field.\<close>

lemma text_cons:
  "rfc3339_text y m d h mi s z =
   [digit_char (y div 1000), digit_char (y div 100 mod 10), digit_char (y div 10 mod 10),
    digit_char (y mod 10), CHR ''-'', digit_char (m div 10), digit_char (m mod 10), CHR ''-'',
    digit_char (d div 10), digit_char (d mod 10), CHR ''T'', digit_char (h div 10),
    digit_char (h mod 10), CHR '':'', digit_char (mi div 10), digit_char (mi mod 10), CHR '':'',
    digit_char (s div 10), digit_char (s mod 10)] @ z"
  by (simp add: rfc3339_text_def pad2_def pad4_def)

lemma text_drop:
  "drop 0 (rfc3339_text y m d h mi s z) = pad4 y @ drop 4 (rfc3339_text y m d h mi s z)"
  "drop 5 (rfc3339_text y m d h mi s z) = pad2 m @ drop 7 (rfc3339_text y m d h mi s z)"
  "drop 8 (rfc3339_text y m d h mi s z) = pad2 d @ drop 10 (rfc3339_text y m d h mi s z)"
  "drop 11 (rfc3339_text y m d h mi s z) = pad2 h @ drop 13 (rfc3339_text y m d h mi s z)"
  "drop 14 (rfc3339_text y m d h mi s z) = pad2 mi @ drop 16 (rfc3339_text y m d h mi s z)"
  "drop 17 (rfc3339_text y m d h mi s z) = pad2 s @ drop 19 (rfc3339_text y m d h mi s z)"
  "drop 19 (rfc3339_text y m d h mi s z) = z"
  by (simp_all add: text_cons pad2_def pad4_def)

lemma text_length: "length (rfc3339_text y m d h mi s z) = 19 + length z"
  by (simp add: text_cons)

lemma text_nth:
  "rfc3339_text y m d h mi s z ! 4 = CHR ''-''" "rfc3339_text y m d h mi s z ! 7 = CHR ''-''"
  "rfc3339_text y m d h mi s z ! 10 = CHR ''T''" "rfc3339_text y m d h mi s z ! 13 = CHR '':''"
  "rfc3339_text y m d h mi s z ! 16 = CHR '':''"
  by (simp_all add: text_cons)

lemma civilFields_text:
  assumes "y < 10000" "m < 100" "d < 100" "h < 100" "mi < 100" "s < 100" "z \<noteq> []"
  shows "civilFields (rfc3339_text y m d h mi s z) =
     Some (int y, int m, int d, int h, int mi, int s)"
proof -
  let ?t = "rfc3339_text y m d h mi s z"
  have "20 \<le> length ?t" using assms(7) by (cases z) (simp_all add: text_length)
  moreover from this have
    "readFixedDigits ?t 0 4 = Some (int y)" "readFixedDigits ?t 5 2 = Some (int m)"
    "readFixedDigits ?t 8 2 = Some (int d)" "readFixedDigits ?t 11 2 = Some (int h)"
    "readFixedDigits ?t 14 2 = Some (int mi)" "readFixedDigits ?t 17 2 = Some (int s)"
    using assms(1-6) readFixedDigits_prefix [OF text_drop(1) [of y m d h mi s z]]
      readFixedDigits_prefix [OF text_drop(2) [of y m d h mi s z]]
      readFixedDigits_prefix [OF text_drop(3) [of y m d h mi s z]]
      readFixedDigits_prefix [OF text_drop(4) [of y m d h mi s z]]
      readFixedDigits_prefix [OF text_drop(5) [of y m d h mi s z]]
      readFixedDigits_prefix [OF text_drop(6) [of y m d h mi s z]]
    by (simp_all add: pad_digits pad_value)
  ultimately show ?thesis by (simp add: civilFields_def text_nth)
qed

lemma readZone_text:
  assumes "oh < 100" "om < 100" "drop at v = zone_text east oh om" "at \<le> length v"
  shows "readZone v at =
     (if oh > 23 \<or> om > 59 then Inl ''the timezone offset is out of range''
      else Inr (length v, (if east then 1 else -1) * (int oh * 3600 + int om * 60)))"
proof -
  have len: "length v = at + 6"
    using arg_cong [OF assms(3), of length] assms(4) by (simp add: zone_text_def split: if_splits)
  have nth: "v ! (at + k) = zone_text east oh om ! k" for k
    using assms(3,4) by (metis nth_drop)
  have d1: "drop (at + 1) v = pad2 oh @ CHR '':'' # pad2 om"
    using arg_cong [OF assms(3), of "drop 1"] by (simp add: zone_text_def add.commute)
  have d4: "drop (at + 4) v = pad2 om"
    using arg_cong [OF assms(3), of "drop 4"] by (simp add: zone_text_def add.commute pad2_def)
  have r1: "readFixedDigits v (at + 1) 2 = Some (int oh)"
    using readFixedDigits_prefix [OF d1] assms(1) len by (simp add: pad_digits pad_value)
  have r4: "readFixedDigits v (at + 4) 2 = Some (int om)"
    using readFixedDigits_prefix [of "at + 4" v "pad2 om" "[]"] d4 assms(2) len
    by (simp add: pad_digits pad_value)
  have n0: "v ! at = (if east then CHR ''+'' else CHR ''-'')" using nth [of 0] by (simp add: zone_text_def)
  have n3: "v ! (at + 3) = CHR '':''" using nth [of 3] by (simp add: zone_text_def pad2_def)
  show ?thesis
    using len r1 r4 n0 n3 by (auto simp: readZone_def Let_def numeral_eq_Suc)
qed

text \<open>
  Every printed RFC 3339 timestamp is read as the instant it names. For a valid date of
  the years 0 to 9999, a time of day and a zone offset of at most 23:59 in either
  direction, the reader returns the day number times 86400 plus the time of day, less the
  offset; a date or time that does not exist and an offset out of range are refused.
\<close>

lemma parseRfc3339_text:
  assumes "y < 10000" "m < 100" "d < 100" "h < 100" "mi < 100" "s < 100" "oh < 100" "om < 100"
  shows "parseRfc3339 (rfc3339_text y m d h mi s (zone_text east oh om)) =
     (if \<not> (valid_date (int y) (int m) (int d) \<and> h < 24 \<and> mi < 60 \<and> s < 60)
      then Inl ''the timestamp names a moment that does not exist''
      else if oh > 23 \<or> om > 59 then Inl ''the timezone offset is out of range''
      else Inr (daysFromCivil (int y) (int m) (int d) * 86400 + int h * 3600 + int mi * 60 + int s
                - (if east then 1 else -1) * (int oh * 3600 + int om * 60)))"
proof -
  let ?z = "zone_text east oh om" and ?t = "rfc3339_text y m d h mi s (zone_text east oh om)"
  have z: "?z \<noteq> []" "hd ?z \<noteq> CHR ''.''" by (simp_all add: zone_text_def)
  have "?t ! 19 = hd ?z" using z(1) by (simp add: text_cons nth_append hd_conv_nth)
  then have f: "skipFraction ?t = Some 19" using z(2) by (simp add: skipFraction_def)
  have e: "momentExists (int y) (int m) (int d) (int h) (int mi) (int s) \<longleftrightarrow>
      valid_date (int y) (int m) (int d) \<and> h < 24 \<and> mi < 60 \<and> s < 60"
    by (auto simp: momentExists_def valid_date_def)
  have "readZone ?t 19 = (if oh > 23 \<or> om > 59 then Inl ''the timezone offset is out of range''
      else Inr (length ?t, (if east then 1 else -1) * (int oh * 3600 + int om * 60)))"
    using assms(7,8) by (intro readZone_text) (simp_all add: text_drop text_length)
  then show ?thesis
    by (simp add: parseRfc3339_def civilFields_text [OF assms(1-6) z(1)] f e del: One_nat_def)
qed

lemma validateTimeExpire_window:
  "validateTimeExpire now t channel = None \<longleftrightarrow>
     (\<exists>e. parseRfc3339 t = Inr e \<and> now < e \<and> \<not> (channel = ''wechat'' \<and> now + 604800 < e))"
  by (auto simp: validateTimeExpire_def split: sum.splits)

end
