(* ===== verification/Pay_Json.thy ===== *)
theory Pay_Json
  imports Pay_Prelude "HOL-Library.List_Lexorder" "HOL-Library.Char_ord"
begin

text \<open>
  \<open>Json::Value\<close> as far as the sources use it, and the helpers of \<open>utils/PayUtils.cc\<close> on
  request fields (\<open>getRequiredString\<close>, \<open>validateWechatOrderFields\<close>).

  An object is a list of members sorted by key, as jsoncpp keeps it in a \<open>std::map\<close>. A
  real number is represented by what the program can observe of it: its truncated value,
  whether it is integral, and its text. An accessor that throws \<open>Json::LogicError\<close> on the value's type returns
  \<open>None\<close>. The JSON writer and reader themselves are not part of the repository: the
  definitions that serialise take them as parameters.
\<close>

unbundle bit_operations_syntax

datatype json =
    JNull
  | JBool bool
  | JInt int
  | JReal int bool string
  | JString string
  | JArray "json list"
  | JObject "(string \<times> json) list"

section \<open>Accessors\<close>

fun isNull :: "json \<Rightarrow> bool" where
  "isNull JNull = True"
| "isNull _ = False"

fun isString :: "json \<Rightarrow> bool" where
  "isString (JString s) = True"
| "isString _ = False"

fun isNumeric :: "json \<Rightarrow> bool" where
  "isNumeric (JInt i) = True"
| "isNumeric (JReal i b t) = True"
| "isNumeric _ = False"

fun isArray :: "json \<Rightarrow> bool" where
  "isArray (JArray xs) = True"
| "isArray _ = False"

fun isObject :: "json \<Rightarrow> bool" where
  "isObject (JObject kvs) = True"
| "isObject _ = False"

text \<open>\<open>isMember\<close> and \<open>get(key, default)\<close>; both throw on a value that is not null or an object.\<close>

fun isMember :: "json \<Rightarrow> string \<Rightarrow> bool option" where
  "isMember JNull k = Some False"
| "isMember (JObject kvs) k = Some (map_of kvs k \<noteq> None)"
| "isMember _ k = None"

fun jget :: "json \<Rightarrow> string \<Rightarrow> json \<Rightarrow> json option" where
  "jget JNull k d = Some d"
| "jget (JObject kvs) k d = Some (case map_of kvs k of None \<Rightarrow> d | Some v \<Rightarrow> v)"
| "jget _ k d = None"

fun asString :: "json \<Rightarrow> string option" where
  "asString JNull = Some []"
| "asString (JBool b) = Some (if b then ''true'' else ''false'')"
| "asString (JInt i) = Some (show_int i)"
| "asString (JReal i b t) = Some t"
| "asString (JString s) = Some s"
| "asString (JArray xs) = None"
| "asString (JObject kvs) = None"

fun asInt64 :: "json \<Rightarrow> int option" where
  "asInt64 JNull = Some 0"
| "asInt64 (JBool b) = Some (if b then 1 else 0)"
| "asInt64 (JInt i) = (if is_int64 i then Some i else None)"
| "asInt64 (JReal i b t) = (if is_int64 i then Some i else None)"
| "asInt64 _ = None"

fun isInt64 :: "json \<Rightarrow> bool" where
  "isInt64 (JInt i) = is_int64 i"
| "isInt64 (JReal i b t) = (b \<and> is_int64 i)"
| "isInt64 _ = False"

text \<open>\<open>asInt\<close> (32 bits) and \<open>asBool\<close>.\<close>

definition is_int32 :: "int \<Rightarrow> bool" where
  "is_int32 i \<longleftrightarrow> - 2147483648 \<le> i \<and> i \<le> 2147483647"

fun asInt :: "json \<Rightarrow> int option" where
  "asInt JNull = Some 0"
| "asInt (JBool b) = Some (if b then 1 else 0)"
| "asInt (JInt i) = (if is_int32 i then Some i else None)"
| "asInt (JReal i b t) =
     (if is_int32 i \<and> (b \<or> - 2147483648 < i \<and> i < 2147483647) then Some i else None)"
| "asInt _ = None"

fun asBool :: "json \<Rightarrow> bool option" where
  "asBool JNull = Some False"
| "asBool (JBool b) = Some b"
| "asBool (JInt i) = Some (i \<noteq> 0)"
| "asBool (JReal i b t) = Some (i \<noteq> 0 \<or> \<not> b)"
| "asBool _ = None"

text \<open>\<open>value.get(key, "default").asString()\<close>.\<close>

definition jstr :: "json \<Rightarrow> string \<Rightarrow> string \<Rightarrow> string option" where
  "jstr j k d = Option.bind (jget j k (JString d)) asString"

text \<open>
  \<open>value[key] = v\<close> on a null or object value (the sources assign to no other kind): the
  member is replaced or inserted in key order.
\<close>

fun members_set :: "string \<Rightarrow> 'v \<Rightarrow> (string \<times> 'v) list \<Rightarrow> (string \<times> 'v) list" where
  "members_set k v [] = [(k, v)]"
| "members_set k v ((k', v') # kvs) =
     (if k = k' then (k, v) # kvs
      else if k < k' then (k, v) # (k', v') # kvs
      else (k', v') # members_set k v kvs)"

fun jset :: "string \<Rightarrow> json \<Rightarrow> json \<Rightarrow> json" where
  "jset k v (JObject kvs) = JObject (members_set k v kvs)"
| "jset k v _ = JObject [(k, v)]"

text \<open>An object built by assignments in the given order.\<close>

definition jobject :: "(string \<times> json) list \<Rightarrow> json" where
  "jobject kvs = fold (\<lambda>(k, v). jset k v) kvs JNull"

text \<open>A member that is set only for a text that is not empty.\<close>

definition jset_text :: "string \<Rightarrow> string \<Rightarrow> json \<Rightarrow> json" where
  "jset_text k s j = (if s \<noteq> [] then jset k (JString s) j else j)"

lemma map_of_members_set [simp]: "map_of (members_set k v kvs) = (map_of kvs)(k \<mapsto> v)"
  by (induction kvs) (auto simp: fun_eq_iff)

lemma jget_jset [simp]:
  "jget (jset k v JNull) k' d = Some (if k' = k then v else d)"
  "jget (jset k v (JObject kvs)) k' d = (if k' = k then Some v else jget (JObject kvs) k' d)"
  by auto

lemma isMember_jset [simp]:
  "isMember (jset k v (JObject kvs)) k' = Some (k' = k \<or> map_of kvs k' \<noteq> None)"
  by auto

text \<open>A value whose members can be looked up.\<close>

fun readable :: "json \<Rightarrow> bool" where
  "readable JNull = True"
| "readable (JObject kvs) = True"
| "readable _ = False"

lemma readable_iff: "readable j \<longleftrightarrow> isNull j \<or> isObject j"
  by (cases j) simp_all

lemma member_throws_iff: "isMember j k = None \<longleftrightarrow> \<not> readable j" "jget j k d = None \<longleftrightarrow> \<not> readable j"
  by (cases j; simp)+

lemma members_set_last:
  "\<forall>k' \<in> fst ` set kvs. k' < k \<Longrightarrow> members_set k v kvs = kvs @ [(k, v)]"
  by (induction kvs) (auto dest: less_asym)

lemma fst_members_set: "fst ` set (members_set k v kvs) = insert k (fst ` set kvs)"
proof (induction kvs)
  case (Cons p kvs)
  then show ?case by (cases p) (simp add: insert_commute)
qed simp

lemma sorted_members_set:
  "sorted_wrt (<) (map fst kvs) \<Longrightarrow> sorted_wrt (<) (map fst (members_set k v kvs))"
proof (induction kvs)
  case (Cons p kvs)
  obtain k' v' where p: "p = (k', v')" by fastforce
  with Cons show ?case by (cases "k' = k") (auto simp: fst_members_set p)
qed simp

text \<open>Members in strict key order: what assignments keep.\<close>

definition keys_sorted :: "(string \<times> 'v) list \<Rightarrow> bool" where
  "keys_sorted kvs \<longleftrightarrow> sorted_wrt (<) (map fst kvs)"

lemma keys_sorted_set: "keys_sorted kvs \<Longrightarrow> keys_sorted (members_set k v kvs)"
  by (simp add: keys_sorted_def sorted_members_set)

lemma jobject_sorted:
  assumes "keys_sorted kvs" "kvs \<noteq> []"
  shows "jobject kvs = JObject kvs"
proof -
  have "fold (\<lambda>(k, v). jset k v) qs (JObject ps) = JObject (ps @ qs)" if "keys_sorted (ps @ qs)" for ps qs
    using that
  proof (induction qs arbitrary: ps)
    case (Cons q qs)
    obtain k v where q: "q = (k, v)" by fastforce
    have "members_set k v ps = ps @ [(k, v)]"
      using Cons.prems by (intro members_set_last) (auto simp: keys_sorted_def sorted_wrt_append q)
    with Cons q show ?case by simp
  qed simp
  moreover obtain k v rest where "kvs = (k, v) # rest" using assms(2) by (metis neq_Nil_conv surj_pair)
  ultimately show ?thesis using assms(1) by (simp add: jobject_def)
qed

section \<open>Request fields\<close>

text \<open>
  \<open>getRequiredString\<close>: the outer \<open>None\<close> is an exception of the accessor, the inner
  \<open>None\<close> is \<open>return false\<close>.
\<close>

definition getRequiredString :: "json \<Rightarrow> string \<Rightarrow> string option option" where
  "getRequiredString json key =
     (case isMember json key of
        None \<Rightarrow> None
      | Some False \<Rightarrow> Some None
      | Some True \<Rightarrow>
          (case jget json key JNull of
             None \<Rightarrow> None
           | Some v \<Rightarrow>
               if isString v \<or> isNumeric v
               then (case asString v of
                       None \<Rightarrow> None
                     | Some text \<Rightarrow> Some (if text = [] then None else Some text))
               else Some None))"

text \<open>Bytes that are not UTF-8 continuation bytes (\<open>(c & 0xC0) != 0x80\<close>).\<close>

definition utf8CodePointLength :: "string \<Rightarrow> nat" where
  "utf8CodePointLength s = length (filter (\<lambda>c. (of_nat (byte c) :: 8 word) AND 0xC0 \<noteq> 0x80) s)"

definition wechatOrderNoChar :: "char \<Rightarrow> bool" where
  "wechatOrderNoChar c \<longleftrightarrow>
     is_digit c \<or> is_lower c \<or> is_upper c \<or> c = CHR ''_'' \<or> c = CHR ''-'' \<or> c = CHR ''|'' \<or>
     c = CHR ''*''"

definition validateWechatOrderFields :: "string \<Rightarrow> string \<Rightarrow> string \<Rightarrow> string option" where
  "validateWechatOrderFields outTradeNo description attach =
     (if length outTradeNo < 6 \<or> 32 < length outTradeNo
      then Some ''order_no must be 6-32 characters for WeChat Pay''
      else if \<not> list_all wechatOrderNoChar outTradeNo
      then Some ''order_no may only contain digits, letters, and _ - | * for WeChat Pay''
      else if description = [] then Some ''description is required for WeChat Pay''
      else if 127 < utf8CodePointLength description
      then Some ''description exceeds 127 characters''
      else if attach \<noteq> [] \<and> 128 < utf8CodePointLength attach
      then Some ''attach exceeds 128 characters''
      else None)"

end
