(* ===== verification/Pay_Registry.thy ===== *)
theory Pay_Registry
  imports Pay_Json
begin

text \<open>
  The concurrency helper \<open>OnceCallback\<close> (\<open>utils/OnceCallback.h\<close>), the channel registry
  (\<open>ChannelRegistry.h\<close>, \<open>ChannelRegistry.cc\<close>) and the error category that carries the
  text of an error code (\<open>PayErrorCategory.h\<close>).
\<close>

section \<open>OnceCallback\<close>

text \<open>
  All copies of an \<open>OnceCallback\<close> share one \<open>State\<close> behind a mutex. A call on any copy,
  from any thread, goes through the program points below: about to call, holding the moved
  callback after the locked section, returned. The mutex makes the locked section one
  step; the callback itself runs outside it, so other calls interleave there.
\<close>

datatype 'a call_pc = Calling 'a | Took 'a | Returned bool

record 'a once_state =
  once_has_state :: bool
  once_slot :: bool
  once_calls :: "'a call_pc list"
  once_log :: "'a list"

definition makeOnceCallback :: "'a once_state" where
  "makeOnceCallback = \<lparr>once_has_state = True, once_slot = True, once_calls = [], once_log = []\<rparr>"

text \<open>\<open>OnceCallback()\<close>: no shared state.\<close>

definition defaultOnceCallback :: "'a once_state" where
  "defaultOnceCallback = \<lparr>once_has_state = False, once_slot = False, once_calls = [], once_log = []\<rparr>"

definition once_valid :: "'a once_state \<Rightarrow> bool" where
  "once_valid s \<longleftrightarrow> once_has_state s \<and> once_slot s"

inductive once_step :: "'a once_state \<Rightarrow> 'a once_state \<Rightarrow> bool" where
  enter: "once_step s (s\<lparr>once_calls := once_calls s @ [Calling a]\<rparr>)"
| no_state: "i < length (once_calls s) \<Longrightarrow> once_calls s ! i = Calling a \<Longrightarrow> \<not> once_has_state s \<Longrightarrow>
    once_step s (s\<lparr>once_calls := (once_calls s)[i := Returned False]\<rparr>)"
| empty: "i < length (once_calls s) \<Longrightarrow> once_calls s ! i = Calling a \<Longrightarrow> once_has_state s \<Longrightarrow>
    \<not> once_slot s \<Longrightarrow> once_step s (s\<lparr>once_calls := (once_calls s)[i := Returned False]\<rparr>)"
| take_slot: "i < length (once_calls s) \<Longrightarrow> once_calls s ! i = Calling a \<Longrightarrow> once_has_state s \<Longrightarrow>
    once_slot s \<Longrightarrow>
    once_step s (s\<lparr>once_slot := False, once_calls := (once_calls s)[i := Took a]\<rparr>)"
| invoke: "i < length (once_calls s) \<Longrightarrow> once_calls s ! i = Took a \<Longrightarrow>
    once_step s (s\<lparr>once_calls := (once_calls s)[i := Returned True], once_log := once_log s @ [a]\<rparr>)"

inductive_cases once_stepE: "once_step s s'"

fun took :: "'a call_pc \<Rightarrow> bool" where
  "took (Took a) = True"
| "took _ = False"

fun calling :: "'a call_pc \<Rightarrow> bool" where
  "calling (Calling a) = True"
| "calling _ = False"

definition number_of :: "('b \<Rightarrow> bool) \<Rightarrow> 'b list \<Rightarrow> nat" where
  "number_of P xs = length (filter P xs)"

lemma number_of_append [simp]: "number_of P (xs @ ys) = number_of P xs + number_of P ys"
  by (simp add: number_of_def)

lemma number_of_simps [simp]:
  "number_of P [] = 0" "number_of P (x # xs) = (if P x then 1 else 0) + number_of P xs"
  by (simp_all add: number_of_def)

lemma number_of_update:
  "i < length xs \<Longrightarrow>
     number_of P (xs[i := y]) + (if P (xs ! i) then 1 else 0) = number_of P xs + (if P y then 1 else 0)"
proof (induction xs arbitrary: i)
  case (Cons x xs)
  then show ?case by (cases i) (fastforce, fastforce)
qed simp

text \<open>The callback is in exactly one place: in the slot, taken by one call, or already run.\<close>

definition once_inv :: "'a once_state \<Rightarrow> bool" where
  "once_inv s \<longleftrightarrow>
     once_has_state s \<and>
     (if once_slot s then 1 else 0) + number_of took (once_calls s) + length (once_log s) = 1 \<and>
     number_of (\<lambda>c. c = Returned True) (once_calls s) = length (once_log s) \<and>
     (once_slot s \<longrightarrow> list_all calling (once_calls s))"

lemma list_all_update: "list_all P xs \<Longrightarrow> P y \<Longrightarrow> list_all P (xs[i := y])"
  by (simp add: list_all_iff) (metis insertE set_update_subset_insert subsetD)

lemma once_inv_step: "once_step s s' \<Longrightarrow> once_inv s \<Longrightarrow> once_inv s'"
proof (induction rule: once_step.induct)
  case (enter s a)
  then show ?case by (simp add: once_inv_def)
next
  case (no_state i s a)
  then show ?case by (simp add: once_inv_def)
next
  case (empty i s a)
  then show ?case
    using number_of_update [of i "once_calls s" took "Returned False"]
      number_of_update [of i "once_calls s" "\<lambda>c. c = Returned True" "Returned False"]
    by (simp add: once_inv_def)
next
  case (take_slot i s a)
  then show ?case
    using number_of_update [of i "once_calls s" took "Took a"]
      number_of_update [of i "once_calls s" "\<lambda>c. c = Returned True" "Took a"]
    by (simp add: once_inv_def)
next
  case (invoke i s a)
  then have n: "Suc (number_of took ((once_calls s)[i := Returned True])) = number_of took (once_calls s)"
    "number_of (\<lambda>c. c = Returned True) ((once_calls s)[i := Returned True]) =
       Suc (number_of (\<lambda>c. c = Returned True) (once_calls s))"
    using number_of_update [of i "once_calls s" took "Returned True"]
      number_of_update [of i "once_calls s" "\<lambda>c. c = Returned True" "Returned True"] by simp_all
  then have "\<not> once_slot s" "length (once_log s) = 0" "number_of took (once_calls s) = 1"
    using invoke(3) by (auto simp: once_inv_def simp del: length_0_conv split: if_splits)
  with n invoke(3) show ?case by (simp add: once_inv_def)
qed

lemma once_inv_reach: "once_step\<^sup>*\<^sup>* makeOnceCallback s \<Longrightarrow> once_inv s"
proof (induction rule: rtranclp_induct)
  case base
  then show ?case by (simp add: once_inv_def makeOnceCallback_def)
next
  case (step s s')
  then show ?case by (blast intro: once_inv_step)
qed

definition finished :: "'a call_pc \<Rightarrow> bool" where
  "finished c \<longleftrightarrow> c = Returned True \<or> c = Returned False"

text \<open>
  C14: the wrapped callback runs at most once, and not zero times. In every interleaving
  of calls on the copies of an \<open>OnceCallback\<close>, at most one call runs the callback and at
  most one returns \<open>true\<close>; when every call has returned and there was at least one, the
  callback has run exactly once and exactly one call returned \<open>true\<close>.
\<close>

theorem once_exactly_once:
  assumes "once_step\<^sup>*\<^sup>* makeOnceCallback s"
  shows "length (once_log s) \<le> 1 \<and>
     number_of (\<lambda>c. c = Returned True) (once_calls s) = length (once_log s) \<and>
     (once_calls s \<noteq> [] \<and> list_all finished (once_calls s) \<longrightarrow> length (once_log s) = 1)"
proof -
  have inv: "once_inv s" using once_inv_reach [OF assms] .
  have "length (once_log s) = 1" if f: "once_calls s \<noteq> []" "list_all finished (once_calls s)"
  proof -
    have "number_of took (once_calls s) = 0"
      using f(2) by (auto simp: number_of_def list_all_iff finished_def filter_empty_conv)
    moreover have "\<not> once_slot s"
    proof
      assume "once_slot s"
      with inv f show False by (cases "once_calls s") (auto simp: once_inv_def finished_def)
    qed
    ultimately show ?thesis using inv by (simp add: once_inv_def)
  qed
  with inv show ?thesis by (auto simp: once_inv_def split: if_splits)
qed

theorem once_exactly_once_witness:
  "let s = \<lparr>once_has_state = True, once_slot = False, once_calls = [Returned False, Returned True],
            once_log = [8 :: int]\<rparr>
   in once_step\<^sup>*\<^sup>* makeOnceCallback s \<and> length (once_log s) = 1"
proof -
  let ?s1 = "makeOnceCallback\<lparr>once_calls := [Calling 7]\<rparr> :: int once_state"
  let ?s2 = "makeOnceCallback\<lparr>once_calls := [Calling 7, Calling 8]\<rparr> :: int once_state"
  let ?s3 = "?s2\<lparr>once_slot := False, once_calls := [Calling 7, Took 8]\<rparr>"
  let ?s4 = "?s3\<lparr>once_calls := [Returned False, Took 8]\<rparr>"
  let ?s5 = "?s4\<lparr>once_calls := [Returned False, Returned True], once_log := [8]\<rparr>"
  have s1: "once_step makeOnceCallback ?s1"
    using enter [of makeOnceCallback 7] by (simp add: makeOnceCallback_def)
  have s2: "once_step ?s1 ?s2" using enter [of ?s1 8] by (simp add: makeOnceCallback_def)
  have s3: "once_step ?s2 ?s3" using take_slot [of 1 ?s2 8] by (simp add: makeOnceCallback_def)
  have s4: "once_step ?s3 ?s4" using empty [of 0 ?s3 7] by (simp add: makeOnceCallback_def)
  have s5: "once_step ?s4 ?s5" using invoke [of 1 ?s4 8] by (simp add: makeOnceCallback_def)
  note into = converse_rtranclp_into_rtranclp [where r = once_step]
  have r: "once_step\<^sup>*\<^sup>* makeOnceCallback ?s5"
    by (rule into [OF s1 into [OF s2 into [OF s3 into [OF s4 r_into_rtranclp [where r = once_step, OF s5]]]]])
  from once_exactly_once [OF r] r show ?thesis by (simp add: makeOnceCallback_def finished_def Let_def)
qed

section \<open>ChannelRegistry\<close>

text \<open>
  \<open>std::map<std::string, PaymentChannelPtr>\<close> as members sorted by name; a null pointer
  is \<open>None\<close>. The channel objects are a type parameter.
\<close>

record 'c registry =
  channels :: "(string \<times> 'c) list"
  frozen :: bool

definition new_registry :: "'c registry" where
  "new_registry = \<lparr>channels = [], frozen = False\<rparr>"

definition registry_add :: "string \<Rightarrow> 'c option \<Rightarrow> 'c registry \<Rightarrow> 'c registry" where
  "registry_add nm channel r =
     (if frozen r then r
      else case channel of
             None \<Rightarrow> r
           | Some c \<Rightarrow> r\<lparr>channels := members_set nm c (channels r)\<rparr>)"

definition freeze :: "'c registry \<Rightarrow> 'c registry" where
  "freeze r = r\<lparr>frozen := True\<rparr>"

definition registry_find :: "string \<Rightarrow> 'c registry \<Rightarrow> 'c option" where
  "registry_find nm r = map_of (channels r) nm"

definition registry_names :: "'c registry \<Rightarrow> string list" where
  "registry_names r = map fst (channels r)"

definition registry_size :: "'c registry \<Rightarrow> nat" where
  "registry_size r = length (channels r)"

text \<open>The channels whose \<open>onStart\<close> (\<open>onStop\<close>) is called, in this order.\<close>

definition startAll :: "'c registry \<Rightarrow> 'c list" where
  "startAll r = map snd (channels r)"

definition stopAll :: "'c registry \<Rightarrow> 'c list" where
  "stopAll r = map snd (channels r)"

datatype 'c registry_op = Add string "'c option" | Freeze

fun registry_step :: "'c registry_op \<Rightarrow> 'c registry \<Rightarrow> 'c registry" where
  "registry_step (Add nm c) r = registry_add nm c r"
| "registry_step Freeze r = freeze r"

text \<open>The contract: a sorted name index, last registration wins, nothing changes once frozen.\<close>

locale channel_index =
  fixes inv :: "'r \<Rightarrow> bool"
    and closed :: "'r \<Rightarrow> bool"
    and look :: "string \<Rightarrow> 'r \<Rightarrow> 'c option"
    and step :: "'c registry_op \<Rightarrow> 'r \<Rightarrow> 'r"
  assumes inv_step: "inv r \<Longrightarrow> inv (step op r)"
    and closed_step: "closed r \<Longrightarrow> step op r = r"
    and freeze_closes: "closed (step Freeze r)"
    and freeze_look: "look n (step Freeze r) = look n r"
    and add_look: "\<not> closed r \<Longrightarrow> look n (step (Add m (Some c)) r) = (if n = m then Some c else look n r)"
    and add_open: "closed (step (Add m d) r) = closed r"
    and add_null: "step (Add m None) r = r"
begin

lemma closed_run: "closed r \<Longrightarrow> fold step ops r = r"
  by (induction ops) (auto simp: closed_step)

lemma frozen_look: "look n (fold step ops (step Freeze r)) = look n r"
  by (simp add: closed_run freeze_closes freeze_look)

lemma open_run: "\<forall>op \<in> set ops. op \<noteq> Freeze \<Longrightarrow> \<not> closed r \<Longrightarrow> \<not> closed (fold step ops r)"
proof (induction ops arbitrary: r)
  case (Cons op ops)
  then show ?case by (cases op) (auto simp: add_open)
qed simp

lemma later_look:
  assumes "look n r = Some c" "\<not> closed r" "\<forall>c. Add n (Some c) \<notin> set later"
    "\<forall>op \<in> set later. op \<noteq> Freeze"
  shows "look n (fold step later r) = Some c"
  using assms
proof (induction later arbitrary: r)
  case (Cons op later)
  then obtain m d where op: "op = Add m d" by (cases op) auto
  have "look n (step op r) = Some c"
    using Cons.prems op by (cases d) (auto simp: add_null add_look)
  moreover have "\<not> closed (step op r)" using Cons.prems(2) op by (simp add: add_open)
  ultimately show ?case using Cons.IH [of "step op r"] Cons.prems(3,4) by simp
qed simp

text \<open>Before the freeze, the last non-null registration of a name is the one found.\<close>

lemma last_add_wins:
  assumes "\<not> closed r" "\<forall>op \<in> set ops. op \<noteq> Freeze" "\<forall>c. Add n (Some c) \<notin> set later"
    "\<forall>op \<in> set later. op \<noteq> Freeze"
  shows "look n (fold step (ops @ Add n (Some c) # later) r) = Some c"
proof -
  have o: "\<not> closed (fold step ops r)" using open_run assms(1,2) by blast
  then have "look n (step (Add n (Some c)) (fold step ops r)) = Some c"
    "\<not> closed (step (Add n (Some c)) (fold step ops r))" by (simp_all add: add_look add_open)
  with later_look [OF _ _ assms(3,4)] show ?thesis by simp
qed

end

definition registry_inv :: "'c registry \<Rightarrow> bool" where
  "registry_inv r \<longleftrightarrow> sorted_wrt (<) (registry_names r)"

interpretation registry: channel_index registry_inv frozen registry_find registry_step
proof (unfold_locales, goal_cases)
  case (1 r op)
  then show ?case
    by (cases op) (auto simp: registry_inv_def registry_names_def registry_add_def freeze_def
        sorted_members_set split: option.splits)
next
  case (2 r op)
  then show ?case by (cases op) (auto simp: registry_add_def freeze_def)
qed (auto simp: registry_add_def registry_find_def freeze_def split: option.splits)

text \<open>
  The registry is read-only once frozen, and total before. After \<open>freeze\<close> no
  sequence of registrations changes any lookup, the names or the order of \<open>startAll\<close>;
  before it, the last non-null registration of a name is the one that \<open>find\<close> returns, and
  that is what every later lookup finds.
\<close>

lemma registry_last_add_then_frozen:
  assumes "\<forall>op \<in> set ops. op \<noteq> Freeze" "\<forall>op \<in> set later. op \<noteq> Freeze"
    and "\<forall>c. Add n (Some c) \<notin> set later"
  shows "registry_find n (fold registry_step (ops @ Add n (Some c) # later @ Freeze # after) new_registry) = Some c \<and>
     fold registry_step (ops @ Add n (Some c) # later @ Freeze # after) new_registry =
     fold registry_step (ops @ Add n (Some c) # later @ [Freeze]) new_registry"
proof -
  let ?r = "fold registry_step (ops @ Add n (Some c) # later) new_registry"
  have "registry_find n ?r = Some c"
    using assms by (intro registry.last_add_wins) (auto simp: new_registry_def)
  moreover have "registry_find n (fold registry_step after (registry_step Freeze ?r)) = registry_find n ?r"
    by (rule registry.frozen_look)
  moreover have "fold registry_step after (registry_step Freeze ?r) = registry_step Freeze ?r"
    by (rule registry.closed_run) (simp add: freeze_def)
  ultimately show ?thesis by simp
qed

section \<open>PayErrorCategory\<close>

text \<open>
  One process-wide table from codes to texts; an \<open>error_code\<close> carries only the number.
  Its text is looked up when it is asked for.
\<close>

definition setMessage :: "int \<Rightarrow> string \<Rightarrow> (int \<rightharpoonup> string) \<Rightarrow> (int \<rightharpoonup> string)" where
  "setMessage code msg messages = messages(code \<mapsto> msg)"

definition category_message :: "(int \<rightharpoonup> string) \<Rightarrow> int \<Rightarrow> string" where
  "category_message messages ev =
     (case messages ev of Some m \<Rightarrow> m | None \<Rightarrow> ''pay error '' @ show_int ev)"

definition makePayError :: "int \<Rightarrow> string \<Rightarrow> (int \<rightharpoonup> string) \<Rightarrow> int \<times> (int \<rightharpoonup> string)" where
  "makePayError code msg messages = (code, setMessage code msg messages)"

text \<open>
  An error code made by one request shows the text of whoever made that code last.
  After \<open>makePayError c m\<close> and any later errors, the text of the code is still \<open>m\<close> only
  when no later error has the same code; otherwise it is the text of the last such error,
  whoever made it.
\<close>

lemma error_text_is_last_writers:
  "category_message (fold (\<lambda>(c, m) t. snd (makePayError c m t)) later (snd (makePayError c m t))) c =
     (case map_of (rev later) c of None \<Rightarrow> m | Some m' \<Rightarrow> m')"
proof (induction later rule: rev_induct)
  case Nil
  then show ?case by (simp add: category_message_def makePayError_def setMessage_def)
next
  case (snoc x later)
  then show ?case
    by (cases x) (auto simp: category_message_def makePayError_def setMessage_def)
qed

end
