(* ===== verification/Pay_Auth.thy ===== *)
theory Pay_Auth
  imports Pay_Json
begin

text \<open>
  The API-key check in front of the payment routes (\<open>handlers/AuthCheck.cc\<close>) and its
  counters (\<open>handlers/PayAuthMetrics.cc\<close>). The application's custom configuration, the two
  environment variables and the request are arguments; OpenSSL's \<open>CRYPTO_memcmp\<close> is the
  parameter \<open>memcmp\<close>. \<open>None\<close> is an exception thrown by a JSON accessor on a
  configuration of the wrong shape; the response \<open>None\<close> is \<open>nullptr\<close>, the request passes.
\<close>

section \<open>Keys\<close>

definition constantTimeEquals :: "(string \<Rightarrow> string \<Rightarrow> nat \<Rightarrow> int) \<Rightarrow> string \<Rightarrow> string \<Rightarrow> bool" where
  "constantTimeEquals memcmp a b =
     (if length a \<noteq> length b then False else memcmp a b (length a) = 0)"

definition containsKeyConstantTime ::
  "(string \<Rightarrow> string \<Rightarrow> nat \<Rightarrow> int) \<Rightarrow> string list \<Rightarrow> string \<Rightarrow> bool" where
  "containsKeyConstantTime memcmp keys key =
     fold (\<lambda>allowed found. if constantTimeEquals memcmp allowed key then True else found) keys False"

definition blank :: "char \<Rightarrow> bool" where
  "blank c \<longleftrightarrow> c = CHR '' '' \<or> c = CHR 0x09"

definition trim :: "string \<Rightarrow> string" where
  "trim v =
     (case index_of (\<lambda>c. \<not> blank c) v of
        None \<Rightarrow> []
      | Some start \<Rightarrow>
          (case last_index_of (\<lambda>c. \<not> blank c) v of
             None \<Rightarrow> []
           | Some stop \<Rightarrow> substr v start (stop - start + 1)))"

text \<open>Successive \<open>std::getline(ss, token, ',')\<close>: no token after a trailing separator.\<close>

fun getlines :: "string \<Rightarrow> string \<Rightarrow> string list" where
  "getlines token [] = (if token = [] then [] else [token])"
| "getlines token (c # cs) =
     (if c = CHR '','' then token # getlines [] cs else getlines (token @ [c]) cs)"

definition splitKeys :: "string \<Rightarrow> string list" where
  "splitKeys v = filter (\<lambda>k. k \<noteq> []) (map trim (getlines [] v))"

record auth_request =
  rq_options :: bool
  rq_path :: string
  rq_x_api_key :: string
  rq_authorization :: string

definition extractApiKey :: "auth_request \<Rightarrow> string" where
  "extractApiKey rq =
     (let key = rq_x_api_key rq; auth = rq_authorization rq; bearer = ''Bearer ''
      in if key \<noteq> [] then key
         else if starts_with bearer auth \<and> length auth > length bearer
         then drop (length bearer) auth
         else auth)"

definition resolveScope :: "string \<Rightarrow> string \<Rightarrow> string" where
  "resolveScope path basePath =
     (if \<not> starts_with basePath path then []
      else
        let rel = drop (length basePath) path
        in if starts_with ''/refund/query'' rel then ''refund_query''
           else if starts_with ''/refund'' rel then ''refund''
           else if starts_with ''/query'' rel then ''order_query''
           else if starts_with ''/reconcile'' rel then ''reconcile''
           else [])"

section \<open>Configuration\<close>

text \<open>\<open>customConfig["pay"][name]\<close> after the two \<open>isMember\<close> guards; \<open>Some None\<close>: a guard fails.\<close>

definition payMember :: "json \<Rightarrow> string \<Rightarrow> json option option" where
  "payMember cfg nm =
     (case isMember cfg ''pay'' of
        None \<Rightarrow> None
      | Some False \<Rightarrow> Some None
      | Some True \<Rightarrow>
          (case jget cfg ''pay'' JNull of
             None \<Rightarrow> None
           | Some pay \<Rightarrow>
               (case isMember pay nm of
                  None \<Rightarrow> None
                | Some False \<Rightarrow> Some None
                | Some True \<Rightarrow> map_option Some (jget pay nm JNull))))"

fun itemKeys :: "json list \<Rightarrow> string list option" where
  "itemKeys [] = Some []"
| "itemKeys (item # items) =
     (case asString item of
        None \<Rightarrow> None
      | Some key \<Rightarrow> map_option (\<lambda>ks. if key \<noteq> [] then key # ks else ks) (itemKeys items))"

definition configKeys :: "json \<Rightarrow> string list option" where
  "configKeys cfg =
     (case payMember cfg ''api_keys'' of
        None \<Rightarrow> None
      | Some (Some (JArray items)) \<Rightarrow> itemKeys items
      | Some _ \<Rightarrow> Some [])"

definition envKeys :: "string option \<Rightarrow> string option \<Rightarrow> string list" where
  "envKeys singleKey multiKeys =
     (case singleKey of None \<Rightarrow> [] | Some s \<Rightarrow> if trim s \<noteq> [] then [trim s] else []) @
     (case multiKeys of None \<Rightarrow> [] | Some s \<Rightarrow> splitKeys s)"

text \<open>The loop over a scope list, which stops at the first match.\<close>

fun listsScope :: "string \<Rightarrow> json list \<Rightarrow> bool option" where
  "listsScope scope [] = Some False"
| "listsScope scope (item # items) =
     (case asString item of
        None \<Rightarrow> None
      | Some s \<Rightarrow> if s = scope then Some True else listsScope scope items)"

definition scopesAllow :: "string \<Rightarrow> json \<Rightarrow> bool option" where
  "scopesAllow scope scopes =
     (case scopes of JArray items \<Rightarrow> listsScope scope items | _ \<Rightarrow> Some False)"

definition scopeAllowed :: "json \<Rightarrow> string \<Rightarrow> string \<Rightarrow> bool option" where
  "scopeAllowed cfg key scope =
     (if scope = [] then Some True
      else
        (case payMember cfg ''api_key_scopes'' of
           None \<Rightarrow> None
         | Some (Some (JObject scopeConfig)) \<Rightarrow>
             (case map_of scopeConfig key of
                Some scopes \<Rightarrow> scopesAllow scope scopes
              | None \<Rightarrow>
                  (case payMember cfg ''api_key_default_scopes'' of
                     None \<Rightarrow> None
                   | Some None \<Rightarrow> Some True
                   | Some (Some defaults) \<Rightarrow> scopesAllow scope defaults))
         | Some _ \<Rightarrow> Some True))"

section \<open>Counters and the check\<close>

record auth_metrics =
  missingKey :: "64 word"
  invalidKey :: "64 word"
  scopeDenied :: "64 word"
  notConfigured :: "64 word"

definition incMissingKey :: "auth_metrics \<Rightarrow> auth_metrics" where
  "incMissingKey mt = mt\<lparr>missingKey := missingKey mt + 1\<rparr>"

definition incInvalidKey :: "auth_metrics \<Rightarrow> auth_metrics" where
  "incInvalidKey mt = mt\<lparr>invalidKey := invalidKey mt + 1\<rparr>"

definition incScopeDenied :: "auth_metrics \<Rightarrow> auth_metrics" where
  "incScopeDenied mt = mt\<lparr>scopeDenied := scopeDenied mt + 1\<rparr>"

definition incNotConfigured :: "auth_metrics \<Rightarrow> auth_metrics" where
  "incNotConfigured mt = mt\<lparr>notConfigured := notConfigured mt + 1\<rparr>"

definition auth_snapshot :: "auth_metrics \<Rightarrow> json" where
  "auth_snapshot mt =
     jobject [(''missing_key'', JInt (uint (missingKey mt))), (''invalid_key'', JInt (uint (invalidKey mt))),
              (''scope_denied'', JInt (uint (scopeDenied mt))), (''not_configured'', JInt (uint (notConfigured mt)))]"

definition newline :: string where
  "newline = [CHR 0x0A]"

definition emit_counter :: "string \<Rightarrow> string \<Rightarrow> 64 word \<Rightarrow> string" where
  "emit_counter nm help val =
     ''# HELP '' @ nm @ '' '' @ help @ newline @ ''# TYPE '' @ nm @ '' counter'' @ newline @
     nm @ '' '' @ show_nat (unat val) @ newline"

definition toPrometheus :: "auth_metrics \<Rightarrow> string" where
  "toPrometheus mt =
     emit_counter ''pay_auth_missing_key_total'' ''Missing API key count'' (missingKey mt) @
     emit_counter ''pay_auth_invalid_key_total'' ''Invalid API key count'' (invalidKey mt) @
     emit_counter ''pay_auth_scope_denied_total'' ''Scope denied count'' (scopeDenied mt) @
     emit_counter ''pay_auth_not_configured_total'' ''Not configured count'' (notConfigured mt)"

record http_response =
  status_code :: nat
  body :: string

definition checkAuth ::
  "(string \<Rightarrow> string \<Rightarrow> nat \<Rightarrow> int) \<Rightarrow> json \<Rightarrow> string option \<Rightarrow> string option \<Rightarrow> string \<Rightarrow> auth_request
     \<Rightarrow> auth_metrics \<Rightarrow> (http_response option \<times> auth_metrics) option" where
  "checkAuth memcmp cfg singleKey multiKeys basePath rq mt =
     (if rq_options rq then Some (None, mt)
      else
        (case configKeys cfg of
           None \<Rightarrow> None
         | Some fromConfig \<Rightarrow>
             let allowedKeys = fromConfig @ envKeys singleKey multiKeys;
                 key = extractApiKey rq
             in if allowedKeys = [] then
                  Some (Some \<lparr>status_code = 503, body = ''api key not configured''\<rparr>, incNotConfigured mt)
                else if key = [] then
                  Some (Some \<lparr>status_code = 401, body = ''missing api key''\<rparr>, incMissingKey mt)
                else if \<not> containsKeyConstantTime memcmp allowedKeys key then
                  Some (Some \<lparr>status_code = 401, body = ''invalid api key''\<rparr>, incInvalidKey mt)
                else
                  (case scopeAllowed cfg key (resolveScope (rq_path rq) basePath) of
                     None \<Rightarrow> None
                   | Some True \<Rightarrow> Some (None, mt)
                   | Some False \<Rightarrow>
                       Some (Some \<lparr>status_code = 403, body = ''api key scope not allowed''\<rparr>, incScopeDenied mt))))"

section \<open>What the helpers compute\<close>

text \<open>What the check relies on from \<open>CRYPTO_memcmp\<close>: zero exactly on equal bytes.\<close>

definition memcmp_exact :: "(string \<Rightarrow> string \<Rightarrow> nat \<Rightarrow> int) \<Rightarrow> bool" where
  "memcmp_exact memcmp \<longleftrightarrow> (\<forall>a b n. memcmp a b n = 0 \<longleftrightarrow> take n a = take n b)"

lemma constantTimeEquals_iff: "memcmp_exact memcmp \<Longrightarrow> constantTimeEquals memcmp a b \<longleftrightarrow> a = b"
  by (auto simp: constantTimeEquals_def memcmp_exact_def)

lemma contains_iff:
  assumes "memcmp_exact memcmp"
  shows "containsKeyConstantTime memcmp keys key \<longleftrightarrow> key \<in> set keys"
proof -
  have "fold (\<lambda>allowed found. if constantTimeEquals memcmp allowed key then True else found) keys b
      \<longleftrightarrow> b \<or> key \<in> set keys" for b
    by (induction keys arbitrary: b) (auto simp: constantTimeEquals_iff [OF assms])
  then show ?thesis by (simp add: containsKeyConstantTime_def)
qed

lemma itemKeys_set: "itemKeys items = Some ks \<Longrightarrow> set ks = {k. Some k \<in> asString ` set items \<and> k \<noteq> []}"
  by (induction items arbitrary: ks) (auto split: option.splits if_splits)

text \<open>A value grants a scope when it is an array with an item whose text is the scope.\<close>

definition grants :: "json \<Rightarrow> string \<Rightarrow> bool" where
  "grants scopes s \<longleftrightarrow> (case scopes of JArray items \<Rightarrow> Some s \<in> asString ` set items | _ \<Rightarrow> False)"

lemma listsScope_True: "listsScope s items = Some True \<Longrightarrow> Some s \<in> asString ` set items"
  by (induction items) (auto split: option.splits if_splits intro: rev_image_eqI)

lemma listsScope_False: "listsScope s items = Some False \<Longrightarrow> Some s \<notin> asString ` set items"
  by (induction items) (auto split: option.splits if_splits)

lemma scopesAllow_grants: "scopesAllow s j = Some b \<Longrightarrow> grants j s \<longleftrightarrow> b"
  using listsScope_True listsScope_False
  by (cases b) (auto simp: scopesAllow_def grants_def split: json.splits)

text \<open>The scope rule: listed keys by their list, others by the defaults when there are any.\<close>

definition scope_rule :: "json \<Rightarrow> string \<Rightarrow> string \<Rightarrow> bool" where
  "scope_rule cfg key s \<longleftrightarrow>
     (\<forall>listed. payMember cfg ''api_key_scopes'' = Some (Some (JObject listed)) \<longrightarrow>
        (case map_of listed key of
           Some scopes \<Rightarrow> grants scopes s
         | None \<Rightarrow> \<forall>d. payMember cfg ''api_key_default_scopes'' = Some (Some d) \<longrightarrow> grants d s))"

lemma scopeAllowed_rule:
  "scopeAllowed cfg key s = Some b \<Longrightarrow> s \<noteq> [] \<Longrightarrow> b \<longleftrightarrow> scope_rule cfg key s"
  by (auto simp: scopeAllowed_def scope_rule_def dest: scopesAllow_grants
      split: option.splits json.splits)

section \<open>Properties\<close>

text \<open>
  What a request that passes has proved. If a request other than a CORS preflight
  passes, it presented a non-empty key; that key is the text of an item of
  \<open>pay.api_keys\<close>, the trimmed \<open>PAY_API_KEY\<close> or an entry of \<open>PAY_API_KEYS\<close>; and on a route
  with a scope the key's scope list grants it, or, for a key without a list, the default
  list where one is configured. No counter moves.
\<close>

lemma checkAuth_passes_authorised:
  assumes "memcmp_exact memcmp" "\<not> rq_options rq"
    and "checkAuth memcmp cfg singleKey multiKeys basePath rq mt = Some (None, mt')"
  shows "mt' = mt \<and> extractApiKey rq \<noteq> [] \<and>
     ((\<exists>items. payMember cfg ''api_keys'' = Some (Some (JArray items)) \<and>
          Some (extractApiKey rq) \<in> asString ` set items) \<or>
      (\<exists>v. singleKey = Some v \<and> extractApiKey rq = trim v) \<or>
      (\<exists>v. multiKeys = Some v \<and> extractApiKey rq \<in> set (splitKeys v))) \<and>
     (resolveScope (rq_path rq) basePath \<noteq> [] \<longrightarrow>
        scope_rule cfg (extractApiKey rq) (resolveScope (rq_path rq) basePath))"
proof -
  let ?key = "extractApiKey rq" and ?s = "resolveScope (rq_path rq) basePath"
  from assms(2,3) obtain ks where ks: "configKeys cfg = Some ks" "?key \<noteq> []"
    "containsKeyConstantTime memcmp (ks @ envKeys singleKey multiKeys) ?key"
    "scopeAllowed cfg ?key ?s = Some True" "mt' = mt"
    by (auto simp: checkAuth_def Let_def split: option.splits if_splits bool.splits)
  have "?key \<in> set ks \<or> ?key \<in> set (envKeys singleKey multiKeys)"
    using ks(3) contains_iff [OF assms(1)] by simp
  moreover have "?key \<in> set ks \<Longrightarrow> \<exists>items. payMember cfg ''api_keys'' = Some (Some (JArray items)) \<and>
      Some ?key \<in> asString ` set items"
    using ks(1) by (auto simp: configKeys_def dest!: itemKeys_set split: option.splits json.splits)
  moreover have "?key \<in> set (envKeys singleKey multiKeys) \<Longrightarrow>
      (\<exists>v. singleKey = Some v \<and> ?key = trim v) \<or> (\<exists>v. multiKeys = Some v \<and> ?key \<in> set (splitKeys v))"
    by (auto simp: envKeys_def split: option.splits if_splits)
  moreover have "?s \<noteq> [] \<Longrightarrow> scope_rule cfg ?key ?s" using scopeAllowed_rule [OF ks(4)] by simp
  ultimately show ?thesis using ks(2,5) by blast
qed

definition bytes_differ :: "string \<Rightarrow> string \<Rightarrow> nat \<Rightarrow> int" where
  "bytes_differ a b n = (if take n a = take n b then 0 else 1)"

lemma memcmp_exact_bytes_differ: "memcmp_exact bytes_differ"
  by (simp add: memcmp_exact_def bytes_differ_def)

text \<open>
  Every refusal is counted once and by its cause. A refused request answers 503, 401
  or 403; exactly the counter of its cause goes up by one (modulo \<open>2^64\<close>) and the others
  keep their values; 503 is answered exactly when no key is configured anywhere, and 403
  only for a configured key whose scope rule forbids the route.
\<close>

lemma checkAuth_refusal_counted:
  assumes "memcmp_exact memcmp"
    and "checkAuth memcmp cfg singleKey multiKeys basePath rq mt = Some (Some resp, mt')"
  shows "(status_code resp, mt') \<in>
       {(503, mt\<lparr>notConfigured := notConfigured mt + 1\<rparr>), (401, mt\<lparr>missingKey := missingKey mt + 1\<rparr>),
        (401, mt\<lparr>invalidKey := invalidKey mt + 1\<rparr>), (403, mt\<lparr>scopeDenied := scopeDenied mt + 1\<rparr>)} \<and>
     (status_code resp = 503 \<longleftrightarrow> configKeys cfg = Some [] \<and> envKeys singleKey multiKeys = []) \<and>
     (status_code resp = 403 \<longrightarrow>
        (\<exists>ks. configKeys cfg = Some ks \<and> extractApiKey rq \<in> set (ks @ envKeys singleKey multiKeys)) \<and>
        \<not> scope_rule cfg (extractApiKey rq) (resolveScope (rq_path rq) basePath))"
proof -
  let ?key = "extractApiKey rq" and ?s = "resolveScope (rq_path rq) basePath"
  have "scopeAllowed cfg ?key ?s = Some False \<Longrightarrow> \<not> scope_rule cfg ?key ?s"
    using scopeAllowed_rule [of cfg ?key ?s False] scopeAllowed_def [of cfg ?key "[]"] by (cases "?s = []") simp_all
  with assms(2) show ?thesis
    by (auto simp: checkAuth_def Let_def contains_iff [OF assms(1)] incMissingKey_def incInvalidKey_def
        incScopeDenied_def incNotConfigured_def split: option.splits if_splits bool.splits)
qed

end
