(* ===== verification/Pay_Db.thy ===== *)
theory Pay_Db
  imports Pay_Json
begin

text \<open>
  The database as the services see it. The tables are those of
  \<open>sql/001_init_pay_tables.sql\<close> and its follow-up migrations (generated accessors in
  \<open>models/\<close>), each a list of rows in insertion order; the SQL texts of the services are
  functions on them, with the \<open>UNIQUE\<close>, \<open>VARCHAR(n)\<close> and foreign-key constraints and the
  partial unique index on income ledger rows. Rows are addressed by their unique business
  number: the numeric \<open>id\<close> a mapper writes by is in bijection with it.

  What the database and the scheduler may do is an environment that every operation takes
  as a parameter: any statement may raise (\<open>dbFault\<close>), any mapper construction may throw
  (\<open>ctorFault\<close>), a transaction may be unavailable (\<open>txnNull\<close>), and outside a
  transaction other requests may have changed the tables before each statement
  (\<open>others\<close>). Transactions run serially; a failed statement aborts its transaction, the
  statements after it fail, and its end undoes its writes, as PostgreSQL documents.
\<close>

section \<open>Rows and tables\<close>

record order_row =
  o_order_no :: string
  o_user_id :: int
  o_amount :: string
  o_currency :: string
  o_status :: string
  o_channel :: string
  o_title :: string
  o_expire_at :: "int option"
  o_created_at :: int
  o_updated_at :: int

record payment_row =
  p_payment_no :: string
  p_order_no :: string
  p_status :: string
  p_amount :: string
  p_request_payload :: string
  p_response_payload :: "string option"
  p_channel_trade_no :: "string option"
  p_created_at :: int

record refund_row =
  r_refund_no :: string
  r_order_no :: string
  r_payment_no :: string
  r_status :: string
  r_amount :: string
  r_channel_refund_no :: "string option"
  r_response_payload :: "string option"
  r_created_at :: int
  r_updated_at :: int

record callback_row =
  c_payment_no :: string
  c_raw_body :: string
  c_signature :: string
  c_serial_no :: string
  c_verified :: bool
  c_processed :: bool
  c_received_at :: int

record ledger_row =
  l_user_id :: int
  l_order_no :: string
  l_payment_no :: "string option"
  l_entry_type :: string
  l_amount :: string
  l_created_at :: int

record idem_row =
  i_key :: string
  i_hash :: string
  i_snapshot :: "string option"
  i_expire_at :: "int option"
  i_owner_token :: "string option"

record tables =
  t_orders :: "order_row list"
  t_payments :: "payment_row list"
  t_refunds :: "refund_row list"
  t_callbacks :: "callback_row list"
  t_ledger :: "ledger_row list"
  t_idem :: "idem_row list"

section \<open>Statements on one table\<close>

text \<open>\<open>UPDATE ... SET f WHERE P\<close> and \<open>DELETE ... WHERE P\<close>.\<close>

definition update_where :: "('r \<Rightarrow> bool) \<Rightarrow> ('r \<Rightarrow> 'r) \<Rightarrow> 'r list \<Rightarrow> 'r list" where
  "update_where P f rs = map (\<lambda>r. if P r then f r else r) rs"

definition delete_where :: "('r \<Rightarrow> bool) \<Rightarrow> 'r list \<Rightarrow> 'r list" where
  "delete_where P rs = filter (\<lambda>r. \<not> P r) rs"

definition keyed :: "('r \<Rightarrow> 'k) \<Rightarrow> 'r list \<Rightarrow> bool" where
  "keyed key rs \<longleftrightarrow> distinct (map key rs)"

text \<open>\<open>ORDER BY col DESC LIMIT 1\<close>; of several rows with the largest value the first one.\<close>

fun latest_by :: "('r \<Rightarrow> int) \<Rightarrow> 'r list \<Rightarrow> 'r option" where
  "latest_by col [] = None"
| "latest_by col (r # rs) =
     (case latest_by col rs of
        None \<Rightarrow> Some r
      | Some s \<Rightarrow> if col r \<ge> col s then Some r else Some s)"

lemma update_where_id: "(\<And>r. r \<in> set rs \<Longrightarrow> \<not> P r) \<Longrightarrow> update_where P f rs = rs"
  by (simp add: update_where_def map_idI)

lemma length_update_where [simp]: "length (update_where P f rs) = length rs"
  by (simp add: update_where_def)

lemma map_key_update_where:
  "(\<And>r. key (f r) = key r) \<Longrightarrow> map key (update_where P f rs) = map key rs"
  by (simp add: update_where_def)

lemma set_update_where: "set (update_where P f rs) = (\<lambda>r. if P r then f r else r) ` set rs"
  by (simp add: update_where_def)

lemma keys_update_where:
  "(\<And>r. key (f r) = key r) \<Longrightarrow> key ` set (update_where P f rs) = key ` set rs"
  by (metis list.set_map map_key_update_where)

lemma in_update_whereE:
  assumes "r \<in> set (update_where P f rs)"
  obtains s where "s \<in> set rs" "P s" "r = f s" | "r \<in> set rs" "\<not> P r"
  using assms by (auto simp: set_update_where split: if_splits)

lemma latest_by_in: "latest_by col rs = Some r \<Longrightarrow> r \<in> set rs"
  by (induction rs arbitrary: r) (auto split: option.splits if_splits)

lemma latest_by_None [simp]: "latest_by col rs = None \<longleftrightarrow> rs = []"
  by (cases rs) (auto split: option.splits)

lemma latest_by_max: "latest_by col rs = Some r \<Longrightarrow> s \<in> set rs \<Longrightarrow> col s \<le> col r"
  by (induction rs arbitrary: r s) (fastforce split: option.splits if_splits)+

lemma keyed_unique: "keyed key rs \<Longrightarrow> r \<in> set rs \<Longrightarrow> s \<in> set rs \<Longrightarrow> key r = key s \<Longrightarrow> r = s"
  by (metis distinct_map inj_onD keyed_def)

lemma keyed_update_where:
  "(\<And>r. key (f r) = key r) \<Longrightarrow> keyed key (update_where P f rs) \<longleftrightarrow> keyed key rs"
  by (simp add: keyed_def map_key_update_where)

lemma keyed_delete_where: "keyed key rs \<Longrightarrow> keyed key (delete_where P rs)"
  by (simp add: keyed_def delete_where_def distinct_map_filter)

lemma keyed_append: "keyed key (rs @ [r]) \<longleftrightarrow> keyed key rs \<and> key r \<notin> key ` set rs"
  by (auto simp: keyed_def)

lemma keyed_filter_key:
  "keyed key rs \<Longrightarrow> r \<in> set rs \<Longrightarrow> filter (\<lambda>s. key s = key r) rs = [r]"
proof (induction rs)
  case Nil
  then show ?case by simp
next
  case (Cons a rs)
  show ?case
  proof (cases "key a = key r")
    case True
    then have "a = r" using keyed_unique [OF Cons.prems(1), of a r] Cons.prems(2) by simp
    moreover have "filter (\<lambda>s. key s = key r) rs = []"
      using Cons.prems(1) True by (simp add: keyed_def filter_empty_conv image_iff) metis
    ultimately show ?thesis by simp
  next
    case False
    with Cons show ?thesis by (auto simp: keyed_def)
  qed
qed

text \<open>Looking a row up by its key, after an update, an insert or a delete.\<close>

lemma find_update_where:
  "(\<And>r. key (f r) = key r) \<Longrightarrow>
     find (\<lambda>r. key r = k) (update_where P f rs) =
     map_option (\<lambda>r. if P r then f r else r) (find (\<lambda>r. key r = k) rs)"
  by (induction rs) (auto simp: update_where_def)

lemma find_append:
  "find P (rs @ ss) = (case find P rs of None \<Rightarrow> find P ss | Some r \<Rightarrow> Some r)"
  by (induction rs) auto

lemma find_key_None: "find (\<lambda>r. key r = k) rs = None \<longleftrightarrow> k \<notin> key ` set rs"
  by (auto simp: find_None_iff)

lemma find_delete_where:
  assumes "keyed key rs"
  shows "find (\<lambda>r. key r = k) (delete_where P rs) =
    (case find (\<lambda>r. key r = k) rs of None \<Rightarrow> None | Some r \<Rightarrow> if P r then None else Some r)"
  using assms
proof (induction rs)
  case Nil
  then show ?case by (simp add: delete_where_def)
next
  case (Cons a rs)
  have "key a = k \<Longrightarrow> find (\<lambda>r. key r = k) (delete_where P rs) = None"
    using Cons.prems by (auto simp: find_key_None delete_where_def keyed_def)
  with Cons show ?case by (auto simp: delete_where_def keyed_def split: option.splits)
qed

lemma find_key_Some:
  "keyed key rs \<Longrightarrow> find (\<lambda>r. key r = k) rs = Some r \<longleftrightarrow> r \<in> set rs \<and> key r = k"
proof (cases "find (\<lambda>r. key r = k) rs")
  case None
  then have "k \<notin> key ` set rs" by (simp add: find_key_None)
  with None show ?thesis by auto
next
  case (Some s)
  then have "s \<in> set rs" "key s = k" by (auto simp: find_Some_iff)
  moreover assume "keyed key rs"
  ultimately show ?thesis using Some keyed_unique [of key rs r s] by auto
qed

section \<open>Environment, transactions and statements\<close>

datatype pg_error = TooLong | DuplicateKey | NoParent | BadCast | UnexpectedRows

record env =
  dbFault :: "nat \<Rightarrow> string option"
  ctorFault :: "nat \<Rightarrow> string option option"
  txnNull :: "nat \<Rightarrow> bool"
  others :: "nat \<Rightarrow> tables \<Rightarrow> tables"
  clock :: "nat \<Rightarrow> int"
  dbClock :: "nat \<Rightarrow> int"
  pgText :: "pg_error \<Rightarrow> string"
  numericSum :: "string list \<Rightarrow> string option"

text \<open>
  The state of the transaction a handler holds: none, open with the tables at its start,
  or ended early (aborted or rolled back), when its writes are already undone.
\<close>

datatype txn = NoTxn | InTxn tables | Aborted

text \<open>What a run shows outside the database: the calls to channels and to Redis.\<close>

datatype event =
    ChannelCall string string json
  | RedisSetex string string

record world =
  tabs :: tables
  txn_of :: txn
  tick :: nat
  events :: "event list"

text \<open>
  The outcome of a raw statement is \<open>Inl what\<close> for a \<open>DrogonDbException\<close> or \<open>Inr\<close> its
  result. The outcome of a statement through a mapper: its result, a \<open>DrogonDbException\<close>, or an exception thrown
  while the mapper is built (\<open>Some what\<close> for a \<open>std::exception\<close>, \<open>None\<close> for any other).
\<close>

datatype 'a dbres = Ok 'a | DbErr string | Threw "string option"

definition abort :: "world \<Rightarrow> world" where
  "abort w = (case txn_of w of InTxn saved \<Rightarrow> w\<lparr>tabs := saved, txn_of := Aborted\<rparr> | _ \<Rightarrow> w)"

definition settle_others :: "env \<Rightarrow> world \<Rightarrow> world" where
  "settle_others e w =
     (if txn_of w = NoTxn then w\<lparr>tabs := others e (tick w) (tabs w)\<rparr> else w)"

definition next_tick :: "world \<Rightarrow> world" where
  "next_tick w = w\<lparr>tick := Suc (tick w)\<rparr>"

definition exec :: "env \<Rightarrow> (tables \<Rightarrow> pg_error + ('a \<times> tables)) \<Rightarrow> world \<Rightarrow> (string + 'a) \<times> world" where
  "exec e f w =
     (let w' = next_tick (settle_others e w)
      in if txn_of w = Aborted then (Inl ''transaction aborted'', w')
         else (case dbFault e (tick w) of
                 Some m \<Rightarrow> (Inl m, abort w')
               | None \<Rightarrow>
                   (case f (tabs w') of
                      Inl err \<Rightarrow> (Inl (pgText e err), abort w')
                    | Inr (a, t) \<Rightarrow> (Inr a, w'\<lparr>tabs := t\<rparr>))))"

text \<open>A statement through a mapper, whose constructor may throw first.\<close>

definition mapper :: "env \<Rightarrow> (tables \<Rightarrow> pg_error + ('a \<times> tables)) \<Rightarrow> world \<Rightarrow> 'a dbres \<times> world" where
  "mapper e f w =
     (case ctorFault e (tick w) of
        Some what \<Rightarrow> (Threw what, next_tick w)
      | None \<Rightarrow>
          (case exec e f w of
             (Inl m, w') \<Rightarrow> (DbErr m, w')
           | (Inr a, w') \<Rightarrow> (Ok a, w')))"

text \<open>
  \<open>Mapper::findOne\<close>: the row, or a \<open>DrogonDbException\<close> for any other number of rows, which
  leaves the transaction as it is.
\<close>

definition reads :: "(tables \<Rightarrow> pg_error + 'a) \<Rightarrow> tables \<Rightarrow> pg_error + ('a \<times> tables)" where
  "reads q t = (case q t of Inl e \<Rightarrow> Inl e | Inr a \<Rightarrow> Inr (a, t))"

definition find_one :: "env \<Rightarrow> (tables \<Rightarrow> pg_error + 'r list) \<Rightarrow> world \<Rightarrow> 'r dbres \<times> world" where
  "find_one e q w =
     (case mapper e (reads q) w of
        (Ok [r], w1) \<Rightarrow> (Ok r, w1)
      | (Ok _, w1) \<Rightarrow> (DbErr (pgText e UnexpectedRows), w1)
      | (DbErr m, w1) \<Rightarrow> (DbErr m, w1)
      | (Threw what, w1) \<Rightarrow> (Threw what, w1))"

text \<open>\<open>newTransactionAsync\<close>; \<open>None\<close> is a null transaction pointer.\<close>

definition begin_txn :: "env \<Rightarrow> world \<Rightarrow> world option" where
  "begin_txn e w =
     (let w' = next_tick (settle_others e w)
      in if txnNull e (tick w) then None else Some (w'\<lparr>txn_of := InTxn (tabs w')\<rparr>))"

text \<open>\<open>transPtr->rollback()\<close>.\<close>

definition rollback :: "world \<Rightarrow> world" where
  "rollback w = abort w"

text \<open>
  The end of a transaction: an explicit \<open>COMMIT\<close> or the release of the last reference,
  which commits unless the transaction was aborted or rolled back. A commit that fails
  undoes the writes and is reported by \<open>Some what\<close>.
\<close>

definition commit_txn :: "env \<Rightarrow> world \<Rightarrow> string option \<times> world" where
  "commit_txn e w =
     (let w' = next_tick w
      in case txn_of w of
           InTxn saved \<Rightarrow>
             (case dbFault e (tick w) of
                Some m \<Rightarrow> (Some m, w'\<lparr>tabs := saved, txn_of := NoTxn\<rparr>)
              | None \<Rightarrow> (None, w'\<lparr>txn_of := NoTxn\<rparr>))
         | _ \<Rightarrow> (None, w'\<lparr>txn_of := NoTxn\<rparr>))"

definition end_txn :: "env \<Rightarrow> world \<Rightarrow> world" where
  "end_txn e w = snd (commit_txn e w)"

definition emit :: "event \<Rightarrow> world \<Rightarrow> world" where
  "emit ev w = w\<lparr>events := events w @ [ev]\<rparr>"

section \<open>Constraints\<close>

definition fits :: "nat \<Rightarrow> string \<Rightarrow> bool" where
  "fits n s \<longleftrightarrow> utf8CodePointLength s \<le> n"

definition order_fits :: "order_row \<Rightarrow> bool" where
  "order_fits r \<longleftrightarrow>
     fits 64 (o_order_no r) \<and> fits 32 (o_amount r) \<and> fits 8 (o_currency r) \<and>
     fits 32 (o_status r) \<and> fits 32 (o_channel r) \<and> fits 512 (o_title r)"

definition insert_order :: "order_row \<Rightarrow> tables \<Rightarrow> pg_error + (unit \<times> tables)" where
  "insert_order r t =
     (if \<not> order_fits r then Inl TooLong
      else if o_order_no r \<in> o_order_no ` set (t_orders t) then Inl DuplicateKey
      else Inr ((), t\<lparr>t_orders := t_orders t @ [r]\<rparr>))"

definition payment_fits :: "payment_row \<Rightarrow> bool" where
  "payment_fits r \<longleftrightarrow>
     fits 64 (p_payment_no r) \<and> fits 64 (p_order_no r) \<and> fits 32 (p_status r) \<and>
     fits 32 (p_amount r) \<and> (case p_channel_trade_no r of None \<Rightarrow> True | Some s \<Rightarrow> fits 64 s)"

definition insert_payment :: "payment_row \<Rightarrow> tables \<Rightarrow> pg_error + (unit \<times> tables)" where
  "insert_payment r t =
     (if \<not> payment_fits r then Inl TooLong
      else if p_payment_no r \<in> p_payment_no ` set (t_payments t) then Inl DuplicateKey
      else if p_order_no r \<notin> o_order_no ` set (t_orders t) then Inl NoParent
      else Inr ((), t\<lparr>t_payments := t_payments t @ [r]\<rparr>))"

definition refund_fits :: "refund_row \<Rightarrow> bool" where
  "refund_fits r \<longleftrightarrow>
     fits 64 (r_refund_no r) \<and> fits 64 (r_order_no r) \<and> fits 64 (r_payment_no r) \<and>
     fits 32 (r_status r) \<and> fits 32 (r_amount r) \<and>
     (case r_channel_refund_no r of None \<Rightarrow> True | Some s \<Rightarrow> fits 64 s)"

definition insert_refund :: "refund_row \<Rightarrow> tables \<Rightarrow> pg_error + (unit \<times> tables)" where
  "insert_refund r t =
     (if \<not> refund_fits r then Inl TooLong
      else if r_refund_no r \<in> r_refund_no ` set (t_refunds t) then Inl DuplicateKey
      else if r_order_no r \<notin> o_order_no ` set (t_orders t) then Inl NoParent
      else if r_payment_no r \<notin> p_payment_no ` set (t_payments t) then Inl NoParent
      else Inr ((), t\<lparr>t_refunds := t_refunds t @ [r]\<rparr>))"

definition callback_fits :: "callback_row \<Rightarrow> bool" where
  "callback_fits r \<longleftrightarrow> fits 64 (c_payment_no r) \<and> fits 512 (c_signature r) \<and> fits 64 (c_serial_no r)"

definition insert_callback :: "callback_row \<Rightarrow> tables \<Rightarrow> pg_error + (unit \<times> tables)" where
  "insert_callback r t =
     (if \<not> callback_fits r then Inl TooLong
      else if c_payment_no r \<notin> p_payment_no ` set (t_payments t) then Inl NoParent
      else Inr ((), t\<lparr>t_callbacks := t_callbacks t @ [r]\<rparr>))"

text \<open>The partial unique index \<open>uq_pay_ledger_payment_income\<close>.\<close>

definition income_of :: "string \<Rightarrow> ledger_row \<Rightarrow> bool" where
  "income_of pn r \<longleftrightarrow> l_entry_type r = ''PAYMENT'' \<and> l_payment_no r = Some pn"

definition ledger_fits :: "ledger_row \<Rightarrow> bool" where
  "ledger_fits r \<longleftrightarrow>
     fits 64 (l_order_no r) \<and> fits 32 (l_entry_type r) \<and> fits 32 (l_amount r) \<and>
     (case l_payment_no r of None \<Rightarrow> True | Some s \<Rightarrow> fits 64 s)"

definition insert_ledger :: "ledger_row \<Rightarrow> tables \<Rightarrow> pg_error + (unit \<times> tables)" where
  "insert_ledger r t =
     (if \<not> ledger_fits r then Inl TooLong
      else if (case l_payment_no r of
                 None \<Rightarrow> False
               | Some pn \<Rightarrow> income_of pn r \<and> list_ex (income_of pn) (t_ledger t)) then Inl DuplicateKey
      else if l_order_no r \<notin> o_order_no ` set (t_orders t) then Inl NoParent
      else if (case l_payment_no r of
                 None \<Rightarrow> False
               | Some pn \<Rightarrow> pn \<notin> p_payment_no ` set (t_payments t)) then Inl NoParent
      else Inr ((), t\<lparr>t_ledger := t_ledger t @ [r]\<rparr>))"

section \<open>Well-formed tables\<close>

text \<open>What the schema guarantees of every state of the tables.\<close>

definition wf_tables :: "tables \<Rightarrow> bool" where
  "wf_tables t \<longleftrightarrow>
     keyed o_order_no (t_orders t) \<and> keyed p_payment_no (t_payments t) \<and>
     keyed r_refund_no (t_refunds t) \<and> keyed i_key (t_idem t) \<and>
     p_order_no ` set (t_payments t) \<subseteq> o_order_no ` set (t_orders t) \<and>
     r_order_no ` set (t_refunds t) \<subseteq> o_order_no ` set (t_orders t) \<and>
     r_payment_no ` set (t_refunds t) \<subseteq> p_payment_no ` set (t_payments t) \<and>
     c_payment_no ` set (t_callbacks t) \<subseteq> p_payment_no ` set (t_payments t) \<and>
     (\<forall>pn. length (filter (income_of pn) (t_ledger t)) \<le> 1)"

text \<open>
  An invariant of the tables holds in a world when it holds now and would hold after a
  rollback; it is stable when the other requests keep it.
\<close>

definition holds :: "(tables \<Rightarrow> bool) \<Rightarrow> world \<Rightarrow> bool" where
  "holds I w \<longleftrightarrow> I (tabs w) \<and> (case txn_of w of InTxn s \<Rightarrow> I s | _ \<Rightarrow> True)"

definition stable :: "(tables \<Rightarrow> bool) \<Rightarrow> env \<Rightarrow> bool" where
  "stable I e \<longleftrightarrow> (\<forall>n t. I t \<longrightarrow> I (others e n t))"

text \<open>A quiet environment: nothing fails and nobody else writes.\<close>

definition quiet :: "env \<Rightarrow> bool" where
  "quiet e \<longleftrightarrow>
     dbFault e = (\<lambda>_. None) \<and> ctorFault e = (\<lambda>_. None) \<and> txnNull e = (\<lambda>_. False) \<and>
     others e = (\<lambda>_ t. t)"

text \<open>A concrete quiet environment: every clock reads the statement count.\<close>

definition calm :: env where
  "calm = \<lparr>dbFault = \<lambda>_. None, ctorFault = \<lambda>_. None, txnNull = \<lambda>_. False, others = \<lambda>_ t. t,
     clock = int, dbClock = int, pgText = \<lambda>_. ''pg'', numericSum = \<lambda>_. None\<rparr>"

definition no_rows :: tables where
  "no_rows = \<lparr>t_orders = [], t_payments = [], t_refunds = [], t_callbacks = [], t_ledger = [], t_idem = []\<rparr>"

definition fresh :: "tables \<Rightarrow> world" where
  "fresh t = \<lparr>tabs = t, txn_of = NoTxn, tick = 0, events = []\<rparr>"

lemma quiet_calm [simp]: "quiet calm"
  by (simp add: quiet_def calm_def)

lemma fresh_simps [simp]:
  "tabs (fresh t) = t" "txn_of (fresh t) = NoTxn" "tick (fresh t) = 0" "events (fresh t) = []"
  by (simp_all add: fresh_def)

section \<open>Invariants across statements\<close>

lemma holds_next_tick [simp]: "holds I (next_tick w) = holds I w"
  by (simp add: holds_def next_tick_def)

lemma holds_abort: "holds I w \<Longrightarrow> holds I (abort w)"
  by (auto simp: holds_def abort_def split: txn.splits)

lemma holds_rollback: "holds I w \<Longrightarrow> holds I (rollback w)"
  by (simp add: rollback_def holds_abort)

lemma holds_emit [simp]: "holds I (emit ev w) = holds I w"
  by (simp add: holds_def emit_def)

lemma holds_settle_others: "stable I e \<Longrightarrow> holds I w \<Longrightarrow> holds I (settle_others e w)"
  by (auto simp: holds_def settle_others_def stable_def split: txn.splits)

lemma holds_begin_txn: "stable I e \<Longrightarrow> holds I w \<Longrightarrow> begin_txn e w = Some w' \<Longrightarrow> holds I w'"
  using holds_settle_others [of I e w]
  by (auto simp: begin_txn_def Let_def holds_def next_tick_def split: if_splits)

lemma holds_commit_txn: "holds I w \<Longrightarrow> holds I (snd (commit_txn e w))"
  by (auto simp: commit_txn_def Let_def holds_def next_tick_def split: txn.splits option.splits)

lemma holds_end_txn: "holds I w \<Longrightarrow> holds I (end_txn e w)"
  by (simp add: end_txn_def holds_commit_txn)

lemma holds_beginD: "begin_txn e w = Some w' \<Longrightarrow> stable I e \<Longrightarrow> holds I w \<Longrightarrow> holds I w'"
  by (rule holds_begin_txn)

lemma holds_commitD: "commit_txn e w = (r, w') \<Longrightarrow> holds I w \<Longrightarrow> holds I w'"
  using holds_commit_txn [of I w e] by simp

lemmas holds_intros = holds_abort holds_rollback holds_settle_others holds_begin_txn
  holds_commit_txn holds_end_txn

text \<open>
  The interface between a service and the database: a statement that keeps an invariant of
  the tables whenever it succeeds. Every way of running it keeps the invariant of the
  world, whatever fails and whatever the other requests do.
\<close>

locale stmt_inv =
  fixes I :: "tables \<Rightarrow> bool"
    and f :: "tables \<Rightarrow> pg_error + ('a \<times> tables)"
  assumes keeps: "I t \<Longrightarrow> f t = Inr (a, t') \<Longrightarrow> I t'"
begin

lemma exec_holds: "stable I e \<Longrightarrow> holds I w \<Longrightarrow> holds I (snd (exec e f w))"
proof -
  assume s: "stable I e" and h: "holds I w"
  let ?w = "next_tick (settle_others e w)"
  have w: "holds I ?w" using holds_settle_others [OF s h] by simp
  have "holds I (?w\<lparr>tabs := t\<rparr>)" if "f (tabs ?w) = Inr (a, t)" for a t
    using w keeps [OF _ that] by (auto simp: holds_def)
  with w show ?thesis
    by (auto simp: exec_def Let_def holds_abort split: option.splits sum.splits)
qed

lemma mapper_holds: "stable I e \<Longrightarrow> holds I w \<Longrightarrow> holds I (snd (mapper e f w))"
  using exec_holds [of e w] by (auto simp: mapper_def split: option.splits prod.splits sum.splits)

lemma mapper_holdsD:
  "mapper e f w = (r, w') \<Longrightarrow> stable I e \<Longrightarrow> holds I w \<Longrightarrow> holds I w'"
  using mapper_holds [of e w] by simp

lemma exec_holdsD:
  "exec e f w = (r, w') \<Longrightarrow> stable I e \<Longrightarrow> holds I w \<Longrightarrow> holds I w'"
  using exec_holds [of e w] by simp

end

text \<open>A statement that only reads keeps every invariant.\<close>

interpretation read_stmt: stmt_inv I "reads q" for I q
  by unfold_locales (auto simp: reads_def split: sum.splits)

lemma find_one_holdsD:
  "find_one e q w = (r, w') \<Longrightarrow> stable I e \<Longrightarrow> holds I w \<Longrightarrow> holds I w'"
  by (auto simp: find_one_def dest!: read_stmt.mapper_holdsD [where I = I]
      split: prod.splits dbres.splits list.splits)

lemma wf_insert_order: "wf_tables t \<Longrightarrow> insert_order r t = Inr (a, t') \<Longrightarrow> wf_tables t'"
  by (auto simp: wf_tables_def insert_order_def keyed_append image_subset_iff split: if_splits)

lemma wf_insert_payment: "wf_tables t \<Longrightarrow> insert_payment r t = Inr (a, t') \<Longrightarrow> wf_tables t'"
  by (auto simp: wf_tables_def insert_payment_def keyed_append image_subset_iff split: if_splits)

lemma wf_insert_refund: "wf_tables t \<Longrightarrow> insert_refund r t = Inr (a, t') \<Longrightarrow> wf_tables t'"
  by (auto simp: wf_tables_def insert_refund_def keyed_append image_subset_iff split: if_splits)

lemma wf_insert_callback: "wf_tables t \<Longrightarrow> insert_callback r t = Inr (a, t') \<Longrightarrow> wf_tables t'"
  by (auto simp: wf_tables_def insert_callback_def image_subset_iff split: if_splits)

lemma income_unique: "income_of pn r \<Longrightarrow> income_of pn' r \<Longrightarrow> pn = pn'"
  by (simp add: income_of_def)

lemma filter_length_0: "\<not> list_ex P xs \<Longrightarrow> filter P xs = []"
  by (induction xs) auto

lemma wf_insert_ledger: "wf_tables t \<Longrightarrow> insert_ledger r t = Inr (a, t') \<Longrightarrow> wf_tables t'"
proof -
  assume wf: "wf_tables t" and ins: "insert_ledger r t = Inr (a, t')"
  then have t': "t' = t\<lparr>t_ledger := t_ledger t @ [r]\<rparr>" by (auto simp: insert_ledger_def split: if_splits)
  have "length (filter (income_of pn) (t_ledger t @ [r])) \<le> 1" for pn
  proof (cases "income_of pn r")
    case True
    then have "l_payment_no r = Some pn" by (simp add: income_of_def)
    then have "\<not> list_ex (income_of pn) (t_ledger t)"
      using ins True by (auto simp: insert_ledger_def split: if_splits)
    with True show ?thesis by (simp add: filter_length_0)
  next
    case False
    with wf show ?thesis by (simp add: wf_tables_def)
  qed
  with wf show "wf_tables t'" by (simp add: wf_tables_def t')
qed

interpretation ins_order: stmt_inv wf_tables "insert_order r" for r
  by unfold_locales (rule wf_insert_order)

interpretation ins_payment: stmt_inv wf_tables "insert_payment r" for r
  by unfold_locales (rule wf_insert_payment)

interpretation ins_refund: stmt_inv wf_tables "insert_refund r" for r
  by unfold_locales (rule wf_insert_refund)

interpretation ins_callback: stmt_inv wf_tables "insert_callback r" for r
  by unfold_locales (rule wf_insert_callback)

interpretation ins_ledger: stmt_inv wf_tables "insert_ledger r" for r
  by unfold_locales (rule wf_insert_ledger)

section \<open>Runs of a quiet environment\<close>

lemma quiet_exec:
  "quiet e \<Longrightarrow> txn_of w \<noteq> Aborted \<Longrightarrow> f (tabs w) = Inr (a, t) \<Longrightarrow>
     exec e f w = (Inr a, (next_tick w)\<lparr>tabs := t\<rparr>)"
  by (simp add: quiet_def exec_def Let_def settle_others_def next_tick_def)

lemma quiet_mapper:
  "quiet e \<Longrightarrow> txn_of w \<noteq> Aborted \<Longrightarrow> f (tabs w) = Inr (a, t) \<Longrightarrow>
     mapper e f w = (Ok a, (next_tick w)\<lparr>tabs := t\<rparr>)"
  using quiet_exec [of e w f a t] by (simp add: mapper_def quiet_def)

lemma quiet_begin: "quiet e \<Longrightarrow> txn_of w = NoTxn \<Longrightarrow>
     begin_txn e w = Some ((next_tick w)\<lparr>txn_of := InTxn (tabs w)\<rparr>)"
  by (simp add: quiet_def begin_txn_def Let_def settle_others_def next_tick_def)

lemma quiet_commit: "quiet e \<Longrightarrow> txn_of w = InTxn s \<Longrightarrow>
     commit_txn e w = (None, (next_tick w)\<lparr>txn_of := NoTxn\<rparr>)"
  by (simp add: quiet_def commit_txn_def Let_def)

lemma next_tick_simps [simp]:
  "tabs (next_tick w) = tabs w" "txn_of (next_tick w) = txn_of w" "events (next_tick w) = events w"
  by (simp_all add: next_tick_def)

section \<open>Statements inside a transaction\<close>

lemma begin_txn_opens:
  "begin_txn e w = Some w' \<Longrightarrow> txn_of w = NoTxn \<Longrightarrow>
     txn_of w' = InTxn (others e (tick w) (tabs w)) \<and> tabs w' = others e (tick w) (tabs w) \<and>
     events w' = events w"
  by (auto simp: begin_txn_def Let_def settle_others_def split: if_splits)

lemma mapper_in_txn:
  assumes "mapper e f w = (r, w')" "txn_of w = InTxn s"
  shows "events w' = events w \<and>
    (case r of
       Ok a \<Rightarrow> txn_of w' = InTxn s \<and> f (tabs w) = Inr (a, tabs w')
     | DbErr _ \<Rightarrow> txn_of w' = Aborted \<and> tabs w' = s
     | Threw _ \<Rightarrow> txn_of w' = InTxn s \<and> tabs w' = tabs w)"
  using assms
  by (auto simp: mapper_def exec_def Let_def settle_others_def abort_def
      split: option.splits sum.splits prod.splits)

lemma exec_in_txn:
  assumes "exec e f w = (r, w')" "txn_of w = InTxn s"
  shows "if isl r then txn_of w' = Aborted \<and> tabs w' = s else txn_of w' = InTxn s"
  using assms
  by (auto simp: exec_def Let_def settle_others_def abort_def split: option.splits sum.splits prod.splits)

text \<open>After a roll back and the release, the tables are those of the transaction's start.\<close>

lemma end_rollback:
  "txn_of w = InTxn s \<or> txn_of w = Aborted \<and> tabs w = s \<Longrightarrow>
     tabs (end_txn e (rollback w)) = s \<and> txn_of (end_txn e (rollback w)) = NoTxn \<and>
     events (end_txn e (rollback w)) = events w"
  by (auto simp: end_txn_def rollback_def abort_def commit_txn_def Let_def)

lemma commit_in_txn:
  assumes "commit_txn e w = (r, w')" "txn_of w = InTxn s"
  shows "txn_of w' = NoTxn \<and> events w' = events w \<and> tabs w' = (if r = None then tabs w else s)"
  using assms by (auto simp: commit_txn_def Let_def split: option.splits)

lemma exec_events: "exec e f w = (r, w') \<Longrightarrow> events w' = events w"
  by (auto simp: exec_def Let_def settle_others_def abort_def split: if_splits option.splits sum.splits
      prod.splits txn.splits)

lemma mapper_events: "mapper e f w = (r, w') \<Longrightarrow> events w' = events w"
  by (auto simp: mapper_def dest: exec_events split: option.splits sum.splits prod.splits)

section \<open>Rows by key\<close>

lemma update_where_key:
  assumes "keyed key rs" "r \<in> set rs"
  shows "update_where (\<lambda>s. key s = key r) f rs = update_where (\<lambda>s. s = r) f rs"
  unfolding update_where_def using keyed_unique [OF assms(1) _ assms(2)] by (intro map_cong) auto

lemma quiet_read:
  assumes "quiet e" "txn_of w \<noteq> Aborted" "q (tabs w) = Inr rows"
  shows "mapper e (reads q) w = (Ok rows, next_tick w)"
  using quiet_mapper [OF assms(1), of w "reads q" rows "tabs w"] assms(2,3)
  by (simp add: reads_def next_tick_def)

lemma find_one_Ok:
  "find_one e q w = (Ok r, w') \<Longrightarrow> \<exists>rs. q (tabs w') = Inr rs \<and> r \<in> set rs"
  by (auto simp: find_one_def mapper_def exec_def Let_def reads_def
      split: prod.splits dbres.splits list.splits option.splits if_splits sum.splits)

lemma quiet_find_one:
  assumes "quiet e" "txn_of w \<noteq> Aborted" "q (tabs w) = Inr [r]"
  shows "find_one e q w = (Ok r, next_tick w)"
  using quiet_read [where q = q, OF assms] by (simp add: find_one_def)

lemma quiet_exec_read:
  assumes "quiet e" "txn_of w \<noteq> Aborted" "q (tabs w) = Inr x"
  shows "exec e (reads q) w = (Inr x, next_tick w)"
  using quiet_exec [OF assms(1,2), of "reads q" x "tabs w"] assms(3) by (simp add: reads_def next_tick_def)

lemma quiet_mapper_runs:
  assumes "quiet e" "txn_of w \<noteq> Aborted" "f (tabs w) = Inr (a, t)"
  shows "\<exists>w'. mapper e f w = (Ok a, w') \<and> tabs w' = t \<and> txn_of w' = txn_of w \<and> events w' = events w"
  using quiet_mapper [where f = f, OF assms] by simp

lemma quiet_end:
  assumes "quiet e" "txn_of w = InTxn s"
  shows "end_txn e w = (next_tick w)\<lparr>txn_of := NoTxn\<rparr>"
  using quiet_commit [OF assms] by (simp add: end_txn_def)

end
