(* ===== verification/Pay_Idempotency.thy ===== *)
theory Pay_Idempotency
  imports Pay_Db
begin

text \<open>
  \<open>services/IdempotencyService.cc\<close>: reserving an idempotency key, replaying a stored
  response, storing the response of a finished operation, releasing a reservation and
  purging expired rows. The JSON reader and writer are the parameters \<open>parseJson\<close> (its
  success flag and the value it leaves) and \<open>toJson\<close>; \<open>redis\<close> says whether a Redis
  client is configured. Log statements are not modelled.
\<close>

section \<open>SQL statements on pay_idempotency\<close>

text \<open>\<open>INSERT ... ON CONFLICT (idempotency_key) DO NOTHING\<close>: the number of affected rows.\<close>

definition reserve_stmt :: "string \<Rightarrow> string \<Rightarrow> int \<Rightarrow> tables \<Rightarrow> pg_error + (nat \<times> tables)" where
  "reserve_stmt key hash expiresAt t =
     (if \<not> (fits 128 key \<and> fits 64 hash) then Inl TooLong
      else if key \<in> i_key ` set (t_idem t) then Inr (0, t)
      else Inr (1, t\<lparr>t_idem := t_idem t @
             [\<lparr>i_key = key, i_hash = hash, i_snapshot = None, i_expire_at = Some expiresAt, i_owner_token = None\<rparr>]\<rparr>))"

definition live_at :: "int \<Rightarrow> idem_row \<Rightarrow> bool" where
  "live_at now r \<longleftrightarrow> (case i_expire_at r of None \<Rightarrow> True | Some x \<Rightarrow> now < x)"

definition find_live :: "string \<Rightarrow> int \<Rightarrow> tables \<Rightarrow> pg_error + idem_row list" where
  "find_live key now t = Inr (filter (\<lambda>r. i_key r = key \<and> live_at now r) (t_idem t))"

definition fill_stmt :: "string \<Rightarrow> string \<Rightarrow> string \<Rightarrow> tables \<Rightarrow> pg_error + (nat \<times> tables)" where
  "fill_stmt key hash text t =
     (let P = (\<lambda>r. i_key r = key \<and> i_hash r = hash)
      in Inr (length (filter P (t_idem t)),
              t\<lparr>t_idem := update_where P (\<lambda>r. r\<lparr>i_snapshot := Some text\<rparr>) (t_idem t)\<rparr>))"

definition release_stmt :: "string \<Rightarrow> string \<Rightarrow> tables \<Rightarrow> pg_error + (nat \<times> tables)" where
  "release_stmt key hash t =
     (let P = (\<lambda>r. i_key r = key \<and> i_hash r = hash \<and> i_snapshot r = None)
      in Inr (length (filter P (t_idem t)), t\<lparr>t_idem := delete_where P (t_idem t)\<rparr>))"

definition purge_stmt :: "int \<Rightarrow> tables \<Rightarrow> pg_error + (nat \<times> tables)" where
  "purge_stmt now t =
     (let P = (\<lambda>r. case i_expire_at r of None \<Rightarrow> False | Some x \<Rightarrow> x < now)
      in Inr (length (filter P (t_idem t)), t\<lparr>t_idem := delete_where P (t_idem t)\<rparr>))"

section \<open>The service\<close>

datatype check_status = Started | Replay | InProgress | Conflict | CheckError

record check_result =
  cr_status :: check_status
  cr_cached :: json
  cr_message :: string

definition result_of :: "check_status \<Rightarrow> string \<Rightarrow> check_result" where
  "result_of st msg = \<lparr>cr_status = st, cr_cached = JNull, cr_message = msg\<rparr>"

text \<open>
  The answer for a row that already holds the key; \<open>None\<close> is an exception of the JSON
  accessor on a snapshot that is not an object, which leaves the request unanswered.
\<close>

definition answer_row ::
  "(string \<Rightarrow> bool \<times> json) \<Rightarrow> string \<Rightarrow> idem_row \<Rightarrow> check_result option" where
  "answer_row parseJson requestHash row =
     (if i_hash row = requestHash
      then (case i_snapshot row of
              None \<Rightarrow> Some (result_of InProgress ''idempotency request is already in progress'')
            | Some text \<Rightarrow>
                (case parseJson text of
                   (parseSuccess, snapshot) \<Rightarrow>
                     (case jget snapshot ''response'' JNull of
                        None \<Rightarrow> None
                      | Some response \<Rightarrow>
                          if \<not> parseSuccess \<or> isNull response
                          then Some (result_of InProgress ''idempotency response is not ready'')
                          else Some \<lparr>cr_status = Replay, cr_cached = response, cr_message = []\<rparr>)))
      else Some (result_of Conflict ''idempotency key conflict''))"

definition checkDatabase ::
  "env \<Rightarrow> (string \<Rightarrow> bool \<times> json) \<Rightarrow> int \<Rightarrow> string \<Rightarrow> string \<Rightarrow> world
     \<Rightarrow> check_result option \<times> world" where
  "checkDatabase e parseJson ttlSeconds key requestHash w =
     (if key = [] then (Some (result_of Started []), w)
      else
        (case exec e (reserve_stmt key requestHash (clock e (tick w) + ttlSeconds * 1000000)) w of
           (Inl what, w1) \<Rightarrow> (Some (result_of CheckError what), w1)
         | (Inr affected, w1) \<Rightarrow>
             if affected > 0 then (Some (result_of Started []), w1)
             else
               (case mapper e (reads (find_live key (clock e (tick w1)))) w1 of
                  (Threw (Some what), w2) \<Rightarrow> (Some (result_of CheckError what), w2)
                | (Threw None, w2) \<Rightarrow>
                    (Some (result_of CheckError ''mapper construction failed''), w2)
                | (DbErr what, w2) \<Rightarrow> (Some (result_of CheckError what), w2)
                | (Ok [], w2) \<Rightarrow>
                    (Some (result_of CheckError ''idempotency key disappeared after conflict''), w2)
                | (Ok (row # _), w2) \<Rightarrow> (answer_row parseJson requestHash row, w2))))"

text \<open>\<open>checkAndSetStatus\<close> hands the result of \<open>checkDatabase\<close> on, once.\<close>

definition checkAndSetStatus ::
  "env \<Rightarrow> (string \<Rightarrow> bool \<times> json) \<Rightarrow> int \<Rightarrow> string \<Rightarrow> string \<Rightarrow> world
     \<Rightarrow> check_result option \<times> world" where
  "checkAndSetStatus e parseJson ttlSeconds key requestHash w =
     checkDatabase e parseJson ttlSeconds key requestHash w"

text \<open>The older interface: may the caller proceed, and with which cached response.\<close>

definition checkAndSet ::
  "env \<Rightarrow> (string \<Rightarrow> bool \<times> json) \<Rightarrow> int \<Rightarrow> string \<Rightarrow> string \<Rightarrow> world
     \<Rightarrow> (bool \<times> json) option \<times> world" where
  "checkAndSet e parseJson ttlSeconds key requestHash w =
     (case checkAndSetStatus e parseJson ttlSeconds key requestHash w of
        (None, w') \<Rightarrow> (None, w')
      | (Some r, w') \<Rightarrow>
          (Some (case cr_status r of
                   Started \<Rightarrow> (True, JNull)
                 | Replay \<Rightarrow> (True, cr_cached r)
                 | InProgress \<Rightarrow> (False, JNull)
                 | Conflict \<Rightarrow> (False, JNull)
                 | CheckError \<Rightarrow> (False, JNull)), w'))"

definition snapshot_text :: "(json \<Rightarrow> string) \<Rightarrow> string \<Rightarrow> json \<Rightarrow> string" where
  "snapshot_text toJson requestHash response =
     toJson (jobject [(''request_hash'', JString requestHash), (''response'', response)])"

definition updateResult ::
  "env \<Rightarrow> (json \<Rightarrow> string) \<Rightarrow> bool \<Rightarrow> string \<Rightarrow> string \<Rightarrow> json \<Rightarrow> world \<Rightarrow> bool \<times> world" where
  "updateResult e toJson redis key requestHash response w =
     (let cacheStr = snapshot_text toJson requestHash response
      in case mapper e (fill_stmt key requestHash cacheStr) w of
           (Ok rows, w1) \<Rightarrow>
             if rows = 0 then (False, w1)
             else if redis then (True, emit (RedisSetex (''idempotency:'' @ key) cacheStr) w1)
             else (True, w1)
         | (DbErr _, w1) \<Rightarrow> (False, w1)
         | (Threw _, w1) \<Rightarrow> (False, w1))"

definition clearReservation :: "env \<Rightarrow> string \<Rightarrow> string \<Rightarrow> world \<Rightarrow> bool \<times> world" where
  "clearReservation e key requestHash w =
     (if key = [] then (False, w)
      else
        (case mapper e (release_stmt key requestHash) w of
           (Ok _, w1) \<Rightarrow> (True, w1)
         | (DbErr _, w1) \<Rightarrow> (False, w1)
         | (Threw _, w1) \<Rightarrow> (False, w1)))"

definition purgeExpired :: "env \<Rightarrow> world \<Rightarrow> bool \<times> world" where
  "purgeExpired e w =
     (case exec e (purge_stmt (dbClock e (tick w))) w of
        (Inr _, w1) \<Rightarrow> (True, w1)
      | (Inl _, w1) \<Rightarrow> (False, w1))"

section \<open>The contract of the reservation statements\<close>

text \<open>
  The table as a map from keys to the hash that holds the key and the stored response.
  The locale states what the statements promise on that view; the lemmas in it are proved
  from the promises alone, over any sequence of statements on any keys.
\<close>

datatype key_op = Reserve string string int | Fill string string string | Release string string

locale reservations =
  fixes inv :: "'s \<Rightarrow> bool"
    and view :: "'s \<Rightarrow> string \<Rightarrow> (string \<times> string option) option"
    and step :: "key_op \<Rightarrow> 's \<Rightarrow> nat \<times> 's"
    and fit :: "string \<Rightarrow> string \<Rightarrow> bool"
  assumes inv_step: "inv s \<Longrightarrow> inv (snd (step op s))"
    and reserve_free: "inv s \<Longrightarrow> fit k h \<Longrightarrow> view s k = None \<Longrightarrow>
      fst (step (Reserve k h x) s) = 1 \<and>
      view (snd (step (Reserve k h x) s)) = (view s)(k \<mapsto> (h, None))"
    and reserve_held: "inv s \<Longrightarrow> \<not> fit k h \<or> view s k \<noteq> None \<Longrightarrow> step (Reserve k h x) s = (0, s)"
    and fill_view: "inv s \<Longrightarrow> view (snd (step (Fill k h y) s)) =
      (case view s k of
         Some (h', v) \<Rightarrow> if h' = h then (view s)(k \<mapsto> (h, Some y)) else view s
       | None \<Rightarrow> view s)"
    and release_view: "inv s \<Longrightarrow> view (snd (step (Release k h) s)) =
      (if view s k = Some (h, None) then (view s)(k := None) else view s)"
begin

text \<open>A stored response is never lost, and its hash never changes.\<close>

lemma completed_step:
  assumes "inv s" "view s k = Some (h, Some x)"
  shows "\<exists>y. view (snd (step op s)) k = Some (h, Some y)"
proof (cases op)
  case (Reserve k' h' x')
  then show ?thesis
    using assms reserve_free [OF assms(1), of k' h' x'] reserve_held [OF assms(1), of k' h' x']
    by (cases "fit k' h' \<and> view s k' = None") auto
next
  case (Fill k' h' y)
  then show ?thesis using assms fill_view [OF assms(1), of k' h' y] by (auto split: option.splits)
next
  case (Release k' h')
  then show ?thesis using assms release_view [OF assms(1), of k' h'] by auto
qed

lemma inv_run: "inv s \<Longrightarrow> inv (fold (\<lambda>op s. snd (step op s)) ops s)"
  by (induction ops arbitrary: s) (auto intro: inv_step)

lemma completed_run:
  assumes "inv s" "view s k = Some (h, Some x)"
  shows "\<exists>y. view (fold (\<lambda>op s. snd (step op s)) ops s) k = Some (h, Some y)"
  using assms
proof (induction ops arbitrary: s x)
  case Nil
  then show ?case by simp
next
  case (Cons op ops)
  obtain y where "view (snd (step op s)) k = Some (h, Some y)"
    using completed_step [OF Cons.prems] by blast
  with Cons.IH [OF inv_step [OF Cons.prems(1)] this] show ?case by simp
qed

lemma held_step:
  assumes "inv s" "view s k \<noteq> None" "\<forall>h. op \<noteq> Release k h"
  shows "view (snd (step op s)) k \<noteq> None"
proof (cases op)
  case (Reserve k' h' x')
  then show ?thesis
    using assms reserve_free [OF assms(1), of k' h' x'] reserve_held [OF assms(1), of k' h' x']
    by (cases "fit k' h' \<and> view s k' = None") auto
next
  case (Fill k' h' y)
  then show ?thesis using assms fill_view [OF assms(1), of k' h' y] by (auto split: option.splits)
next
  case (Release k' h')
  with assms(3) have "k' \<noteq> k" by auto
  with Release show ?thesis using assms release_view [OF assms(1), of k' h'] by auto
qed

text \<open>Once a key is held, no reservation of it succeeds until it is released.\<close>

lemma held_excludes:
  assumes "inv s" "view s k \<noteq> None" "\<forall>h. Release k h \<notin> set ops"
  shows "fst (step (Reserve k h x) (fold (\<lambda>op s. snd (step op s)) ops s)) = 0"
proof -
  have "view (fold (\<lambda>op s. snd (step op s)) ops s) k \<noteq> None"
    using assms
  proof (induction ops arbitrary: s)
    case Nil
    then show ?case by simp
  next
    case (Cons op ops)
    then have "view (snd (step op s)) k \<noteq> None" by (intro held_step) auto
    with Cons.IH [OF inv_step [OF Cons.prems(1)]] Cons.prems(3) show ?case by simp
  qed
  then show ?thesis using reserve_held [OF inv_run [OF assms(1)]] by simp
qed

end

text \<open>The statements on \<open>pay_idempotency\<close> as steps on the tables.\<close>

definition run_stmt :: "(tables \<Rightarrow> pg_error + (nat \<times> tables)) \<Rightarrow> tables \<Rightarrow> nat \<times> tables" where
  "run_stmt f t = (case f t of Inl _ \<Rightarrow> (0, t) | Inr r \<Rightarrow> r)"

fun key_step :: "key_op \<Rightarrow> tables \<Rightarrow> nat \<times> tables" where
  "key_step (Reserve k h x) t = run_stmt (reserve_stmt k h x) t"
| "key_step (Fill k h s) t = run_stmt (fill_stmt k h s) t"
| "key_step (Release k h) t = run_stmt (release_stmt k h) t"

definition key_view :: "tables \<Rightarrow> string \<Rightarrow> (string \<times> string option) option" where
  "key_view t k = map_option (\<lambda>r. (i_hash r, i_snapshot r)) (find (\<lambda>r. i_key r = k) (t_idem t))"

definition key_inv :: "tables \<Rightarrow> bool" where
  "key_inv t \<longleftrightarrow> keyed i_key (t_idem t)"

definition key_fit :: "string \<Rightarrow> string \<Rightarrow> bool" where
  "key_fit k h \<longleftrightarrow> fits 128 k \<and> fits 64 h"

lemmas idem_stmts = reserve_stmt_def fill_stmt_def release_stmt_def purge_stmt_def Let_def

lemma key_view_None: "key_view t k = None \<longleftrightarrow> k \<notin> i_key ` set (t_idem t)"
  by (simp add: key_view_def find_key_None)

lemma find_key: "find (\<lambda>r. i_key r = j) rs = Some r \<Longrightarrow> i_key r = j"
  by (auto simp: find_Some_iff)

lemma key_step_reserve:
  assumes "key_fit k h" "key_view t k = None"
  shows "key_step (Reserve k h x) t =
     (1, t\<lparr>t_idem := t_idem t @ [\<lparr>i_key = k, i_hash = h, i_snapshot = None, i_expire_at = Some x, i_owner_token = None\<rparr>]\<rparr>)"
  using assms by (simp add: key_view_None key_fit_def run_stmt_def reserve_stmt_def)

lemma key_view_reserve:
  assumes "key_fit k h" "key_view t k = None"
  shows "key_view (snd (key_step (Reserve k h x) t)) = (key_view t)(k \<mapsto> (h, None))"
proof
  fix j
  have k: "find (\<lambda>r. i_key r = k) (t_idem t) = None" using assms(2) by (simp add: key_view_def)
  show "key_view (snd (key_step (Reserve k h x) t)) j = ((key_view t)(k \<mapsto> (h, None))) j"
    unfolding key_step_reserve [OF assms]
    using k by (cases "find (\<lambda>r. i_key r = j) (t_idem t)") (auto simp: key_view_def find_append)
qed

lemma key_view_fill:
  "key_view (snd (key_step (Fill k h x) t)) j =
     (case key_view t j of
        Some (h', v) \<Rightarrow> if j = k \<and> h' = h then Some (h, Some x) else Some (h', v)
      | None \<Rightarrow> None)"
proof -
  have "find (\<lambda>r. i_key r = j) (update_where (\<lambda>r. i_key r = k \<and> i_hash r = h)
           (\<lambda>r. r\<lparr>i_snapshot := Some x\<rparr>) (t_idem t)) =
        map_option (\<lambda>r. if i_key r = k \<and> i_hash r = h then r\<lparr>i_snapshot := Some x\<rparr> else r)
          (find (\<lambda>r. i_key r = j) (t_idem t))"
    by (rule find_update_where) simp
  then show ?thesis
    by (cases "find (\<lambda>r. i_key r = j) (t_idem t)")
      (auto simp: key_view_def run_stmt_def fill_stmt_def Let_def dest: find_key)
qed

lemma key_view_release:
  assumes "key_inv t"
  shows "key_view (snd (key_step (Release k h) t)) j =
     (if j = k \<and> key_view t j = Some (h, None) then None else key_view t j)"
proof -
  let ?P = "\<lambda>r. i_key r = k \<and> i_hash r = h \<and> i_snapshot r = None"
  have "find (\<lambda>r. i_key r = j) (delete_where ?P (t_idem t)) =
        (case find (\<lambda>r. i_key r = j) (t_idem t) of None \<Rightarrow> None | Some r \<Rightarrow> if ?P r then None else Some r)"
    using assms unfolding key_inv_def by (rule find_delete_where)
  then show ?thesis
    by (cases "find (\<lambda>r. i_key r = j) (t_idem t)")
      (auto simp: key_view_def run_stmt_def release_stmt_def Let_def dest: find_key)
qed

declare key_step.simps [simp del]

interpretation idem: reservations key_inv key_view key_step key_fit
proof (unfold_locales, goal_cases)
  case (1 s op)
  then show ?case
    by (cases op) (auto simp: key_step.simps key_inv_def run_stmt_def idem_stmts keyed_append keyed_update_where
        keyed_delete_where)
next
  case (2 s k h x)
  then show ?case using key_step_reserve [OF 2(2,3)] key_view_reserve [OF 2(2,3)] by simp
next
  case (3 s k h x)
  then show ?case by (auto simp: key_step.simps key_view_None key_fit_def run_stmt_def reserve_stmt_def)
next
  case (4 s k h y)
  show ?case by (auto simp: fun_eq_iff key_view_fill split: option.splits)
next
  case (5 s k h)
  then show ?case by (auto simp: fun_eq_iff key_view_release)
qed

section \<open>Properties\<close>





lemma exec_reserve:
  assumes "exec e (reserve_stmt k h x) w = (Inr n, w')" "n > 0"
  shows "txn_of w = NoTxn \<Longrightarrow>
     key_view (others e (tick w) (tabs w)) k = None \<and> key_fit k h \<and>
     tabs w' = snd (key_step (Reserve k h x) (others e (tick w) (tabs w)))"
  using assms
  by (auto simp: exec_def Let_def settle_others_def next_tick_def reserve_stmt_def key_view_None
      key_fit_def run_stmt_def key_step.simps split: option.splits if_splits)

text \<open>
  \<open>Started\<close> means the key was won. Whatever fails and whatever other requests do, if
  \<open>checkDatabase\<close> answers \<open>Started\<close> for a non-empty key then no row held the key when the
  insert ran, and afterwards the key is held by this request's hash with no response yet;
  nothing else in the tables changed.
\<close>

lemma checkDatabase_started:
  assumes "checkDatabase e parseJson ttl k h w = (Some r, w')" "cr_status r = Started"
    and "k \<noteq> []" "txn_of w = NoTxn"
  shows "let t = others e (tick w) (tabs w)
         in key_view t k = None \<and> key_view (tabs w') = (key_view t)(k \<mapsto> (h, None)) \<and>
            tabs w' = t\<lparr>t_idem := t_idem (tabs w')\<rparr>"
proof -
  let ?x = "clock e (tick w) + ttl * 1000000"
  let ?t = "others e (tick w) (tabs w)"
  obtain n where n: "exec e (reserve_stmt k h ?x) w = (Inr n, w')" "n > 0"
    using assms(1-3)
    by (auto simp: checkDatabase_def result_of_def answer_row_def
        split: prod.splits sum.splits if_splits dbres.splits option.splits list.splits)
  from exec_reserve [OF n assms(4)]
  have v: "key_view ?t k = None" "key_fit k h" "tabs w' = snd (key_step (Reserve k h ?x) ?t)" by simp_all
  then show ?thesis
    using key_view_reserve [OF v(2,1), of ?x] key_step_reserve [OF v(2,1), of ?x] by (simp add: Let_def)
qed

lemma filter_keyed:
  assumes "keyed key rs" "r \<in> set rs" "key r = k"
  shows "filter (\<lambda>s. key s = k \<and> P s) rs = (if P r then [r] else [])"
proof -
  have "filter (\<lambda>s. key s = k \<and> P s) rs = filter P (filter (\<lambda>s. key s = k) rs)"
    by (simp add: conj_commute)
  with keyed_filter_key [OF assms(1,2)] assms(3) show ?thesis by simp
qed

text \<open>\<open>checkDatabase\<close> in a quiet environment, for a free key and for a held one.\<close>

lemma quiet_check_free:
  assumes "quiet e" "txn_of w = NoTxn" "k \<noteq> []" "key_fit k h" "key_view (tabs w) k = None"
  shows "checkDatabase e parseJson ttl k h w =
     (Some (result_of Started []),
      (next_tick w)\<lparr>tabs := snd (key_step (Reserve k h (clock e (tick w) + ttl * 1000000)) (tabs w))\<rparr>)"
proof -
  let ?x = "clock e (tick w) + ttl * 1000000"
  have "reserve_stmt k h ?x (tabs w) = Inr (1, snd (key_step (Reserve k h ?x) (tabs w)))"
    using assms(4,5) by (simp add: key_step.simps run_stmt_def reserve_stmt_def key_fit_def key_view_None)
  with quiet_exec [OF assms(1), of w "reserve_stmt k h ?x"] assms(2,3) show ?thesis
    by (simp add: checkDatabase_def)
qed

lemma quiet_check_held:
  assumes "quiet e" "txn_of w = NoTxn" "k \<noteq> []" "key_fit k h"
    and "key_inv (tabs w)" "r \<in> set (t_idem (tabs w))" "i_key r = k"
  shows "checkDatabase e parseJson ttl k h w =
     (if live_at (clock e (Suc (tick w))) r then answer_row parseJson h r
      else Some (result_of CheckError ''idempotency key disappeared after conflict''),
      next_tick (next_tick w))"
proof -
  let ?x = "clock e (tick w) + ttl * 1000000"
  let ?n = "clock e (Suc (tick w))"
  have "reserve_stmt k h ?x (tabs w) = Inr (0, tabs w)"
    using assms(4,6,7) by (auto simp: reserve_stmt_def key_fit_def)
  with quiet_exec [OF assms(1), of w "reserve_stmt k h ?x"] assms(2)
  have e: "exec e (reserve_stmt k h ?x) w = (Inr 0, next_tick w)" by (simp add: next_tick_def)
  have "reads (find_live k ?n) (tabs w) = Inr (if live_at ?n r then [r] else [], tabs w)"
    using filter_keyed [OF assms(5) [unfolded key_inv_def] assms(6,7)]
    by (simp add: reads_def find_live_def)
  with quiet_mapper [OF assms(1), of "next_tick w" "reads (find_live k ?n)"
      "if live_at ?n r then [r] else []" "tabs w"] assms(2)
  have "mapper e (reads (find_live k ?n)) (next_tick w) =
      (Ok (if live_at ?n r then [r] else []), next_tick (next_tick w))" by (simp add: next_tick_def)
  with e assms(3) show ?thesis by (simp add: checkDatabase_def next_tick_def)
qed

lemma quiet_updateResult:
  assumes "quiet e" "txn_of w = NoTxn" "key_inv (tabs w)" "r \<in> set (t_idem (tabs w))"
    and "i_key r = k" "i_hash r = h"
  shows "\<exists>w'. updateResult e toJson redis k h response w = (True, w') \<and> txn_of w' = NoTxn \<and>
     tick w' = Suc (tick w) \<and> key_inv (tabs w') \<and>
     t_orders (tabs w') = t_orders (tabs w) \<and> t_payments (tabs w') = t_payments (tabs w) \<and>
     r\<lparr>i_snapshot := Some (snapshot_text toJson h response)\<rparr> \<in> set (t_idem (tabs w'))"
proof -
  let ?s = "snapshot_text toJson h response"
  let ?P = "\<lambda>r. i_key r = k \<and> i_hash r = h"
  let ?t = "tabs w\<lparr>t_idem := update_where ?P (\<lambda>r. r\<lparr>i_snapshot := Some ?s\<rparr>) (t_idem (tabs w))\<rparr>"
  have "filter ?P (t_idem (tabs w)) = [r]"
    using filter_keyed [OF assms(3) [unfolded key_inv_def] assms(4,5)] assms(6) by simp
  then have f: "fill_stmt k h ?s (tabs w) = Inr (1, ?t)" by (simp add: fill_stmt_def Let_def)
  have t: "key_inv ?t" "r\<lparr>i_snapshot := Some ?s\<rparr> \<in> set (t_idem ?t)"
    using assms(3-6) by (auto simp: key_inv_def keyed_update_where set_update_where image_iff)
  from quiet_mapper [OF assms(1), of w "fill_stmt k h ?s"] f assms(2)
  have "mapper e (fill_stmt k h ?s) w = (Ok 1, (next_tick w)\<lparr>tabs := ?t\<rparr>)" by simp
  with t assms(2) show ?thesis by (auto simp: updateResult_def Let_def emit_def next_tick_def)
qed

text \<open>
  A completed request replays. When nothing fails and the reservation has not expired,
  the first check of a fresh key answers \<open>Started\<close>, storing the response succeeds, a second
  check with the same hash replays exactly the stored response, and a check of the key with
  another hash is a conflict; neither of these checks changes the tables. The JSON reader
  reads back what the writer wrote (hypothesis \<open>codec\<close>).
\<close>

lemma checkAndSet_replays:
  assumes "quiet e" "txn_of w = NoTxn" "key_inv (tabs w)" "k \<noteq> []"
    and "key_fit k h" "key_view (tabs w) k = None" "response \<noteq> JNull"
    and unexpired: "\<forall>n. clock e n < clock e (tick w) + ttl * 1000000"
    and codec: "parseJson (snapshot_text toJson h response) =
      (True, jobject [(''request_hash'', JString h), (''response'', response)])"
    and other: "h' \<noteq> h" "key_fit k h'"
  shows "\<exists>w1 w2 w3 w4.
     checkAndSetStatus e parseJson ttl k h w = (Some (result_of Started []), w1) \<and>
     updateResult e toJson redis k h response w1 = (True, w2) \<and>
     checkAndSetStatus e parseJson ttl k h w2 =
       (Some \<lparr>cr_status = Replay, cr_cached = response, cr_message = []\<rparr>, w3) \<and>
     checkAndSetStatus e parseJson ttl k h' w3 = (Some (result_of Conflict ''idempotency key conflict''), w4) \<and>
     tabs w3 = tabs w2 \<and> tabs w4 = tabs w2"
proof -
  let ?x = "clock e (tick w) + ttl * 1000000"
  let ?t1 = "snd (key_step (Reserve k h ?x) (tabs w))"
  let ?w1 = "(next_tick w)\<lparr>tabs := ?t1\<rparr>"
  let ?r = "\<lparr>i_key = k, i_hash = h, i_snapshot = None, i_expire_at = Some ?x, i_owner_token = None\<rparr>"
  let ?r2 = "?r\<lparr>i_snapshot := Some (snapshot_text toJson h response)\<rparr>"
  have c1: "checkAndSetStatus e parseJson ttl k h w = (Some (result_of Started []), ?w1)"
    using quiet_check_free [OF assms(1,2,4,5,6)] by (simp add: checkAndSetStatus_def)
  have w1: "txn_of ?w1 = NoTxn" "key_inv (tabs ?w1)" "?r \<in> set (t_idem (tabs ?w1))"
    using assms(2) idem.inv_step [OF assms(3), of "Reserve k h ?x"]
    by (simp_all add: key_step_reserve [OF assms(5,6)])
  from quiet_updateResult [OF assms(1) w1, of k h toJson redis response]
  obtain w2 where w2: "updateResult e toJson redis k h response ?w1 = (True, w2)" "txn_of w2 = NoTxn"
    "key_inv (tabs w2)" "?r2 \<in> set (t_idem (tabs w2))" by auto
  let ?w3 = "next_tick (next_tick w2)"
  have live: "live_at (clock e n) ?r2" for n using unexpired by (simp add: live_at_def)
  have "answer_row parseJson h ?r2 = Some \<lparr>cr_status = Replay, cr_cached = response, cr_message = []\<rparr>"
    using codec assms(7) by (cases response) (simp_all add: answer_row_def jobject_def)
  then have c3: "checkAndSetStatus e parseJson ttl k h w2 =
      (Some \<lparr>cr_status = Replay, cr_cached = response, cr_message = []\<rparr>, ?w3)"
    using quiet_check_held [OF assms(1) w2(2) assms(4,5) w2(3,4)] live by (simp add: checkAndSetStatus_def)
  have "checkAndSetStatus e parseJson ttl k h' ?w3 =
      (Some (result_of Conflict ''idempotency key conflict''), next_tick (next_tick ?w3))"
    using quiet_check_held [OF assms(1) _ assms(4) other(2), of ?w3 ?r2] w2 live other(1)
    by (simp add: checkAndSetStatus_def answer_row_def)
  with c1 w2(1) c3 show ?thesis by (metis next_tick_simps(1))
qed

text \<open>
  An expired reservation blocks its key until it is purged. The insert still
  conflicts with the expired row while the lookup no longer sees it, so the check answers
  an error, whatever the hash, and changes nothing; \<open>purgeExpired\<close> removes the row and the
  next check answers \<open>Started\<close>.
\<close>

lemma expired_key_blocked_until_purge:
  assumes "quiet e" "txn_of w = NoTxn" "key_inv (tabs w)" "k \<noteq> []" "key_fit k h"
    and "r \<in> set (t_idem (tabs w))" "i_key r = k" "i_expire_at r = Some x"
    and "\<forall>n. x \<le> clock e n" "\<forall>n. x < dbClock e n"
  shows "checkAndSetStatus e parseJson ttl k h w =
       (Some (result_of CheckError ''idempotency key disappeared after conflict''), next_tick (next_tick w)) \<and>
     (\<exists>w1 w2. purgeExpired e w = (True, w1) \<and>
        checkAndSetStatus e parseJson ttl k h w1 = (Some (result_of Started []), w2))"
proof -
  let ?P = "\<lambda>r. case i_expire_at r of None \<Rightarrow> False | Some x \<Rightarrow> x < dbClock e (tick w)"
  let ?t = "tabs w\<lparr>t_idem := delete_where ?P (t_idem (tabs w))\<rparr>"
  let ?w1 = "(next_tick w)\<lparr>tabs := ?t\<rparr>"
  have "\<not> live_at (clock e (Suc (tick w))) r" using assms(8,9) by (auto simp: live_at_def not_less)
  then have err: "checkAndSetStatus e parseJson ttl k h w =
      (Some (result_of CheckError ''idempotency key disappeared after conflict''), next_tick (next_tick w))"
    using quiet_check_held [OF assms(1,2,4,5,3,6,7)] by (simp add: checkAndSetStatus_def)
  have "find (\<lambda>r. i_key r = k) (t_idem (tabs w)) = Some r"
    using assms(3,6,7) by (simp add: find_key_Some key_inv_def)
  then have gone: "key_view ?t k = None"
    using find_delete_where [OF assms(3) [unfolded key_inv_def], of k ?P] assms(8,10)
    by (simp add: key_view_def)
  have "purge_stmt (dbClock e (tick w)) (tabs w) = Inr (length (filter ?P (t_idem (tabs w))), ?t)"
    by (simp add: purge_stmt_def Let_def)
  with quiet_exec [OF assms(1), of w "purge_stmt (dbClock e (tick w))"] assms(2)
  have "purgeExpired e w = (True, ?w1)" by (simp add: purgeExpired_def)
  moreover have "\<exists>w2. checkAndSetStatus e parseJson ttl k h ?w1 = (Some (result_of Started []), w2)"
    using quiet_check_free [OF assms(1) _ assms(4,5), of ?w1] gone assms(2)
    by (simp add: checkAndSetStatus_def)
  ultimately show ?thesis using err by blast
qed

section \<open>The schema's invariant\<close>

lemma wf_idem: "wf_tables t \<Longrightarrow> keyed i_key rs \<Longrightarrow> wf_tables (t\<lparr>t_idem := rs\<rparr>)"
  by (simp add: wf_tables_def)

lemma wf_keyed_idem: "wf_tables t \<Longrightarrow> keyed i_key (t_idem t)"
  by (simp add: wf_tables_def)

interpretation reserve: stmt_inv wf_tables "reserve_stmt k h x" for k h x
  by unfold_locales
    (auto simp: reserve_stmt_def keyed_append wf_keyed_idem intro!: wf_idem split: if_splits)

interpretation fill: stmt_inv wf_tables "fill_stmt k h s" for k h s
  by unfold_locales (auto simp: fill_stmt_def Let_def keyed_update_where wf_keyed_idem intro!: wf_idem)

interpretation release: stmt_inv wf_tables "release_stmt k h" for k h
  by unfold_locales (auto simp: release_stmt_def Let_def keyed_delete_where wf_keyed_idem intro!: wf_idem)

interpretation purge: stmt_inv wf_tables "purge_stmt now" for now
  by unfold_locales (auto simp: purge_stmt_def Let_def keyed_delete_where wf_keyed_idem intro!: wf_idem)

lemmas idem_holds = reserve.exec_holdsD fill.mapper_holdsD release.mapper_holdsD purge.exec_holdsD
  read_stmt.mapper_holdsD

lemma checkDatabase_holds:
  assumes "stable wf_tables e" "holds wf_tables w"
  shows "holds wf_tables (snd (checkDatabase e parseJson ttl k h w))"
  using assms
  by (auto simp: checkDatabase_def split: prod.splits sum.splits if_splits dbres.splits option.splits
      list.splits dest!: idem_holds)

lemma updateResult_holds:
  assumes "stable wf_tables e" "holds wf_tables w"
  shows "holds wf_tables (snd (updateResult e toJson redis k h response w))"
  using assms
  by (auto simp: updateResult_def Let_def split: prod.splits dbres.splits dest!: idem_holds)

lemma clearReservation_holds:
  assumes "stable wf_tables e" "holds wf_tables w"
  shows "holds wf_tables (snd (clearReservation e k h w))"
  using assms
  by (auto simp: clearReservation_def split: prod.splits dbres.splits dest!: idem_holds)

end
