(* ===== verification/Pay_Service.thy ===== *)
theory Pay_Service
  imports Pay_Amount Pay_Url Pay_Time Pay_Idempotency
begin

text \<open>
  What the flows of \<open>services/PaymentService.cc\<close> share: the reply of a service, the code
  outside the repository that they call (a parameter record), the file-local helpers at the
  head of the file, and the statements on \<open>pay_order\<close> and \<open>pay_payment\<close> that move a row
  from one status to another.

  A flow is a function from a world to the reply it hands to its callback and the world
  after it; the reply \<open>None\<close> means the callback is never called, because a channel never
  answers or a JSON accessor throws inside an asynchronous callback. The asynchronous
  steps of one flow run in the order the continuations have; other requests act through
  the environment between any two of them.
\<close>

section \<open>Outside code and replies\<close>

text \<open>
  A payment channel: the answer to the call made at a moment, a result and an error text
  (empty for none); \<open>None\<close> when it never answers.
\<close>

record channel =
  ch_createQRPayment :: "nat \<Rightarrow> json \<Rightarrow> (json \<times> string) option"
  ch_queryPayment :: "nat \<Rightarrow> string \<Rightarrow> (json \<times> string) option"
  ch_closeOrder :: "nat \<Rightarrow> string \<Rightarrow> (json \<times> string) option"
  ch_refund :: "nat \<Rightarrow> json \<Rightarrow> (json \<times> string) option"
  ch_queryRefund :: "nat \<Rightarrow> string \<Rightarrow> (json \<times> string) option"

record sys =
  toJsonString :: "json \<Rightarrow> string"
  parseJson :: "string \<Rightarrow> bool \<times> json"
  getSha256 :: "string \<Rightarrow> string"
  localStamp :: "nat \<Rightarrow> string"
  random8 :: "nat \<Rightarrow> nat"
  getUuid :: "nat \<Rightarrow> string"
  findChannel :: "string \<Rightarrow> channel option"
  hasDb :: bool
  hasRedis :: bool
  ttlSeconds :: int
  sandboxBuyerId :: "string option"

text \<open>A channel that never answers.\<close>

definition silent_channel :: channel where
  "silent_channel = \<lparr>ch_createQRPayment = \<lambda>_ _. None, ch_queryPayment = \<lambda>_ _. None,
     ch_closeOrder = \<lambda>_ _. None, ch_refund = \<lambda>_ _. None, ch_queryRefund = \<lambda>_ _. None\<rparr>"

text \<open>A concrete instance: constant serialisation and hash, no channel answers.\<close>

definition plain_sys :: sys where
  "plain_sys = \<lparr>toJsonString = \<lambda>_. ''{}'', parseJson = \<lambda>_. (False, JNull), getSha256 = \<lambda>_. ''h'',
     localStamp = \<lambda>_. ''20250101000000'', random8 = \<lambda>n. n, getUuid = \<lambda>n. ''u'' @ show_nat n, findChannel = \<lambda>_. None, hasDb = True,
     hasRedis = False, ttlSeconds = 60, sandboxBuyerId = None\<rparr>"

datatype ecode = NoError | PayError int string | IoError | InvalidArgument | SystemError int

type_synonym reply = "json \<times> ecode"

definition pay_error :: "int \<Rightarrow> string \<Rightarrow> string \<Rightarrow> reply" where
  "pay_error code message text =
     (jobject [(''code'', JInt code), (''message'', JString message)], PayError code text)"

definition dbErrorResponse :: "string \<Rightarrow> json" where
  "dbErrorResponse what =
     jobject [(''code'', JInt 1003), (''message'', JString (''Database error: '' @ what))]"

definition reportMapperFailure :: "string \<Rightarrow> reply" where
  "reportMapperFailure what = (dbErrorResponse what, IoError)"

text \<open>The text a \<open>catch\<close> pair reports for an exception: \<open>e.what()\<close>, or a fixed one.\<close>

definition what_of :: "string \<Rightarrow> string option \<Rightarrow> string" where
  "what_of unknown thrown = (case thrown of Some what \<Rightarrow> what | None \<Rightarrow> unknown)"

section \<open>File-local helpers\<close>

definition pad8 :: "string \<Rightarrow> string" where
  "pad8 s = replicate (8 - length s) CHR ''0'' @ s"

definition generatePaymentNoValue :: "sys \<Rightarrow> nat \<Rightarrow> string" where
  "generatePaymentNoValue S now = ''PAY'' @ localStamp S now @ pad8 (show_nat (random8 S now))"

definition reconcileAmountProblem :: "int \<Rightarrow> string \<Rightarrow> string" where
  "reconcileAmountProblem answerTotalFen paymentAmount =
     (case parseAmountToFen paymentAmount of
        None \<Rightarrow> ''payment amount '' @ [CHR 0x27] @ paymentAmount @ [CHR 0x27] @ '' is not a usable amount''
      | Some paymentTotalFen \<Rightarrow>
          if answerTotalFen \<le> 0
          then ''channel answer carried no amount while the payment asks for '' @
               show_int paymentTotalFen @ '' fen''
          else if answerTotalFen \<noteq> paymentTotalFen
          then ''amount mismatch: channel answer '' @ show_int answerTotalFen @ '' fen, payment row '' @
               show_int paymentTotalFen @ '' fen''
          else [])"

definition orderStatusAfterRefundCoverage :: "string \<Rightarrow> string \<Rightarrow> int \<Rightarrow> string" where
  "orderStatusAfterRefundCoverage mappedOrderStatus orderAmount settledRefundFen =
     (let orderTotalFen = (case parseAmountToFen orderAmount of None \<Rightarrow> 0 | Some fen \<Rightarrow> fen)
      in resolveRefundedOrderStatus mappedOrderStatus settledRefundFen orderTotalFen)"

definition find_ledger :: "string \<Rightarrow> string \<Rightarrow> string option \<Rightarrow> tables \<Rightarrow> pg_error + ledger_row list" where
  "find_ledger orderNo entryType paymentNo t =
     Inr (take 1 (filter (\<lambda>r. l_order_no r = orderNo \<and> l_entry_type r = entryType \<and> l_payment_no r = paymentNo)
                         (t_ledger t)))"

text \<open>The lambda \<open>insertRow\<close>: every outcome is only logged.\<close>

definition insertRow :: "env \<Rightarrow> int \<Rightarrow> string \<Rightarrow> string \<Rightarrow> string \<Rightarrow> string \<Rightarrow> world \<Rightarrow> world" where
  "insertRow e userId orderNo paymentNo entryType amount w =
     snd (mapper e (insert_ledger
       \<lparr>l_user_id = userId, l_order_no = orderNo,
        l_payment_no = (if paymentNo = [] then None else Some paymentNo),
        l_entry_type = entryType, l_amount = amount, l_created_at = clock e (tick w)\<rparr>) w)"

definition insertLedgerEntry ::
  "env \<Rightarrow> bool \<Rightarrow> int \<Rightarrow> string \<Rightarrow> string \<Rightarrow> string \<Rightarrow> string \<Rightarrow> world \<Rightarrow> world" where
  "insertLedgerEntry e client userId orderNo paymentNo entryType amount w =
     (if \<not> client then w
      else if orderNo = [] \<or> entryType = [] then insertRow e userId orderNo paymentNo entryType amount w
      else
        (case mapper e (reads (find_ledger orderNo entryType
                 (if paymentNo = [] then None else Some paymentNo))) w of
           (Ok rows, w1) \<Rightarrow>
             if rows = [] then insertRow e userId orderNo paymentNo entryType amount w1 else w1
         | (DbErr _, w1) \<Rightarrow> w1
         | (Threw _, w1) \<Rightarrow> w1))"

definition kNoPayableCode :: string where
  "kNoPayableCode = ''WeChat response carries neither code_url nor prepay_id''"

fun payableText :: "json \<Rightarrow> bool" where
  "payableText (JString s) = (s \<noteq> [])"
| "payableText _ = False"

text \<open>\<open>channelResultError\<close>: the empty text for an accepted transaction; \<open>None\<close>: an accessor throws.\<close>

definition alipayResultError :: "json \<Rightarrow> string option" where
  "alipayResultError result =
     (case jstr result ''code'' [] of
        None \<Rightarrow> None
      | Some code \<Rightarrow>
          if code = ''10000'' then Some []
          else
            (case jstr result ''sub_msg'' [] of
               None \<Rightarrow> None
             | Some sub \<Rightarrow>
                 (case (if sub = [] then jstr result ''msg'' [] else Some sub) of
                    None \<Rightarrow> None
                  | Some detail \<Rightarrow>
                      Some (if detail = [] then ''Alipay error: code '' @ code
                            else ''Alipay error: '' @ detail))))"

definition wechatResultError :: "json \<Rightarrow> string option" where
  "wechatResultError result =
     (case (jget result ''code_url'' (JString []), jget result ''prepay_id'' (JString [])) of
        (Some codeUrl, Some prepayId) \<Rightarrow>
          if payableText codeUrl \<or> payableText prepayId then Some []
          else
            (case jstr result ''code'' [] of
               None \<Rightarrow> None
             | Some code \<Rightarrow>
                 if code = [] then Some kNoPayableCode
                 else map_option (\<lambda>msg. ''WeChat error: '' @ code @ '' '' @ msg) (jstr result ''message'' []))
      | _ \<Rightarrow> None)"

definition channelResultError :: "string \<Rightarrow> json \<Rightarrow> string option" where
  "channelResultError channel result =
     (if channel = ''alipay'' then alipayResultError result
      else if channel = ''wechat'' then wechatResultError result
      else Some [])"

fun qrLetters :: "string \<Rightarrow> string option" where
  "qrLetters [] = Some []"
| "qrLetters (c # cs) =
     (if is_upper c then map_option (\<lambda>r. c # r) (qrLetters cs)
      else if is_lower c then map_option (\<lambda>r. char_of (byte c - byte CHR ''a'' + byte CHR ''A'') # r) (qrLetters cs)
      else None)"

text \<open>\<open>normalizeQrCurrency\<close>; \<open>None\<close> is \<open>valid = false\<close>, when the result is the empty text.\<close>

definition normalizeQrCurrency :: "string \<Rightarrow> string option" where
  "normalizeQrCurrency currency = (if length currency \<noteq> 3 then None else qrLetters currency)"

definition attemptCertainlyNotCreated :: "string \<Rightarrow> bool" where
  "attemptCertainlyNotCreated failure =
     (if starts_with ''Alipay error: '' failure \<or> starts_with ''WeChat error: '' failure then True
      else if starts_with ''HTTP 4'' failure \<and> find_sub ''no error envelope'' failure = None then True
      else if failure = kNoPayableCode then False
      else \<not> (starts_with ''HTTP '' failure \<or> starts_with ''http request'' failure \<or>
              failure = ''invalid json response''))"

section \<open>Status statements\<close>

definition update_payments ::
  "(payment_row \<Rightarrow> bool) \<Rightarrow> (payment_row \<Rightarrow> payment_row) \<Rightarrow> tables \<Rightarrow> pg_error + (nat \<times> tables)" where
  "update_payments P f t =
     Inr (length (filter P (t_payments t)), t\<lparr>t_payments := update_where P f (t_payments t)\<rparr>)"

definition update_orders ::
  "(order_row \<Rightarrow> bool) \<Rightarrow> (order_row \<Rightarrow> order_row) \<Rightarrow> tables \<Rightarrow> pg_error + (nat \<times> tables)" where
  "update_orders P f t =
     Inr (length (filter P (t_orders t)), t\<lparr>t_orders := update_where P f (t_orders t)\<rparr>)"

text \<open>An attempt that no door has settled yet; the order statuses a promotion may replace.\<close>

definition open_attempt :: "string \<Rightarrow> payment_row \<Rightarrow> bool" where
  "open_attempt pn r \<longleftrightarrow> p_payment_no r = pn \<and> p_status r \<in> {''INIT'', ''PROCESSING''}"

definition open_order :: "string \<Rightarrow> order_row \<Rightarrow> bool" where
  "open_order on r \<longleftrightarrow> o_order_no r = on \<and> o_status r \<in> {''CREATED'', ''PAYING''}"

text \<open>The guarded \<open>updateBy\<close> writes of an accepted and of a refused attempt.\<close>

definition promote_payment :: "string \<Rightarrow> string \<Rightarrow> tables \<Rightarrow> pg_error + (nat \<times> tables)" where
  "promote_payment pn payload =
     update_payments (open_attempt pn) (\<lambda>r. r\<lparr>p_status := ''PROCESSING'', p_response_payload := Some payload\<rparr>)"

definition promote_order :: "string \<Rightarrow> tables \<Rightarrow> pg_error + (nat \<times> tables)" where
  "promote_order on = update_orders (open_order on) (\<lambda>r. r\<lparr>o_status := ''PAYING''\<rparr>)"

definition close_attempt :: "string \<Rightarrow> string \<Rightarrow> tables \<Rightarrow> pg_error + (nat \<times> tables)" where
  "close_attempt pn payload =
     update_payments (open_attempt pn) (\<lambda>r. r\<lparr>p_status := ''FAIL'', p_response_payload := Some payload\<rparr>)"

text \<open>The unguarded writes by key of \<open>bookRefusedAttempt\<close>.\<close>

definition fail_payment :: "string \<Rightarrow> string \<Rightarrow> tables \<Rightarrow> pg_error + (nat \<times> tables)" where
  "fail_payment pn payload =
     update_payments (\<lambda>r. p_payment_no r = pn) (\<lambda>r. r\<lparr>p_status := ''FAIL'', p_response_payload := Some payload\<rparr>)"

definition fail_order :: "string \<Rightarrow> tables \<Rightarrow> pg_error + (nat \<times> tables)" where
  "fail_order on = update_orders (\<lambda>r. o_order_no r = on) (\<lambda>r. r\<lparr>o_status := ''FAILED''\<rparr>)"

definition select_payments :: "(payment_row \<Rightarrow> bool) \<Rightarrow> tables \<Rightarrow> pg_error + payment_row list" where
  "select_payments P t = Inr (filter P (t_payments t))"

definition select_orders :: "(order_row \<Rightarrow> bool) \<Rightarrow> tables \<Rightarrow> pg_error + order_row list" where
  "select_orders P t = Inr (filter P (t_orders t))"

text \<open>
  \<open>bookRefusedAttempt\<close>: \<open>findOne\<close> raises unless exactly one row matches; every failure
  ends in \<open>done\<close>, which is the caller's reply, so only the world changes.
\<close>

definition bookRefusedOrder :: "env \<Rightarrow> string \<Rightarrow> world \<Rightarrow> world" where
  "bookRefusedOrder e orderNo w =
     (case mapper e (reads (select_orders (\<lambda>r. o_order_no r = orderNo))) w of
        (Ok [order], w1) \<Rightarrow> snd (mapper e (fail_order (o_order_no order)) w1)
      | (_, w1) \<Rightarrow> w1)"

definition bookRefusedAttempt :: "env \<Rightarrow> bool \<Rightarrow> string \<Rightarrow> string \<Rightarrow> string \<Rightarrow> world \<Rightarrow> world" where
  "bookRefusedAttempt e client paymentNo orderNo errPayload w =
     (if \<not> client then w
      else
        (case mapper e (reads (select_payments (\<lambda>r. p_payment_no r = paymentNo))) w of
           (Ok [payment], w1) \<Rightarrow>
             (case mapper e (fail_payment (p_payment_no payment) errPayload) w1 of
                (Ok _, w2) \<Rightarrow> bookRefusedOrder e orderNo w2
              | (_, w2) \<Rightarrow> w2)
         | (_, w1) \<Rightarrow> w1))"

section \<open>What the statements keep\<close>

lemma wf_update_payments:
  assumes f: "\<And>r. p_payment_no (f r) = p_payment_no r \<and> p_order_no (f r) = p_order_no r"
    and wf: "wf_tables t" and u: "update_payments P f t = Inr (a, t')"
  shows "wf_tables t'"
proof -
  have "t' = t\<lparr>t_payments := update_where P f (t_payments t)\<rparr>" using u by (simp add: update_payments_def)
  with wf f show ?thesis
    by (simp add: wf_tables_def keyed_update_where keys_update_where)
qed

lemma wf_update_orders:
  assumes f: "\<And>r. o_order_no (f r) = o_order_no r" and wf: "wf_tables t"
    and u: "update_orders P f t = Inr (a, t')"
  shows "wf_tables t'"
proof -
  have "t' = t\<lparr>t_orders := update_where P f (t_orders t)\<rparr>" using u by (simp add: update_orders_def)
  with wf f show ?thesis by (simp add: wf_tables_def keyed_update_where keys_update_where)
qed

text \<open>
  The rows that nothing in these flows may change: of the given rows, the payments that
  are no longer open and the orders past \<open>PAYING\<close> are still in the tables as they were.
\<close>

definition books_kept :: "payment_row set \<Rightarrow> order_row set \<Rightarrow> tables \<Rightarrow> bool" where
  "books_kept ps os t \<longleftrightarrow>
     (\<forall>r \<in> ps. p_status r \<notin> {''INIT'', ''PROCESSING''} \<longrightarrow> r \<in> set (t_payments t)) \<and>
     (\<forall>r \<in> os. o_status r \<notin> {''CREATED'', ''PAYING''} \<longrightarrow> r \<in> set (t_orders t))"

lemma kept_update: "r \<in> set rs \<Longrightarrow> \<not> P r \<Longrightarrow> r \<in> set (update_where P f rs)"
  by (force simp: set_update_where)

text \<open>
  The invariant of a flow under an idempotency key: kept by the statements of the
  idempotency service.
\<close>

locale idem_inv =
  fixes I :: "tables \<Rightarrow> bool"
  assumes reserve_keeps: "I t \<Longrightarrow> reserve_stmt k h x t = Inr (n, t') \<Longrightarrow> I t'"
    and fill_keeps: "I t \<Longrightarrow> fill_stmt k h s t = Inr (n, t') \<Longrightarrow> I t'"
    and release_keeps: "I t \<Longrightarrow> release_stmt k h t = Inr (n, t') \<Longrightarrow> I t'"
begin

sublocale resv: stmt_inv I "reserve_stmt k h x" for k h x
  by unfold_locales (rule reserve_keeps)

sublocale filled: stmt_inv I "fill_stmt k h s" for k h s
  by unfold_locales (rule fill_keeps)

sublocale releas: stmt_inv I "release_stmt k h" for k h
  by unfold_locales (rule release_keeps)

lemmas idem_holds = resv.exec_holdsD filled.mapper_holdsD releas.mapper_holdsD read_stmt.mapper_holdsD

lemma check_holds:
  "checkAndSetStatus e parse ttl k h w = (r, w') \<Longrightarrow> stable I e \<Longrightarrow> holds I w \<Longrightarrow> holds I w'"
  by (auto simp: checkAndSetStatus_def checkDatabase_def dest!: idem_holds
      split: prod.splits sum.splits if_splits dbres.splits option.splits list.splits)

lemma check_set_holds:
  "checkAndSet e parse ttl k h w = (r, w') \<Longrightarrow> stable I e \<Longrightarrow> holds I w \<Longrightarrow> holds I w'"
  by (auto simp: checkAndSet_def dest: check_holds split: prod.splits option.splits)

lemma update_holds:
  "updateResult e toJ redis k h response w = (b, w') \<Longrightarrow> stable I e \<Longrightarrow> holds I w \<Longrightarrow> holds I w'"
  by (auto simp: updateResult_def Let_def dest!: idem_holds split: prod.splits dbres.splits if_splits)

lemma clear_holds:
  "clearReservation e k h w = (b, w') \<Longrightarrow> stable I e \<Longrightarrow> holds I w \<Longrightarrow> holds I w'"
  by (auto simp: clearReservation_def dest!: idem_holds split: prod.splits dbres.splits if_splits)

end

text \<open>
  The invariant of a booking flow: kept by every statement that the two create flows use
  apart from the unguarded ones. The flows' own lemmas are proved from this alone.
\<close>

locale booking_inv = idem_inv +
  assumes order_keeps: "I t \<Longrightarrow> insert_order ord t = Inr (u, t') \<Longrightarrow> I t'"
    and payment_keeps: "I t \<Longrightarrow> insert_payment pay t = Inr (u, t') \<Longrightarrow> I t'"
    and promote_payment_keeps: "I t \<Longrightarrow> promote_payment k h t = Inr (n, t') \<Longrightarrow> I t'"
    and promote_order_keeps: "I t \<Longrightarrow> promote_order k t = Inr (n, t') \<Longrightarrow> I t'"
    and close_keeps: "I t \<Longrightarrow> close_attempt k h t = Inr (n, t') \<Longrightarrow> I t'"
begin

sublocale ord: stmt_inv I "insert_order r" for r
  by unfold_locales (rule order_keeps)

sublocale pay: stmt_inv I "insert_payment r" for r
  by unfold_locales (rule payment_keeps)

sublocale promp: stmt_inv I "promote_payment k h" for k h
  by unfold_locales (rule promote_payment_keeps)

sublocale promo: stmt_inv I "promote_order k" for k
  by unfold_locales (rule promote_order_keeps)

sublocale clos: stmt_inv I "close_attempt k h" for k h
  by unfold_locales (rule close_keeps)

lemmas stmt_holds = idem_holds ord.mapper_holdsD pay.mapper_holdsD promp.mapper_holdsD
  promo.mapper_holdsD clos.mapper_holdsD

end

text \<open>The flow that also uses the unguarded writes of \<open>bookRefusedAttempt\<close>.\<close>

locale refusal_inv = booking_inv +
  assumes fail_payment_keeps: "I t \<Longrightarrow> fail_payment k h t = Inr (n, t') \<Longrightarrow> I t'"
    and fail_order_keeps: "I t \<Longrightarrow> fail_order k t = Inr (n, t') \<Longrightarrow> I t'"
begin

sublocale failp: stmt_inv I "fail_payment k h" for k h
  by unfold_locales (rule fail_payment_keeps)

sublocale failo: stmt_inv I "fail_order k" for k
  by unfold_locales (rule fail_order_keeps)

lemma refused_order_holds:
  "stable I e \<Longrightarrow> holds I w \<Longrightarrow> holds I (bookRefusedOrder e orderNo w)"
  by (auto simp: bookRefusedOrder_def intro!: failo.mapper_holds dest!: read_stmt.mapper_holdsD
      split: prod.splits dbres.splits list.splits)

lemma refused_holds:
  "stable I e \<Longrightarrow> holds I w \<Longrightarrow> holds I (bookRefusedAttempt e client pn orderNo s w)"
  by (auto simp: bookRefusedAttempt_def intro!: refused_order_holds
      dest!: read_stmt.mapper_holdsD failp.mapper_holdsD split: prod.splits dbres.splits list.splits)

end

lemmas status_stmts = promote_payment_def promote_order_def close_attempt_def fail_payment_def fail_order_def

interpretation wf_books: refusal_inv wf_tables
proof (unfold_locales, goal_cases)
  case (1 t k h x n t') then show ?case by (rule reserve.keeps)
next
  case (2 t k h s n t') then show ?case by (rule fill.keeps)
next
  case (3 t k h n t') then show ?case by (rule release.keeps)
next
  case (4 t ord u t') then show ?case by (rule wf_insert_order)
next
  case (5 t pay u t') then show ?case by (rule wf_insert_payment)
qed (unfold status_stmts; (erule (1) wf_update_payments [rotated] | erule (1) wf_update_orders [rotated]); simp)+

interpretation settled_books: booking_inv "books_kept ps os" for ps os
  by unfold_locales
    (auto simp: books_kept_def idem_stmts insert_order_def insert_payment_def status_stmts
      update_payments_def update_orders_def open_attempt_def open_order_def intro!: kept_update
      split: if_splits)

lemma books_kept_self: "books_kept (set (t_payments t)) (set (t_orders t)) t"
  by (simp add: books_kept_def)

end
