(* ===== verification/Pay_Create.thy ===== *)
theory Pay_Create
  imports Pay_Service
begin

text \<open>
  \<open>PaymentService::createPayment\<close> and \<open>proceedCreatePayment\<close>: the idempotency check, the
  validation of the request, one transaction that inserts the order and its payment, the
  channel call after the commit, and the booking of the channel's answer.
\<close>

section \<open>Request\<close>

record create_request =
  cp_orderNo :: string
  cp_amount :: string
  cp_currency :: string
  cp_description :: string
  cp_notifyUrl :: string
  cp_userId :: int
  cp_sceneInfo :: json
  cp_channel :: string
  cp_timeExpire :: string
  cp_attach :: string

definition requestHash :: "sys \<Rightarrow> create_request \<Rightarrow> string" where
  "requestHash S rq =
     getSha256 S (toJsonString S (jobject
       [(''order_no'', JString (cp_orderNo rq)), (''amount'', JString (cp_amount rq)),
        (''currency'', JString (cp_currency rq)), (''description'', JString (cp_description rq))]))"

text \<open>The reply for a check result other than \<open>Started\<close>; shared by both create flows.\<close>

definition idempotencyReply :: "check_result \<Rightarrow> reply option" where
  "idempotencyReply r =
     (case cr_status r of
        Conflict \<Rightarrow> Some (pay_error 1004 ''Idempotency conflict: different parameters for same key''
                           ''idempotency key conflict'')
      | InProgress \<Rightarrow> Some (pay_error 1004 ''Idempotency request is already in progress''
                             ''idempotency request in progress'')
      | CheckError \<Rightarrow> Some (pay_error 1003 ''Idempotency check failed'' ''idempotency check failed'')
      | Replay \<Rightarrow> Some (cr_cached r, NoError)
      | Started \<Rightarrow> None)"

text \<open>The validations in their order: the first message, or \<open>None\<close> when all pass.\<close>

definition createPaymentProblem :: "int \<Rightarrow> create_request \<Rightarrow> string option" where
  "createPaymentProblem now rq =
     (case parseAmountToFen (cp_amount rq) of
        None \<Rightarrow> Some ''Invalid amount format''
      | Some _ \<Rightarrow>
          (case validateNotifyUrl (cp_notifyUrl rq) of
             Some urlError \<Rightarrow> Some urlError
           | None \<Rightarrow>
               (case (if cp_timeExpire rq \<noteq> []
                      then validateTimeExpire (now div 1000000) (cp_timeExpire rq) (cp_channel rq)
                      else None) of
                  Some timeExpireError \<Rightarrow> Some timeExpireError
                | None \<Rightarrow>
                    if cp_channel rq = ''wechat''
                    then validateWechatOrderFields (cp_orderNo rq) (cp_description rq) (cp_attach rq)
                    else None)))"

text \<open>A refusal after the key was reserved: release it, then answer.\<close>

definition failReserved :: "env \<Rightarrow> string \<Rightarrow> string \<Rightarrow> reply \<Rightarrow> world \<Rightarrow> reply option \<times> world" where
  "failReserved e key hash rep w =
     (if key \<noteq> [] then (Some rep, snd (clearReservation e key hash w)) else (Some rep, w))"

section \<open>Booking\<close>

definition newOrder :: "env \<Rightarrow> create_request \<Rightarrow> world \<Rightarrow> order_row" where
  "newOrder e rq w =
     \<lparr>o_order_no = cp_orderNo rq, o_user_id = cp_userId rq, o_amount = cp_amount rq,
      o_currency = cp_currency rq, o_status = ''CREATED'', o_channel = cp_channel rq,
      o_title = cp_description rq,
      o_expire_at =
        (if cp_timeExpire rq \<noteq> []
         then (case parseRfc3339 (cp_timeExpire rq) of
                 Inr expireSeconds \<Rightarrow> Some (expireSeconds * 1000000)
               | Inl _ \<Rightarrow> None)
         else None),
      o_created_at = clock e (tick w), o_updated_at = clock e (tick w)\<rparr>"

definition alipayPayload :: "sys \<Rightarrow> create_request \<Rightarrow> int \<Rightarrow> json" where
  "alipayPayload S rq totalFen =
     jset_text ''notify_url'' (cp_notifyUrl rq)
       (jset_text ''buyer_id'' (case sandboxBuyerId S of None \<Rightarrow> [] | Some b \<Rightarrow> b)
         (jobject [(''total_amount'', JString (yuanString totalFen)),
                   (''subject'', JString (cp_description rq)), (''out_trade_no'', JString (cp_orderNo rq))]))"

definition wechatPayload :: "create_request \<Rightarrow> int \<Rightarrow> json" where
  "wechatPayload rq totalFen =
     jset_text ''attach'' (cp_attach rq)
       (jset_text ''time_expire'' (cp_timeExpire rq)
         ((\<lambda>j. if isNull (cp_sceneInfo rq) then j else jset ''scene_info'' (cp_sceneInfo rq) j)
           (jset_text ''notify_url'' (cp_notifyUrl rq)
             (jobject [(''description'', JString (cp_description rq)),
                       (''out_trade_no'', JString (cp_orderNo rq)),
                       (''amount'', jobject [(''total'', JInt totalFen),
                                             (''currency'', JString (cp_currency rq))])]))))"

definition createPayload :: "sys \<Rightarrow> create_request \<Rightarrow> int \<Rightarrow> json" where
  "createPayload S rq totalFen =
     (if cp_channel rq = ''alipay'' then alipayPayload S rq totalFen else wechatPayload rq totalFen)"

definition newPayment :: "create_request \<Rightarrow> string \<Rightarrow> string \<Rightarrow> int \<Rightarrow> payment_row" where
  "newPayment rq paymentNo requestPayload now =
     \<lparr>p_payment_no = paymentNo, p_order_no = cp_orderNo rq, p_status = ''INIT'', p_amount = cp_amount rq,
      p_request_payload = requestPayload, p_response_payload = None, p_channel_trade_no = None,
      p_created_at = now\<rparr>"

text \<open>
  The transaction: insert the order, insert the payment, \<open>COMMIT\<close>. \<open>Inl\<close> is the reply of a
  failure, after which the transaction is rolled back and released.
\<close>

definition failDb :: "env \<Rightarrow> string \<Rightarrow> world \<Rightarrow> (reply + unit) \<times> world" where
  "failDb e what w =
     (Inl (pay_error 1003 (''Database error: '' @ what) ''Database error''), end_txn e (rollback w))"

definition failMapper :: "env \<Rightarrow> string option \<Rightarrow> world \<Rightarrow> (reply + unit) \<times> world" where
  "failMapper e what w =
     (Inl (reportMapperFailure (what_of ''unknown exception'' what)), end_txn e (rollback w))"

definition bookPayment ::
  "env \<Rightarrow> create_request \<Rightarrow> string \<Rightarrow> string \<Rightarrow> world \<Rightarrow> (reply + unit) \<times> world" where
  "bookPayment e rq paymentNo requestPayload w =
     (case mapper e (insert_payment (newPayment rq paymentNo requestPayload (clock e (tick w)))) w of
        (DbErr what, w1) \<Rightarrow> failDb e what w1
      | (Threw what, w1) \<Rightarrow> failMapper e what w1
      | (Ok _, w1) \<Rightarrow>
          (case commit_txn e w1 of
             (Some what, w2) \<Rightarrow>
               (Inl (pay_error 1003 (''Failed to commit transaction: '' @ what)
                                    (''Failed to commit transaction: '' @ what)), w2)
           | (None, w2) \<Rightarrow> (Inr (), w2)))"

definition bookAttempt ::
  "env \<Rightarrow> create_request \<Rightarrow> order_row \<Rightarrow> string \<Rightarrow> string \<Rightarrow> world \<Rightarrow> (reply + unit) \<times> world" where
  "bookAttempt e rq order paymentNo requestPayload w =
     (case begin_txn e w of
        None \<Rightarrow> (Inl (pay_error 1003 ''Transaction unavailable'' ''Transaction unavailable''), next_tick w)
      | Some w1 \<Rightarrow>
          (case mapper e (insert_order order) w1 of
             (DbErr what, w2) \<Rightarrow> failDb e what w2
           | (Threw what, w2) \<Rightarrow> failMapper e what w2
           | (Ok _, w2) \<Rightarrow> bookPayment e rq paymentNo requestPayload w2))"

section \<open>The channel's answer\<close>

definition channelErrorReply :: "create_request \<Rightarrow> string \<Rightarrow> reply" where
  "channelErrorReply rq error =
     pay_error 1002
       ((if cp_channel rq = ''alipay'' then ''Alipay'' else ''WeChat Pay'') @ '' error: '' @ error) error"

definition onChannelError ::
  "env \<Rightarrow> sys \<Rightarrow> create_request \<Rightarrow> string \<Rightarrow> string \<Rightarrow> world \<Rightarrow> reply option \<times> world" where
  "onChannelError e S rq paymentNo error w =
     (Some (channelErrorReply rq error),
      if attemptCertainlyNotCreated error
      then bookRefusedAttempt e (hasDb S) paymentNo (cp_orderNo rq)
             (toJsonString S (jobject [(''error'', JString error)])) w
      else w)"

text \<open>The lambda \<open>answer\<close>: the reply of a created payment; \<open>None\<close>: an accessor throws.\<close>

definition createdData :: "create_request \<Rightarrow> string \<Rightarrow> json \<Rightarrow> json option" where
  "createdData rq paymentNo result =
     (let base = jobject [(''order_no'', JString (cp_orderNo rq)), (''payment_no'', JString paymentNo),
                          (''status'', JString ''PAYING'')]
      in if cp_channel rq = ''alipay''
         then map_option (\<lambda>qrCode. jset_text ''qr_code'' qrCode (jset ''alipay_response'' result base))
                (jstr result ''qr_code'' [])
         else (case (jstr result ''code_url'' [], jstr result ''prepay_id'' []) of
                 (Some codeUrl, Some prepayId) \<Rightarrow>
                   Some (jset_text ''prepay_id'' prepayId
                     (jset_text ''code_url'' codeUrl (jset ''wechat_response'' result base)))
               | _ \<Rightarrow> None))"

definition createdReply :: "create_request \<Rightarrow> string \<Rightarrow> json \<Rightarrow> reply option" where
  "createdReply rq paymentNo result =
     map_option
       (\<lambda>data. (jobject [(''code'', JInt 0), (''message'', JString ''Payment created successfully''),
                         (''data'', data)], NoError))
       (createdData rq paymentNo result)"

definition promoteCreated ::
  "env \<Rightarrow> sys \<Rightarrow> create_request \<Rightarrow> string \<Rightarrow> json \<Rightarrow> world \<Rightarrow> reply option \<times> world" where
  "promoteCreated e S rq paymentNo result w =
     (case mapper e (promote_payment paymentNo (toJsonString S result)) w of
        (DbErr what, w1) \<Rightarrow>
          (Some (pay_error 1003 (''Database error: '' @ what) (''Database error: '' @ what)), w1)
      | (Threw what, w1) \<Rightarrow> (Some (reportMapperFailure (what_of ''unknown exception'' what)), w1)
      | (Ok updated, w1) \<Rightarrow>
          (createdReply rq paymentNo result,
           if updated = 0 then w1 else snd (mapper e (promote_order (cp_orderNo rq)) w1)))"

definition paymentCallback ::
  "env \<Rightarrow> sys \<Rightarrow> create_request \<Rightarrow> string \<Rightarrow> json \<Rightarrow> string \<Rightarrow> world \<Rightarrow> reply option \<times> world" where
  "paymentCallback e S rq paymentNo result transportError w =
     (case (if transportError = [] then channelResultError (cp_channel rq) result else Some transportError) of
        None \<Rightarrow> (None, w)
      | Some error \<Rightarrow>
          if error \<noteq> [] then onChannelError e S rq paymentNo error w
          else promoteCreated e S rq paymentNo result w)"

definition callChannel ::
  "env \<Rightarrow> sys \<Rightarrow> create_request \<Rightarrow> string \<Rightarrow> json \<Rightarrow> world \<Rightarrow> reply option \<times> world" where
  "callChannel e S rq paymentNo payload w =
     (case findChannel S (cp_channel rq) of
        None \<Rightarrow> paymentCallback e S rq paymentNo JNull (''CHANNEL_NOT_AVAILABLE: '' @ cp_channel rq) w
      | Some ch \<Rightarrow>
          let w1 = emit (ChannelCall (cp_channel rq) ''createQRPayment'' payload) w
          in (case ch_createQRPayment ch (tick w1) payload of
                None \<Rightarrow> (None, w1)
              | Some (result, transportError) \<Rightarrow> paymentCallback e S rq paymentNo result transportError w1))"

section \<open>The flow\<close>

definition proceedCreatePayment ::
  "env \<Rightarrow> sys \<Rightarrow> create_request \<Rightarrow> string \<Rightarrow> int \<Rightarrow> world \<Rightarrow> reply option \<times> world" where
  "proceedCreatePayment e S rq paymentNo totalFen w =
     (case ctorFault e (tick w) of
        Some what \<Rightarrow>
          (Some (jobject [(''code'', JInt 1003),
                          (''message'', JString (''Exception during payment creation: '' @
                              what_of ''unknown exception'' what))], IoError), next_tick w)
      | None \<Rightarrow>
          let w0 = next_tick w;
              payload = createPayload S rq totalFen
          in (case bookAttempt e rq (newOrder e rq w0) paymentNo (toJsonString S payload) w0 of
                (Inl rep, w1) \<Rightarrow> (Some rep, w1)
              | (Inr _, w1) \<Rightarrow> callChannel e S rq paymentNo payload w1))"

text \<open>The lambda \<open>wrappedCb\<close> around the reply of \<open>proceedCreatePayment\<close>.\<close>

definition wrappedCb :: "env \<Rightarrow> sys \<Rightarrow> string \<Rightarrow> string \<Rightarrow> reply \<Rightarrow> world \<Rightarrow> reply option \<times> world" where
  "wrappedCb e S key hash rep w =
     (if key = [] then (Some rep, w)
      else if snd rep \<noteq> NoError then (Some rep, snd (clearReservation e key hash w))
      else
        (case isMember (fst rep) ''data'' of
           None \<Rightarrow> (None, w)
         | Some False \<Rightarrow> (Some rep, w)
         | Some True \<Rightarrow>
             (case updateResult e (toJsonString S) (hasRedis S) key hash (fst rep) w of
                (True, w1) \<Rightarrow> (Some rep, w1)
              | (False, w1) \<Rightarrow> (Some rep, snd (clearReservation e key hash w1)))))"

definition createStarted ::
  "env \<Rightarrow> sys \<Rightarrow> create_request \<Rightarrow> string \<Rightarrow> string \<Rightarrow> world \<Rightarrow> reply option \<times> world" where
  "createStarted e S rq key hash w =
     (case (createPaymentProblem (clock e (tick w)) rq, parseAmountToFen (cp_amount rq)) of
        (None, Some totalFen) \<Rightarrow>
          (case proceedCreatePayment e S rq (generatePaymentNoValue S (tick w)) totalFen w of
             (None, w1) \<Rightarrow> (None, w1)
           | (Some rep, w1) \<Rightarrow> wrappedCb e S key hash rep w1)
      | (Some message, _) \<Rightarrow> failReserved e key hash (pay_error 1001 message message) w
      | (None, None) \<Rightarrow> (None, w))"

definition createPayment ::
  "env \<Rightarrow> sys \<Rightarrow> create_request \<Rightarrow> string \<Rightarrow> world \<Rightarrow> reply option \<times> world" where
  "createPayment e S rq key w =
     (let hash = requestHash S rq
      in case checkAndSetStatus e (parseJson S) (ttlSeconds S) key hash w of
           (None, w1) \<Rightarrow> (None, w1)
         | (Some r, w1) \<Rightarrow>
             (case idempotencyReply r of
                Some rep \<Rightarrow> (Some rep, w1)
              | None \<Rightarrow> createStarted e S rq key hash w1))"

section \<open>Invariants across the flow\<close>

lemmas flow_splits = prod.splits sum.splits dbres.splits option.splits list.splits

context booking_inv
begin

lemma book_holds:
  "bookAttempt e rq order pn payload w = (r, w') \<Longrightarrow> stable I e \<Longrightarrow> holds I w \<Longrightarrow> holds I w'"
  by (auto simp: bookAttempt_def bookPayment_def failDb_def failMapper_def intro!: holds_end_txn holds_rollback
      dest!: ord.mapper_holdsD pay.mapper_holdsD holds_beginD [where I = I] holds_commitD [where I = I]
      split: option.splits prod.splits dbres.splits)

lemma fail_reserved_holds:
  "failReserved e key hash rep w = (r, w') \<Longrightarrow> stable I e \<Longrightarrow> holds I w \<Longrightarrow> holds I w'"
  by (cases "clearReservation e key hash w")
    (auto simp: failReserved_def dest: clear_holds split: if_splits)

lemma wrapped_holds:
  "wrappedCb e S key hash rep w = (r, w') \<Longrightarrow> stable I e \<Longrightarrow> holds I w \<Longrightarrow> holds I w'"
  by (cases "clearReservation e key hash w")
    (auto simp: wrappedCb_def dest!: update_holds dest: clear_holds split: if_splits option.splits bool.splits prod.splits,
      metis clear_holds prod.collapse)

lemma promote_holds:
  "promoteCreated e S rq pn result w = (r, w') \<Longrightarrow> stable I e \<Longrightarrow> holds I w \<Longrightarrow> holds I w'"
  by (auto simp: promoteCreated_def intro!: promo.mapper_holds dest!: promp.mapper_holdsD
      split: prod.splits dbres.splits if_splits)

end

context refusal_inv
begin

lemma callback_holds:
  "paymentCallback e S rq pn result err w = (r, w') \<Longrightarrow> stable I e \<Longrightarrow> holds I w \<Longrightarrow> holds I w'"
  by (auto simp: paymentCallback_def onChannelError_def dest: promote_holds
      intro!: refused_holds split: option.splits if_splits)

lemma channel_holds:
  "callChannel e S rq pn payload w = (r, w') \<Longrightarrow> stable I e \<Longrightarrow> holds I w \<Longrightarrow> holds I w'"
  by (auto simp: callChannel_def Let_def dest: callback_holds split: option.splits)

lemma proceed_holds:
  "proceedCreatePayment e S rq pn fen w = (r, w') \<Longrightarrow> stable I e \<Longrightarrow> holds I w \<Longrightarrow> holds I w'"
  by (auto simp: proceedCreatePayment_def Let_def dest!: book_holds dest: channel_holds split: flow_splits)

lemma create_holds:
  assumes "stable I e" "holds I w"
  shows "holds I (snd (createPayment e S rq key w))"
proof -
  have started: "holds I w'" if "createStarted e S rq key hash w1 = (r, w')" "holds I w1" for hash w1 r w'
    using that assms(1)
    by (auto simp: createStarted_def dest!: proceed_holds dest: wrapped_holds fail_reserved_holds
        split: flow_splits)
  show ?thesis
    using assms by (auto simp: createPayment_def Let_def dest!: check_holds split: flow_splits dest: started)
      (metis prod.collapse started)
qed

end

section \<open>Properties\<close>

text \<open>
  \<open>createPayment\<close> keeps the books well formed. Whatever statement fails, whatever the
  channel answers and whatever other requests do between its statements, as long as they
  keep the tables well formed too: order, payment and idempotency keys stay unique, every
  payment belongs to an order, and no payment has two income entries in the ledger; the
  same holds of the tables a pending rollback would restore.
\<close>

lemma createPayment_keeps_wf:
  assumes "stable wf_tables e" "holds wf_tables w"
  shows "holds wf_tables (snd (createPayment e S rq key w))"
  using assms by (rule wf_books.create_holds)

definition sample_request :: create_request where
  "sample_request = \<lparr>cp_orderNo = ''ORD-000001'', cp_amount = ''1.50'', cp_currency = ''CNY'',
     cp_description = ''tea'', cp_notifyUrl = [], cp_userId = 7, cp_sceneInfo = JNull,
     cp_channel = ''wechat'', cp_timeExpire = [], cp_attach = []\<rparr>"

text \<open>The outcome of the transaction: both rows or neither, whatever fails.\<close>

lemma failed_txn:
  assumes "txn_of w = InTxn t \<or> txn_of w = Aborted \<and> tabs w = t"
    "failDb e what w = (r, w') \<or> failMapper e thrown w = (r, w')"
  shows "isl r \<and> tabs w' = t \<and> txn_of w' = NoTxn \<and> events w' = events w"
  using end_rollback [OF assms(1), of e] assms(2) by (auto simp: failDb_def failMapper_def)

lemma bookPayment_result:
  assumes "bookPayment e rq pn payload w = (r, w')" "txn_of w = InTxn t"
  shows "txn_of w' = NoTxn \<and> events w' = events w \<and>
    (if isl r then tabs w' = t
     else \<exists>now. insert_payment (newPayment rq pn payload now) (tabs w) = Inr ((), tabs w'))"
proof -
  let ?p = "newPayment rq pn payload (clock e (tick w))"
  obtain q w1 where m: "mapper e (insert_payment ?p) w = (q, w1)" by fastforce
  note i = mapper_in_txn [OF m assms(2)]
  show ?thesis
  proof (cases q)
    case (Ok u)
    then have w1: "txn_of w1 = InTxn t" "insert_payment ?p (tabs w) = Inr ((), tabs w1)" "events w1 = events w"
      using i by simp_all
    obtain c w2 where c: "commit_txn e w1 = (c, w2)" by fastforce
    from assms(1) m Ok c have "w' = w2" "isl r \<longleftrightarrow> c \<noteq> None" by (auto simp: bookPayment_def split: option.splits)
    with commit_in_txn [OF c w1(1)] w1(2,3) show ?thesis by auto
  next
    case (DbErr what)
    with assms(1) m i failed_txn [of w1 t e what r w'] show ?thesis by (auto simp: bookPayment_def)
  next
    case (Threw what)
    with assms(1) m i failed_txn [of w1 t e "[]" r w' what] show ?thesis by (auto simp: bookPayment_def)
  qed
qed

lemma insert_orderD: "insert_order r t = Inr (u, t') \<Longrightarrow> t' = t\<lparr>t_orders := t_orders t @ [r]\<rparr>"
  by (auto simp: insert_order_def split: if_splits)

lemma insert_paymentD: "insert_payment r t = Inr (u, t') \<Longrightarrow> t' = t\<lparr>t_payments := t_payments t @ [r]\<rparr>"
  by (auto simp: insert_payment_def split: if_splits)

lemma bookAttempt_result:
  assumes "bookAttempt e rq order pn payload w = (r, w')" "txn_of w = NoTxn"
  shows "txn_of w' = NoTxn \<and> events w' = events w \<and>
    (let t = others e (tick w) (tabs w)
     in if isl r then tabs w' = tabs w \<or> tabs w' = t
        else o_order_no order \<notin> o_order_no ` set (t_orders t) \<and>
          (\<exists>now. tabs w' = t\<lparr>t_orders := t_orders t @ [order],
                            t_payments := t_payments t @ [newPayment rq pn payload now]\<rparr>))"
proof (cases "begin_txn e w")
  case None
  with assms show ?thesis by (auto simp: bookAttempt_def Let_def)
next
  case (Some w1)
  let ?t = "others e (tick w) (tabs w)"
  have w1: "txn_of w1 = InTxn ?t" "tabs w1 = ?t" "events w1 = events w"
    using begin_txn_opens [OF Some assms(2)] by simp_all
  obtain q w2 where m: "mapper e (insert_order order) w1 = (q, w2)" by fastforce
  note i = mapper_in_txn [OF m w1(1)]
  show ?thesis
  proof (cases q)
    case (Ok u)
    then have w2: "txn_of w2 = InTxn ?t" "insert_order order ?t = Inr ((), tabs w2)" "events w2 = events w"
      using i w1 by simp_all
    have b: "bookPayment e rq pn payload w2 = (r, w')" using assms(1) Some m Ok by (simp add: bookAttempt_def)
    have "o_order_no order \<notin> o_order_no ` set (t_orders ?t)"
      using w2(2) by (auto simp: insert_order_def split: if_splits)
    with bookPayment_result [OF b w2(1)] w2(3) insert_orderD [OF w2(2)] show ?thesis
      by (auto simp: Let_def split: if_splits dest!: insert_paymentD)
  next
    case (DbErr what)
    with assms(1) Some m i w1(3) failed_txn [of w2 ?t e what r w'] show ?thesis
      by (auto simp: bookAttempt_def Let_def)
  next
    case (Threw what)
    with assms(1) Some m i w1(3) failed_txn [of w2 ?t e "[]" r w' what] show ?thesis
      by (auto simp: bookAttempt_def Let_def)
  qed
qed

lemma refused_events: "events (bookRefusedAttempt e client pn orderNo s w) = events w"
proof -
  have m: "events (snd (mapper e f w)) = events w" for f :: "tables \<Rightarrow> pg_error + ('b \<times> tables)" and w
    by (metis mapper_events prod.collapse)
  have "events (bookRefusedOrder e orderNo w) = events w" for w
    by (auto simp: bookRefusedOrder_def m dest: mapper_events split: prod.splits dbres.splits list.splits)
  then show ?thesis
    by (auto simp: bookRefusedAttempt_def dest!: mapper_events split: prod.splits dbres.splits list.splits)
qed

lemma callback_events: "paymentCallback e S rq pn result err w = (r, w') \<Longrightarrow> events w' = events w"
  by (auto simp: paymentCallback_def onChannelError_def promoteCreated_def refused_events
      dest!: mapper_events split: option.splits if_splits prod.splits dbres.splits)
    (metis mapper_events prod.collapse)+

text \<open>
  C20: the order and its payment are booked, both or neither, before the channel is asked.
  Whatever fails and whatever other requests do, a run of \<open>proceedCreatePayment\<close> either
  shows no channel call, or its one call comes after a commit that added, in one step to
  the tables of that moment, a \<open>CREATED\<close> order whose number was free and its \<open>INIT\<close>
  payment of the same amount; a failed booking adds neither row.
\<close>

theorem create_books_before_channel:
  assumes "txn_of w = NoTxn"
  shows "let (rep, w') = proceedCreatePayment e S rq pn fen w; payload = createPayload S rq fen
     in events w' = events w \<or>
        (\<exists>w1 order now. let t = others e (Suc (tick w)) (tabs w)
          in events w' = events w @ [ChannelCall (cp_channel rq) ''createQRPayment'' payload] \<and>
             bookAttempt e rq order pn (toJsonString S payload) (next_tick w) = (Inr (), w1) \<and>
             o_order_no order = cp_orderNo rq \<and> o_status order = ''CREATED'' \<and> o_amount order = cp_amount rq \<and>
             cp_orderNo rq \<notin> o_order_no ` set (t_orders t) \<and>
             tabs w1 = t\<lparr>t_orders := t_orders t @ [order],
                        t_payments := t_payments t @ [newPayment rq pn (toJsonString S payload) now]\<rparr>)"
proof -
  let ?payload = "createPayload S rq fen" and ?w0 = "next_tick w"
  let ?order = "newOrder e rq ?w0"
  have w0: "txn_of ?w0 = NoTxn" using assms by simp
  obtain b w1 where b: "bookAttempt e rq ?order pn (toJsonString S ?payload) ?w0 = (b, w1)" by fastforce
  note res = bookAttempt_result [OF b w0]
  obtain rep w' where p: "proceedCreatePayment e S rq pn fen w = (rep, w')" by fastforce
  show ?thesis
  proof (cases "ctorFault e (tick w) = None \<and> \<not> isl b")
    case False
    then have "events w' = events w"
      using p b res by (auto simp: proceedCreatePayment_def Let_def split: option.splits sum.splits)
    with p show ?thesis by simp
  next
    case True
    then have c: "callChannel e S rq pn ?payload w1 = (rep, w')" and b': "b = Inr ()"
      using p b by (auto simp: proceedCreatePayment_def Let_def split: sum.splits)
    from c have "events w' = events w1 \<or>
        events w' = events w1 @ [ChannelCall (cp_channel rq) ''createQRPayment'' ?payload]"
      by (auto simp: callChannel_def Let_def emit_def dest!: callback_events split: option.splits)
    with res b b' p show ?thesis
      by (auto simp: Let_def newOrder_def [of e rq] next_tick_def)
  qed
qed

theorem create_books_before_channel_witness:
  "let S = plain_sys\<lparr>findChannel := \<lambda>_. Some silent_channel\<rparr>; rq = sample_request;
       (rep, w') = proceedCreatePayment calm S rq ''P1'' 150 (fresh no_rows); payload = createPayload S rq 150
   in events w' = [] \<or>
      (\<exists>w1 order now.
         events w' = [ChannelCall (cp_channel rq) ''createQRPayment'' payload] \<and>
         bookAttempt calm rq order ''P1'' (toJsonString S payload) (next_tick (fresh no_rows)) = (Inr (), w1) \<and>
         o_order_no order = cp_orderNo rq \<and> o_status order = ''CREATED'' \<and>
         tabs w1 = no_rows\<lparr>t_orders := [order],
           t_payments := [newPayment rq ''P1'' (toJsonString S payload) now]\<rparr>)"
proof -
  let ?S = "plain_sys\<lparr>findChannel := \<lambda>_. Some silent_channel\<rparr>"
  have n: "others calm (Suc 0) no_rows = no_rows" "t_orders no_rows = []" "t_payments no_rows = []"
    by (simp_all add: calm_def no_rows_def)
  have "txn_of (fresh no_rows) = NoTxn" by simp
  from create_books_before_channel [OF this, of calm ?S sample_request "''P1''" 150]
  show ?thesis by (auto simp: Let_def n split: prod.splits)
qed

section \<open>A completed create and its retry\<close>

lemma quiet_bookAttempt:
  assumes "quiet e" "txn_of w = NoTxn" "order_fits order" "o_order_no order = cp_orderNo rq"
    and "cp_orderNo rq \<notin> o_order_no ` set (t_orders (tabs w))"
    and "payment_fits (newPayment rq pn payload 0)" "pn \<notin> p_payment_no ` set (t_payments (tabs w))"
  shows "\<exists>w' now. bookAttempt e rq order pn payload w = (Inr (), w') \<and> txn_of w' = NoTxn \<and>
    events w' = events w \<and>
    tabs w' = (tabs w)\<lparr>t_orders := t_orders (tabs w) @ [order],
                      t_payments := t_payments (tabs w) @ [newPayment rq pn payload now]\<rparr>"
proof -
  let ?w1 = "(next_tick w)\<lparr>txn_of := InTxn (tabs w)\<rparr>"
  let ?t2 = "(tabs w)\<lparr>t_orders := t_orders (tabs w) @ [order]\<rparr>"
  let ?w2 = "(next_tick ?w1)\<lparr>tabs := ?t2\<rparr>"
  let ?p = "newPayment rq pn payload (clock e (tick ?w2))"
  let ?t3 = "?t2\<lparr>t_payments := t_payments ?t2 @ [?p]\<rparr>"
  have "insert_order order (tabs ?w1) = Inr ((), ?t2)" using assms(3-5) by (simp add: insert_order_def)
  with quiet_mapper [OF assms(1), of ?w1 "insert_order order"]
  have m: "mapper e (insert_order order) ?w1 = (Ok (), ?w2)" by simp
  have "insert_payment ?p (tabs ?w2) = Inr ((), ?t3)"
    using assms(4,6,7) by (simp add: insert_payment_def payment_fits_def newPayment_def)
  with quiet_mapper [OF assms(1), of ?w2 "insert_payment ?p"]
  have m2: "mapper e (insert_payment ?p) ?w2 = (Ok (), (next_tick ?w2)\<lparr>tabs := ?t3\<rparr>)" by simp
  show ?thesis
    using quiet_begin [OF assms(1,2)] m m2 quiet_commit [OF assms(1), of "(next_tick ?w2)\<lparr>tabs := ?t3\<rparr>" "tabs w"]
    by (auto simp: bookAttempt_def bookPayment_def)
qed

lemma quiet_promote:
  assumes "quiet e" "txn_of w = NoTxn" "p \<in> set (t_payments (tabs w))" "p_payment_no p = pn"
    and "p_status p = ''INIT''" "order \<in> set (t_orders (tabs w))" "o_order_no order = cp_orderNo rq"
    and "o_status order = ''CREATED''"
  shows "\<exists>w'. promoteCreated e S rq pn result w = (createdReply rq pn result, w') \<and> txn_of w' = NoTxn \<and>
    events w' = events w \<and> t_idem (tabs w') = t_idem (tabs w) \<and>
    order\<lparr>o_status := ''PAYING''\<rparr> \<in> set (t_orders (tabs w')) \<and>
    p\<lparr>p_status := ''PROCESSING'', p_response_payload := Some (toJsonString S result)\<rparr>
      \<in> set (t_payments (tabs w'))"
proof -
  let ?f = "\<lambda>r. r\<lparr>p_status := ''PROCESSING'', p_response_payload := Some (toJsonString S result)\<rparr>"
  let ?n = "length (filter (open_attempt pn) (t_payments (tabs w)))"
  let ?t1 = "(tabs w)\<lparr>t_payments := update_where (open_attempt pn) ?f (t_payments (tabs w))\<rparr>"
  let ?w1 = "(next_tick w)\<lparr>tabs := ?t1\<rparr>"
  let ?t2 = "?t1\<lparr>t_orders := update_where (open_order (cp_orderNo rq)) (\<lambda>r. r\<lparr>o_status := ''PAYING''\<rparr>) (t_orders ?t1)\<rparr>"
  have "p \<in> set (filter (open_attempt pn) (t_payments (tabs w)))" using assms(3-5) by (simp add: open_attempt_def)
  then have n: "?n \<noteq> 0" by (metis length_0_conv list.set(1) empty_iff)
  have "promote_payment pn (toJsonString S result) (tabs w) = Inr (?n, ?t1)"
    by (simp add: promote_payment_def update_payments_def)
  with quiet_mapper [OF assms(1), of w "promote_payment pn (toJsonString S result)"] assms(2)
  have m: "mapper e (promote_payment pn (toJsonString S result)) w = (Ok ?n, ?w1)" by simp
  obtain k where "promote_order (cp_orderNo rq) (tabs ?w1) = Inr (k, ?t2)"
    by (simp add: promote_order_def update_orders_def)
  with quiet_mapper [OF assms(1), of ?w1 "promote_order (cp_orderNo rq)"] assms(2)
  have m2: "mapper e (promote_order (cp_orderNo rq)) ?w1 = (Ok k, (next_tick ?w1)\<lparr>tabs := ?t2\<rparr>)" by simp
  have "?f p \<in> set (update_where (open_attempt pn) ?f (t_payments (tabs w)))"
    using assms(3-5) by (auto simp: set_update_where open_attempt_def image_iff)
  moreover have "order\<lparr>o_status := ''PAYING''\<rparr> \<in> set (t_orders ?t2)"
    using assms(6-8) by (auto simp: set_update_where open_order_def image_iff)
  ultimately show ?thesis using m m2 n assms(2) by (auto simp: promoteCreated_def)
qed

lemma newOrder_simps:
  "o_order_no (newOrder e rq w) = cp_orderNo rq" "o_status (newOrder e rq w) = ''CREATED''"
  "order_fits (newOrder e rq w) = order_fits (newOrder e rq v)"
  by (simp_all add: newOrder_def order_fits_def)

text \<open>\<open>proceedCreatePayment\<close> when nothing fails and the channel accepts.\<close>

lemma quiet_proceed:
  assumes "quiet e" "txn_of w = NoTxn" "order_fits (newOrder e rq w)"
    and "cp_orderNo rq \<notin> o_order_no ` set (t_orders (tabs w))"
    and "payment_fits (newPayment rq pn (toJsonString S (createPayload S rq fen)) 0)"
    and "pn \<notin> p_payment_no ` set (t_payments (tabs w))"
    and "findChannel S (cp_channel rq) = Some ch"
    and "\<forall>n. ch_createQRPayment ch n (createPayload S rq fen) = Some (result, [])"
    and "channelResultError (cp_channel rq) result = Some []"
  shows "\<exists>w' order p. proceedCreatePayment e S rq pn fen w = (createdReply rq pn result, w') \<and>
    txn_of w' = NoTxn \<and> t_idem (tabs w') = t_idem (tabs w) \<and>
    events w' = events w @ [ChannelCall (cp_channel rq) ''createQRPayment'' (createPayload S rq fen)] \<and>
    order \<in> set (t_orders (tabs w')) \<and> o_order_no order = cp_orderNo rq \<and> o_status order = ''PAYING'' \<and>
    p \<in> set (t_payments (tabs w')) \<and> p_payment_no p = pn \<and> p_order_no p = cp_orderNo rq \<and>
    p_status p = ''PROCESSING'' \<and> p_response_payload p = Some (toJsonString S result)"
proof -
  let ?payload = "createPayload S rq fen" and ?w0 = "next_tick w"
  let ?order = "newOrder e rq ?w0" and ?text = "toJsonString S (createPayload S rq fen)"
  have "order_fits ?order" using assms(3) newOrder_simps(3) by blast
  with quiet_bookAttempt [OF assms(1), of ?w0 ?order rq pn ?text] assms(2,4-6) newOrder_simps(1,2)
  obtain w1 now where b: "bookAttempt e rq ?order pn ?text ?w0 = (Inr (), w1)" "txn_of w1 = NoTxn"
    "events w1 = events w"
    "tabs w1 = (tabs w)\<lparr>t_orders := t_orders (tabs w) @ [?order],
                       t_payments := t_payments (tabs w) @ [newPayment rq pn ?text now]\<rparr>" by auto
  let ?w2 = "emit (ChannelCall (cp_channel rq) ''createQRPayment'' ?payload) w1"
  have w2: "txn_of ?w2 = NoTxn" "tabs ?w2 = tabs w1" using b(2) by (simp_all add: emit_def)
  from quiet_promote [OF assms(1) w2(1), of "newPayment rq pn ?text now" pn ?order rq S result] b(4) w2(2)
  obtain w3 where w3: "promoteCreated e S rq pn result ?w2 = (createdReply rq pn result, w3)"
    "txn_of w3 = NoTxn" "events w3 = events ?w2" "t_idem (tabs w3) = t_idem (tabs w1)"
    "?order\<lparr>o_status := ''PAYING''\<rparr> \<in> set (t_orders (tabs w3))"
    "(newPayment rq pn ?text now)\<lparr>p_status := ''PROCESSING'', p_response_payload := Some (toJsonString S result)\<rparr>
      \<in> set (t_payments (tabs w3))"
    by (auto simp: newPayment_def newOrder_simps)
  have "callChannel e S rq pn ?payload w1 = (createdReply rq pn result, w3)"
    using assms(7-9) w3(1) by (simp add: callChannel_def paymentCallback_def Let_def)
  then have "proceedCreatePayment e S rq pn fen w = (createdReply rq pn result, w3)"
    using assms(1) b(1) by (simp add: proceedCreatePayment_def Let_def quiet_def)
  moreover have "events w3 = events w @ [ChannelCall (cp_channel rq) ''createQRPayment'' ?payload]"
    using w3(3) b(3) by (simp add: emit_def)
  ultimately show ?thesis
    using w3(2,4-6) b(4)
    by (intro exI [of _ w3] exI [of _ "?order\<lparr>o_status := ''PAYING''\<rparr>"]
        exI [of _ "(newPayment rq pn ?text now)\<lparr>p_status := ''PROCESSING'',
          p_response_payload := Some (toJsonString S result)\<rparr>"])
      (simp add: newOrder_simps newPayment_def)
qed

lemma createdReply_data:
  "createdReply rq pn result = Some rep \<Longrightarrow> snd rep = NoError \<and> isMember (fst rep) ''data'' = Some True \<and> fst rep \<noteq> JNull"
  by (auto simp: createdReply_def jobject_def)

lemma quiet_wrapped:
  assumes "quiet e" "txn_of w = NoTxn" "key_inv (tabs w)" "r \<in> set (t_idem (tabs w))"
    and "i_key r = key" "i_hash r = hash" "key \<noteq> []" "createdReply rq pn result = Some rep"
  shows "\<exists>w'. wrappedCb e S key hash rep w = (Some rep, w') \<and> txn_of w' = NoTxn \<and> key_inv (tabs w') \<and>
    t_orders (tabs w') = t_orders (tabs w) \<and> t_payments (tabs w') = t_payments (tabs w) \<and>
    r\<lparr>i_snapshot := Some (snapshot_text (toJsonString S) hash (fst rep))\<rparr> \<in> set (t_idem (tabs w'))"
  using quiet_updateResult [OF assms(1-6), of "toJsonString S" "hasRedis S" "fst rep"]
    createdReply_data [OF assms(8)] assms(7) by (auto simp: wrappedCb_def)

lemma stored_is_replayed:
  assumes "quiet e" "txn_of w = NoTxn" "key \<noteq> []" "key_fit key hash" "key_inv (tabs w)" "r \<in> set (t_idem (tabs w))"
    and r: "i_key r = key" "i_hash r = hash" "i_snapshot r = Some (snapshot_text (toJsonString S) hash (fst rep))"
    and "live_at (clock e (Suc (tick w))) r" "createdReply rq pn result = Some rep" "requestHash S rq' = hash"
    and codec: "parseJson S (snapshot_text (toJsonString S) hash (fst rep)) =
      (True, jobject [(''request_hash'', JString hash), (''response'', fst rep)])"
  shows "createPayment e S rq' key w = (Some rep, next_tick (next_tick w))"
proof -
  have "answer_row (parseJson S) hash r = Some \<lparr>cr_status = Replay, cr_cached = fst rep, cr_message = []\<rparr>"
    using r codec createdReply_data [OF assms(11)]
    by (cases "fst rep") (simp_all add: answer_row_def jobject_def)
  then have "checkAndSetStatus e (parseJson S) (ttlSeconds S) key hash w =
      (Some \<lparr>cr_status = Replay, cr_cached = fst rep, cr_message = []\<rparr>, next_tick (next_tick w))"
    using quiet_check_held [OF assms(1-6) r(1)] assms(3,10) by (simp add: checkAndSetStatus_def)
  then show ?thesis using assms(12) createdReply_data [OF assms(11)]
    by (cases rep) (simp add: createPayment_def idempotencyReply_def Let_def)
qed

text \<open>
  C21: a create that succeeds is performed once and replayed afterwards. When nothing fails
  and the channel accepts, the first call answers the channel's code, with the order
  \<open>PAYING\<close> and its payment \<open>PROCESSING\<close> with the channel's response; every later call under
  the same key whose order number, amount, currency and description are the same answers
  exactly the same reply without another channel call or any change of the tables, even
  when its user, channel, callback address or expiry differ, because the request hash does
  not cover them.
\<close>

theorem createPayment_once_then_replayed:
  assumes "quiet e" "txn_of w = NoTxn" "wf_tables (tabs w)"
    and "key \<noteq> []" "key_fit key (requestHash S rq)" "key_view (tabs w) key = None"
    and "createPaymentProblem (clock e (Suc (tick w))) rq = None" "parseAmountToFen (cp_amount rq) = Some fen"
    and "order_fits (newOrder e rq w)" "cp_orderNo rq \<notin> o_order_no ` set (t_orders (tabs w))"
    and pn: "pn = generatePaymentNoValue S (Suc (tick w))" "pn \<notin> p_payment_no ` set (t_payments (tabs w))"
    and "payment_fits (newPayment rq pn (toJsonString S (createPayload S rq fen)) 0)"
    and "findChannel S (cp_channel rq) = Some ch"
    and "\<forall>n. ch_createQRPayment ch n (createPayload S rq fen) = Some (result, [])"
    and "channelResultError (cp_channel rq) result = Some []" "createdReply rq pn result = Some rep"
    and unexpired: "\<forall>n. clock e n < clock e (tick w) + ttlSeconds S * 1000000"
    and codec: "parseJson S (snapshot_text (toJsonString S) (requestHash S rq) (fst rep)) =
      (True, jobject [(''request_hash'', JString (requestHash S rq)), (''response'', fst rep)])"
  shows "\<exists>w1. createPayment e S rq key w = (Some rep, w1) \<and>
    (\<exists>order \<in> set (t_orders (tabs w1)). o_order_no order = cp_orderNo rq \<and> o_status order = ''PAYING'') \<and>
    (\<exists>p \<in> set (t_payments (tabs w1)). p_payment_no p = pn \<and> p_order_no p = cp_orderNo rq \<and>
        p_status p = ''PROCESSING'' \<and> p_response_payload p = Some (toJsonString S result)) \<and>
    (\<forall>rq'. cp_orderNo rq' = cp_orderNo rq \<and> cp_amount rq' = cp_amount rq \<and>
        cp_currency rq' = cp_currency rq \<and> cp_description rq' = cp_description rq \<longrightarrow>
        (\<exists>w2. createPayment e S rq' key w1 = (Some rep, w2) \<and> tabs w2 = tabs w1 \<and> events w2 = events w1))"
proof -
  let ?hash = "requestHash S rq" and ?x = "clock e (tick w) + ttlSeconds S * 1000000"
  let ?r = "\<lparr>i_key = key, i_hash = ?hash, i_snapshot = None, i_expire_at = Some ?x, i_owner_token = None\<rparr>"
  let ?r2 = "?r\<lparr>i_snapshot := Some (snapshot_text (toJsonString S) ?hash (fst rep))\<rparr>"
  let ?w1 = "(next_tick w)\<lparr>tabs := snd (key_step (Reserve key ?hash ?x) (tabs w))\<rparr>"
  have kinv: "key_inv (tabs w)" using assms(3) by (simp add: wf_tables_def key_inv_def)
  have c: "checkAndSetStatus e (parseJson S) (ttlSeconds S) key ?hash w = (Some (result_of Started []), ?w1)"
    using quiet_check_free [OF assms(1,2,4-6)] by (simp add: checkAndSetStatus_def)
  have t1: "tabs ?w1 = (tabs w)\<lparr>t_idem := t_idem (tabs w) @ [?r]\<rparr>"
    using key_step_reserve [OF assms(5,6)] by simp
  have tk: "tick ?w1 = Suc (tick w)" and "txn_of ?w1 = NoTxn" using assms(2) by (simp_all add: next_tick_def)
  moreover have "order_fits (newOrder e rq ?w1)" using assms(9) newOrder_simps(3) by blast
  ultimately
  obtain w2 order p where w2: "proceedCreatePayment e S rq pn fen ?w1 = (Some rep, w2)" "txn_of w2 = NoTxn"
    "t_idem (tabs w2) = t_idem (tabs w) @ [?r]"
    "order \<in> set (t_orders (tabs w2))" "o_order_no order = cp_orderNo rq" "o_status order = ''PAYING''"
    "p \<in> set (t_payments (tabs w2))" "p_payment_no p = pn" "p_order_no p = cp_orderNo rq"
    "p_status p = ''PROCESSING''" "p_response_payload p = Some (toJsonString S result)"
    using quiet_proceed [OF assms(1), of ?w1 rq pn S fen ch result] t1 assms(10,12-17) by auto
  have "key_inv (tabs w2)"
    using idem.inv_step [OF kinv, of "Reserve key ?hash ?x"] w2(3) t1 by (simp add: key_inv_def)
  with quiet_wrapped [OF assms(1) w2(2), of ?r key ?hash rq pn result rep S] w2(3) assms(4,17)
  obtain w3 where w3: "wrappedCb e S key ?hash rep w2 = (Some rep, w3)" "txn_of w3 = NoTxn"
    "key_inv (tabs w3)" "t_orders (tabs w3) = t_orders (tabs w2)" "t_payments (tabs w3) = t_payments (tabs w2)"
    "?r2 \<in> set (t_idem (tabs w3))" by auto
  have first: "createPayment e S rq key w = (Some rep, w3)"
    using c w2(1) w3(1) assms(7,8) pn(1) tk
    by (simp add: createPayment_def createStarted_def idempotencyReply_def result_of_def Let_def)
  have "live_at (clock e (Suc (tick w3))) ?r2" using unexpired by (simp add: live_at_def)
  then have "createPayment e S rq' key w3 = (Some rep, next_tick (next_tick w3))"
    if "requestHash S rq' = ?hash" for rq'
    using stored_is_replayed [OF assms(1) w3(2) assms(4,5) w3(3,6) _ _ _ _ assms(17) that codec] by simp
  moreover have "requestHash S rq' = ?hash" if "cp_orderNo rq' = cp_orderNo rq" "cp_amount rq' = cp_amount rq"
    "cp_currency rq' = cp_currency rq" "cp_description rq' = cp_description rq" for rq'
    using that by (simp add: requestHash_def)
  ultimately show ?thesis using first w3(4,5) w2(4-11) by (metis next_tick_simps(1,3))
qed

definition paid_url :: json where
  "paid_url = JObject [(''code_url'', JString ''weixin://q'')]"

definition sample_no :: string where
  "sample_no = ''PAY2025010100000000000001''"

definition sample_reply :: json where
  "sample_reply = fst (the (createdReply sample_request sample_no paid_url))"

definition sample_sys :: sys where
  "sample_sys = plain_sys\<lparr>findChannel := \<lambda>_. Some (silent_channel\<lparr>ch_createQRPayment := \<lambda>_ _. Some (paid_url, [])\<rparr>),
     parseJson := \<lambda>_. (True, jobject [(''request_hash'', JString ''h''), (''response'', sample_reply)])\<rparr>"

lemma sample_facts:
  "requestHash sample_sys rq = ''h''" "generatePaymentNoValue sample_sys (Suc 0) = sample_no"
  "createdReply sample_request sample_no paid_url = Some (sample_reply, NoError)"
  "channelResultError ''wechat'' paid_url = Some []"
  "createPaymentProblem 5 sample_request = None" "parseAmountToFen ''1.50'' = Some 150"
  "key_fit ''k'' ''h''" "order_fits (newOrder e sample_request w)"
  "payment_fits (newPayment sample_request sample_no ''{}'' 0)"
proof -
  show "requestHash sample_sys rq = ''h''" by (simp add: requestHash_def sample_sys_def plain_sys_def)
  show "generatePaymentNoValue sample_sys (Suc 0) = sample_no" by code_simp
  show "createdReply sample_request sample_no paid_url = Some (sample_reply, NoError)"
    by (simp add: sample_reply_def createdReply_def createdData_def sample_request_def paid_url_def jstr_def Let_def)
  show "channelResultError ''wechat'' paid_url = Some []"
    by (simp add: channelResultError_def wechatResultError_def paid_url_def)
  show "createPaymentProblem 5 sample_request = None" by code_simp
  show "parseAmountToFen ''1.50'' = Some 150" by code_simp
  show "key_fit ''k'' ''h''" by code_simp
  show "payment_fits (newPayment sample_request sample_no ''{}'' 0)" by code_simp
  have "order_fits (newOrder calm sample_request (fresh no_rows))" by code_simp
  then show "order_fits (newOrder e sample_request w)"
    by (simp add: newOrder_def order_fits_def sample_request_def)
qed

theorem createPayment_once_then_replayed_witness:
  "let e = calm\<lparr>clock := \<lambda>_. 5\<rparr>
   in \<exists>w1 w2. createPayment e sample_sys sample_request ''k'' (fresh no_rows) = (Some (sample_reply, NoError), w1) \<and>
        createPayment e sample_sys (sample_request\<lparr>cp_userId := 99\<rparr>) ''k'' w1 = (Some (sample_reply, NoError), w2) \<and>
        tabs w2 = tabs w1 \<and> events w2 = events w1"
proof -
  let ?e = "calm\<lparr>clock := \<lambda>_. 5\<rparr>" and ?w = "fresh no_rows"
  let ?ch = "(silent_channel\<lparr>ch_createQRPayment := \<lambda>_ _. Some (paid_url, [])\<rparr>)"
  have a: "quiet ?e" "wf_tables (tabs ?w)" "key_view (tabs ?w) ''k'' = None"
    by (simp_all add: quiet_def calm_def wf_tables_def keyed_def no_rows_def key_view_def)
  have r: "cp_channel sample_request = ''wechat''" "cp_amount sample_request = ''1.50''"
    by (simp_all add: sample_request_def)
  have s: "toJsonString sample_sys j = ''{}''" "findChannel sample_sys n = Some ?ch" "ttlSeconds sample_sys = 60"
    "parseJson sample_sys t = (True, jobject [(''request_hash'', JString ''h''), (''response'', sample_reply)])"
    for j n t by (simp_all add: sample_sys_def plain_sys_def)
  from createPayment_once_then_replayed [where e = ?e and w = ?w and key = "''k''" and S = sample_sys
      and rq = sample_request and fen = 150 and pn = sample_no and ch = ?ch and result = paid_url
      and rep = "(sample_reply, NoError)", OF a(1) _ a(2)]
  have "\<exists>w1. createPayment ?e sample_sys sample_request ''k'' ?w = (Some (sample_reply, NoError), w1) \<and>
      (\<forall>rq'. cp_orderNo rq' = cp_orderNo sample_request \<and> cp_amount rq' = cp_amount sample_request \<and>
        cp_currency rq' = cp_currency sample_request \<and> cp_description rq' = cp_description sample_request \<longrightarrow>
        (\<exists>w2. createPayment ?e sample_sys rq' ''k'' w1 = (Some (sample_reply, NoError), w2) \<and>
           tabs w2 = tabs w1 \<and> events w2 = events w1))"
    using a(3) sample_facts by (fastforce simp: r s no_rows_def)
  then show ?thesis by (auto simp: Let_def)
qed

section \<open>Refused attempts\<close>

lemma quiet_refused_order:
  assumes "quiet e" "txn_of w = NoTxn" "keyed o_order_no (t_orders (tabs w))" "order \<in> set (t_orders (tabs w))"
  shows "tabs (bookRefusedOrder e (o_order_no order) w) =
     (tabs w)\<lparr>t_orders := update_where (\<lambda>r. r = order) (\<lambda>r. r\<lparr>o_status := ''FAILED''\<rparr>) (t_orders (tabs w))\<rparr>"
proof -
  let ?q = "reads (select_orders (\<lambda>r. o_order_no r = o_order_no order))"
  have "?q (tabs w) = Inr ([order], tabs w)"
    using keyed_filter_key [OF assms(3,4)] by (simp add: reads_def select_orders_def)
  with quiet_mapper [OF assms(1), of w ?q "[order]" "tabs w"] assms(2)
  have m: "mapper e ?q w = (Ok [order], next_tick w)" by (simp add: next_tick_def)
  obtain n where "fail_order (o_order_no order) (tabs (next_tick w)) = Inr (n, (tabs w)\<lparr>t_orders :=
      update_where (\<lambda>r. r = order) (\<lambda>r. r\<lparr>o_status := ''FAILED''\<rparr>) (t_orders (tabs w))\<rparr>)"
    using update_where_key [OF assms(3,4)] by (simp add: fail_order_def update_orders_def)
  with quiet_mapper [OF assms(1), of "next_tick w" "fail_order (o_order_no order)"] assms(2) m
  show ?thesis by (simp add: bookRefusedOrder_def)
qed

lemma quiet_refused:
  assumes "quiet e" "txn_of w = NoTxn" "wf_tables (tabs w)"
    and "p \<in> set (t_payments (tabs w))" "order \<in> set (t_orders (tabs w))"
  shows "tabs (bookRefusedAttempt e True (p_payment_no p) (o_order_no order) text w) =
     (tabs w)\<lparr>t_payments := update_where (\<lambda>r. r = p) (\<lambda>r. r\<lparr>p_status := ''FAIL'', p_response_payload := Some text\<rparr>)
                (t_payments (tabs w)),
             t_orders := update_where (\<lambda>r. r = order) (\<lambda>r. r\<lparr>o_status := ''FAILED''\<rparr>) (t_orders (tabs w))\<rparr>"
proof -
  let ?q = "reads (select_payments (\<lambda>r. p_payment_no r = p_payment_no p))"
  let ?t = "(tabs w)\<lparr>t_payments := update_where (\<lambda>r. r = p)
    (\<lambda>r. r\<lparr>p_status := ''FAIL'', p_response_payload := Some text\<rparr>) (t_payments (tabs w))\<rparr>"
  let ?w2 = "(next_tick (next_tick w))\<lparr>tabs := ?t\<rparr>"
  have k: "keyed p_payment_no (t_payments (tabs w))" "keyed o_order_no (t_orders (tabs w))"
    using assms(3) by (simp_all add: wf_tables_def)
  have "?q (tabs w) = Inr ([p], tabs w)"
    using keyed_filter_key [OF k(1) assms(4)] by (simp add: reads_def select_payments_def)
  with quiet_mapper [OF assms(1), of w ?q "[p]" "tabs w"] assms(2)
  have m: "mapper e ?q w = (Ok [p], next_tick w)" by (simp add: next_tick_def)
  obtain n where "fail_payment (p_payment_no p) text (tabs (next_tick w)) = Inr (n, ?t)"
    using update_where_key [OF k(1) assms(4)] by (simp add: fail_payment_def update_payments_def)
  with quiet_mapper [OF assms(1), of "next_tick w" "fail_payment (p_payment_no p) text"] assms(2)
  have "mapper e (fail_payment (p_payment_no p) text) (next_tick w) = (Ok n, ?w2)" by simp
  with m quiet_refused_order [OF assms(1), of ?w2 order] assms(2,5) k(2) show ?thesis
    by (simp add: bookRefusedAttempt_def)
qed

text \<open>
  C22: what an error answer of the channel books. In a quiet run the reply is 1002 in every
  case; an error that does not prove a refusal leaves every row as it was, so that a late
  notification can still settle it; a proved refusal sets the payment to \<open>FAIL\<close> with the
  error and its order to \<open>FAILED\<close> and touches no other row. These two writes carry no
  guard on the status: a payment that a notification settled meanwhile is set to \<open>FAIL\<close> too.
\<close>

theorem channel_error_booking:
  assumes "quiet e" "txn_of w = NoTxn" "wf_tables (tabs w)" "hasDb S"
    and "p \<in> set (t_payments (tabs w))" "order \<in> set (t_orders (tabs w))"
    and "o_order_no order = cp_orderNo rq"
    and "onChannelError e S rq (p_payment_no p) error w = (rep, w')"
  shows "rep = Some (channelErrorReply rq error) \<and> events w' = events w \<and>
     tabs w' =
       (if attemptCertainlyNotCreated error
        then (tabs w)
          \<lparr>t_payments := update_where (\<lambda>r. r = p)
             (\<lambda>r. r\<lparr>p_status := ''FAIL'',
                    p_response_payload := Some (toJsonString S (jobject [(''error'', JString error)]))\<rparr>)
             (t_payments (tabs w)),
           t_orders := update_where (\<lambda>r. r = order) (\<lambda>r. r\<lparr>o_status := ''FAILED''\<rparr>) (t_orders (tabs w))\<rparr>
        else tabs w)"
  using assms quiet_refused [OF assms(1-3,5,6)] refused_events by (auto simp: onChannelError_def)

text \<open>A settled payment is overwritten: here \<open>SUCCESS\<close> under a \<open>PAID\<close> order.\<close>

theorem channel_error_booking_witness:
  "let p = (newPayment sample_request sample_no ''{}'' 0)\<lparr>p_status := ''SUCCESS''\<rparr>;
       order = (newOrder calm sample_request (fresh no_rows))\<lparr>o_status := ''PAID''\<rparr>;
       w = fresh (no_rows\<lparr>t_orders := [order], t_payments := [p]\<rparr>);
       (rep, w') = onChannelError calm sample_sys sample_request sample_no ''WeChat error: SYSTEM_ERROR x'' w
   in map p_status (t_payments (tabs w')) = [''FAIL''] \<and> map o_status (t_orders (tabs w')) = [''FAILED'']"
proof -
  let ?p = "(newPayment sample_request sample_no ''{}'' 0)\<lparr>p_status := ''SUCCESS''\<rparr>"
  let ?o = "(newOrder calm sample_request (fresh no_rows))\<lparr>o_status := ''PAID''\<rparr>"
  let ?w = "fresh (no_rows\<lparr>t_orders := [?o], t_payments := [?p]\<rparr>)"
  let ?err = "''WeChat error: SYSTEM_ERROR x''"
  have wf: "wf_tables (tabs ?w)"
    by (simp add: wf_tables_def keyed_def no_rows_def newPayment_def newOrder_def)
  have pn: "p_payment_no ?p = sample_no" by (simp add: newPayment_def)
  have c: "attemptCertainlyNotCreated ?err" by code_simp
  obtain rep w' where r: "onChannelError calm sample_sys sample_request (p_payment_no ?p) ?err ?w = (rep, w')"
    by fastforce
  have "hasDb sample_sys" by (simp add: sample_sys_def plain_sys_def)
  from channel_error_booking [OF quiet_calm _ wf this _ _ _ r, of ?o] c r
  show ?thesis by (simp add: pn Let_def update_where_def newOrder_simps)
qed

end
