(* ===== verification/Pay_Qr.thy ===== *)
theory Pay_Qr
  imports Pay_Create
begin

text \<open>
  \<open>PaymentService::createQRPayment\<close>: reading the request, the idempotency check, the
  refusals, the probe of an existing order, the booking of the order and of one payment per
  attempt, the channel call and the promotion or closing of the attempt. Every status write
  of this flow is guarded by the status the attempt left.
\<close>

section \<open>Request\<close>

record qr_request =
  q_orderNo :: string
  q_amount :: string
  q_channel :: string
  q_subject :: string
  q_timeExpire :: string
  q_userId :: int
  q_requestedCurrency :: string
  q_currency :: "string option"
  q_key :: string
  q_notifyUrl :: string
  q_buyerId :: "string option"

text \<open>The five texts read first; \<open>None\<close>: an accessor throws.\<close>

definition qrTexts :: "json \<Rightarrow> (string \<times> string \<times> string \<times> string \<times> string) option" where
  "qrTexts request =
     (case (jstr request ''order_no'' [], jstr request ''amount'' [], jstr request ''channel'' ''alipay'',
            jstr request ''subject'' ''Payment'', jstr request ''time_expire'' []) of
        (Some orderNo, Some amount, Some channel, Some subject, Some timeExpire) \<Rightarrow>
          Some (orderNo, amount, channel, subject, timeExpire)
      | _ \<Rightarrow> None)"

definition qrUserId :: "json \<Rightarrow> int option" where
  "qrUserId request =
     (case jget request ''user_id'' JNull of
        None \<Rightarrow> None
      | Some v \<Rightarrow> if isInt64 v then asInt64 v else Some 0)"

definition qrBuyerId :: "json \<Rightarrow> string option option" where
  "qrBuyerId request =
     (case (isMember request ''buyer_id'', jstr request ''buyer_id'' []) of
        (Some present, Some text) \<Rightarrow> Some (if present then Some text else None)
      | _ \<Rightarrow> None)"

definition qrRequest ::
  "json \<Rightarrow> string \<Rightarrow> string \<Rightarrow> string \<Rightarrow> string \<Rightarrow> string \<Rightarrow> int \<Rightarrow> qr_request option" where
  "qrRequest request orderNo amount channel subject timeExpire userId =
     (case (if channel = ''wechat'' then jstr request ''currency'' ''CNY'' else Some ''CNY'',
            jstr request ''idempotency_key'' (''QR_'' @ orderNo @ ''_'' @ channel),
            jstr request ''notify_url'' [], qrBuyerId request) of
        (Some requestedCurrency, Some key, Some notifyUrl, Some buyerId) \<Rightarrow>
          Some \<lparr>q_orderNo = orderNo, q_amount = amount, q_channel = channel, q_subject = subject,
                q_timeExpire = timeExpire, q_userId = userId, q_requestedCurrency = requestedCurrency,
                q_currency = normalizeQrCurrency requestedCurrency, q_key = key, q_notifyUrl = notifyUrl,
                q_buyerId = buyerId\<rparr>
      | _ \<Rightarrow> None)"

definition currencyText :: "qr_request \<Rightarrow> string" where
  "currencyText q = (case q_currency q of Some c \<Rightarrow> c | None \<Rightarrow> [])"

definition qrRequestHash :: "sys \<Rightarrow> qr_request \<Rightarrow> string" where
  "qrRequestHash S q =
     getSha256 S (toJsonString S (jobject
       [(''order_no'', JString (q_orderNo q)), (''amount'', JString (q_amount q)),
        (''channel'', JString (q_channel q)), (''subject'', JString (q_subject q)),
        (''user_id'', JInt (q_userId q)),
        (''currency'', JString (case q_currency q of Some c \<Rightarrow> c | None \<Rightarrow> q_requestedCurrency q)),
        (''notify_url'', JString (q_notifyUrl q)),
        (''buyer_id'', JString (case q_buyerId q of Some b \<Rightarrow> b | None \<Rightarrow> [])),
        (''time_expire'', JString (q_timeExpire q))]))"

text \<open>The refusals before the booking, in their order: the message and the error text.\<close>

definition wechatQrProblem :: "qr_request \<Rightarrow> (string \<times> string) option" where
  "wechatQrProblem q =
     (if (case parseAmountToFen (q_amount q) of None \<Rightarrow> True | Some fen \<Rightarrow> fen \<le> 0)
      then Some (''Invalid amount for WeChat native payment'', ''invalid amount for native payment'')
      else
        (case validateWechatOrderFields (q_orderNo q) (q_subject q) [] of
           Some fieldError \<Rightarrow> Some (fieldError, fieldError)
         | None \<Rightarrow>
             if q_notifyUrl q = [] then None
             else map_option (\<lambda>urlError. (urlError, urlError)) (validateNotifyUrl (q_notifyUrl q))))"

definition qrProblem :: "int \<Rightarrow> qr_request \<Rightarrow> (string \<times> string) option" where
  "qrProblem now q =
     (if q_currency q = None
      then Some (''Invalid currency: expected a three-letter ISO-4217 code'', ''invalid currency'')
      else
        (case (if q_timeExpire q \<noteq> []
               then validateTimeExpire (now div 1000000) (q_timeExpire q) (q_channel q) else None) of
           Some timeExpireError \<Rightarrow> Some (timeExpireError, timeExpireError)
         | None \<Rightarrow> if q_channel q = ''wechat'' then wechatQrProblem q else None))"

definition qrPayload :: "qr_request \<Rightarrow> json" where
  "qrPayload q =
     (if q_channel q = ''wechat''
      then jset_text ''time_expire'' (q_timeExpire q)
             (jset_text ''notify_url'' (q_notifyUrl q)
               (jobject [(''out_trade_no'', JString (q_orderNo q)), (''description'', JString (q_subject q)),
                         (''amount'', jobject
                            [(''total'', JInt (case parseAmountToFen (q_amount q) of Some fen \<Rightarrow> fen | None \<Rightarrow> 0)),
                             (''currency'', JString (currencyText q))])]))
      else (\<lambda>j. case q_buyerId q of Some b \<Rightarrow> jset ''buyer_id'' (JString b) j | None \<Rightarrow> j)
             (jobject [(''out_trade_no'', JString (q_orderNo q)), (''total_amount'', JString (q_amount q)),
                       (''subject'', JString (q_subject q))]))"

section \<open>Replies\<close>

definition failQr ::
  "env \<Rightarrow> string \<Rightarrow> string \<Rightarrow> int \<Rightarrow> string \<Rightarrow> json \<Rightarrow> world \<Rightarrow> reply option \<times> world" where
  "failQr e key hash code message extra w =
     (Some (jset ''message'' (JString message) (jset ''code'' (JInt code) extra),
            if 400 \<le> code \<and> code < 500 then PayError code message else IoError),
      snd (clearReservation e key hash w))"

definition respondQr :: "env \<Rightarrow> sys \<Rightarrow> string \<Rightarrow> string \<Rightarrow> json \<Rightarrow> world \<Rightarrow> reply option \<times> world" where
  "respondQr e S key hash data w =
     (let response = jobject [(''code'', JInt 0), (''message'', JString ''QR code created successfully''),
                              (''data'', data)]
      in case updateResult e (toJsonString S) (hasRedis S) key hash response w of
           (True, w1) \<Rightarrow> (Some (response, NoError), w1)
         | (False, w1) \<Rightarrow> (Some (response, NoError), snd (clearReservation e key hash w1)))"

text \<open>\<open>promoteQrRows\<close>: whatever happens to the rows, the code is answered.\<close>

definition promoteQrRows ::
  "env \<Rightarrow> sys \<Rightarrow> qr_request \<Rightarrow> string \<Rightarrow> string \<Rightarrow> json \<Rightarrow> json \<Rightarrow> world \<Rightarrow> reply option \<times> world" where
  "promoteQrRows e S q hash paymentNo result data w =
     (case mapper e (promote_payment paymentNo
              (toJsonString S (jobject [(''channel_response'', result)]))) w of
        (Ok updated, w1) \<Rightarrow>
          respondQr e S (q_key q) hash data
            (if updated = 0 then w1 else snd (mapper e (promote_order (q_orderNo q)) w1))
      | (_, w1) \<Rightarrow> respondQr e S (q_key q) hash data w1)"

definition markQrPaymentFailed :: "env \<Rightarrow> sys \<Rightarrow> string \<Rightarrow> string \<Rightarrow> world \<Rightarrow> world" where
  "markQrPaymentFailed e S paymentNo message w =
     snd (mapper e (close_attempt paymentNo (toJsonString S (jobject [(''error'', JString message)]))) w)"

section \<open>The channel's answer\<close>

definition closeIfRefused :: "env \<Rightarrow> sys \<Rightarrow> string \<Rightarrow> string \<Rightarrow> string \<Rightarrow> world \<Rightarrow> world" where
  "closeIfRefused e S paymentNo failure message w =
     (if attemptCertainlyNotCreated failure then markQrPaymentFailed e S paymentNo message w else w)"

definition qrErrorExtra :: "string \<Rightarrow> json \<Rightarrow> json option" where
  "qrErrorExtra channel result =
     (if channel = ''alipay''
      then (case (jstr result ''code'' [], jstr result ''sub_code'' []) of
              (Some code, Some sub) \<Rightarrow>
                Some (jobject [(''alipay_code'', JString code), (''alipay_sub_code'', JString sub)])
            | _ \<Rightarrow> None)
      else map_option (\<lambda>code. jobject [(''wechat_code'', JString code)]) (jstr result ''code'' []))"

definition copyText :: "string \<Rightarrow> json \<Rightarrow> json option \<Rightarrow> json option" where
  "copyText k result data =
     (case (isMember result k, data) of
        (Some True, Some d) \<Rightarrow> map_option (\<lambda>s. jset k (JString s) d) (jstr result k [])
      | (Some False, Some d) \<Rightarrow> Some d
      | _ \<Rightarrow> None)"

definition qrData :: "qr_request \<Rightarrow> json \<Rightarrow> json option" where
  "qrData q result =
     (let data = jobject [(''order_no'', JString (q_orderNo q))]
      in if q_channel q = ''wechat''
         then map_option (\<lambda>url. jset ''code_url'' (JString url) data) (jstr result ''code_url'' [])
         else copyText ''out_trade_no'' result (copyText ''qr_code'' result (Some data)))"

definition qrAnswer ::
  "env \<Rightarrow> sys \<Rightarrow> qr_request \<Rightarrow> string \<Rightarrow> string \<Rightarrow> json \<Rightarrow> string \<Rightarrow> world \<Rightarrow> reply option \<times> world" where
  "qrAnswer e S q hash paymentNo result error w =
     (if error \<noteq> []
      then let message = ''QR payment creation failed: '' @ error
           in failQr e (q_key q) hash 500 message JNull (closeIfRefused e S paymentNo error message w)
      else
        (case channelResultError (q_channel q) result of
           None \<Rightarrow> (None, w)
         | Some resultError \<Rightarrow>
             if resultError \<noteq> []
             then (case qrErrorExtra (q_channel q) result of
                     None \<Rightarrow> (None, w)
                   | Some extra \<Rightarrow>
                       failQr e (q_key q) hash 500 resultError extra
                         (closeIfRefused e S paymentNo resultError resultError w))
             else (case qrData q result of
                     None \<Rightarrow> (None, w)
                   | Some data \<Rightarrow> promoteQrRows e S q hash paymentNo result data w)))"

definition offerQrChannel ::
  "env \<Rightarrow> sys \<Rightarrow> qr_request \<Rightarrow> string \<Rightarrow> string \<Rightarrow> channel \<Rightarrow> world \<Rightarrow> reply option \<times> world" where
  "offerQrChannel e S q hash paymentNo ch w =
     (let w1 = emit (ChannelCall (q_channel q) ''createQRPayment'' (qrPayload q)) w
      in case ch_createQRPayment ch (tick w1) (qrPayload q) of
           None \<Rightarrow> (None, w1)
         | Some (result, error) \<Rightarrow> qrAnswer e S q hash paymentNo result error w1)"

section \<open>Booking\<close>

definition qrPayment :: "sys \<Rightarrow> qr_request \<Rightarrow> string \<Rightarrow> int \<Rightarrow> payment_row" where
  "qrPayment S q paymentNo now =
     \<lparr>p_payment_no = paymentNo, p_order_no = q_orderNo q, p_status = ''INIT'', p_amount = q_amount q,
      p_request_payload = toJsonString S (qrPayload q), p_response_payload = None,
      p_channel_trade_no = None, p_created_at = now\<rparr>"

definition bookQrPayment ::
  "env \<Rightarrow> sys \<Rightarrow> qr_request \<Rightarrow> string \<Rightarrow> string \<Rightarrow> channel \<Rightarrow> world \<Rightarrow> reply option \<times> world" where
  "bookQrPayment e S q hash paymentNo ch w =
     (case mapper e (insert_payment (qrPayment S q paymentNo (clock e (tick w)))) w of
        (Ok _, w1) \<Rightarrow> offerQrChannel e S q hash paymentNo ch w1
      | (DbErr what, w1) \<Rightarrow>
          failQr e (q_key q) hash 500 (''Failed to book the QR payment: '' @ what) JNull w1
      | (Threw what, w1) \<Rightarrow>
          failQr e (q_key q) hash 500 (''Failed to book the QR payment: '' @ what_of ''unknown error'' what) JNull w1)"

definition qrOrder :: "env \<Rightarrow> qr_request \<Rightarrow> world \<Rightarrow> order_row" where
  "qrOrder e q w =
     \<lparr>o_order_no = q_orderNo q, o_user_id = q_userId q, o_amount = q_amount q, o_currency = currencyText q,
      o_status = ''CREATED'', o_channel = q_channel q, o_title = q_subject q,
      o_expire_at =
        (if q_timeExpire q \<noteq> []
         then (case parseRfc3339 (q_timeExpire q) of
                 Inr expireSeconds \<Rightarrow> Some (expireSeconds * 1000000)
               | Inl _ \<Rightarrow> None)
         else None),
      o_created_at = dbClock e (tick w), o_updated_at = dbClock e (tick w)\<rparr>"

definition insertQrOrder ::
  "env \<Rightarrow> sys \<Rightarrow> qr_request \<Rightarrow> string \<Rightarrow> string \<Rightarrow> channel \<Rightarrow> world \<Rightarrow> reply option \<times> world" where
  "insertQrOrder e S q hash paymentNo ch w =
     (case mapper e (insert_order (qrOrder e q w)) w of
        (Ok _, w1) \<Rightarrow> bookQrPayment e S q hash paymentNo ch w1
      | (DbErr what, w1) \<Rightarrow>
          failQr e (q_key q) hash 500 (''Failed to book the QR order: '' @ what) JNull w1
      | (Threw what, w1) \<Rightarrow>
          failQr e (q_key q) hash 500 (''Failed to book the QR order: '' @ what_of ''unknown error'' what) JNull w1)"

definition settled_payment_of :: "string \<Rightarrow> payment_row \<Rightarrow> bool" where
  "settled_payment_of on r \<longleftrightarrow> p_order_no r = on \<and> p_status r \<in> {''SUCCESS'', ''REFUNDED''}"

definition refuseIfAlreadySettled ::
  "env \<Rightarrow> sys \<Rightarrow> qr_request \<Rightarrow> string \<Rightarrow> string \<Rightarrow> channel \<Rightarrow> world \<Rightarrow> reply option \<times> world" where
  "refuseIfAlreadySettled e S q hash paymentNo ch w =
     (case mapper e (reads (select_payments (settled_payment_of (q_orderNo q)))) w of
        (Ok [], w1) \<Rightarrow> bookQrPayment e S q hash paymentNo ch w1
      | (Ok (r # _), w1) \<Rightarrow>
          failQr e (q_key q) hash 400
            (''Order '' @ q_orderNo q @ '' already has a settled payment ('' @ p_status r @ '')'') JNull w1
      | (DbErr what, w1) \<Rightarrow>
          failQr e (q_key q) hash 500 (''Failed to read the QR order'' @ [CHR 0x27] @ ''s payment attempts: '' @ what) JNull w1
      | (Threw what, w1) \<Rightarrow>
          failQr e (q_key q) hash 500
            (''Failed to read the QR order'' @ [CHR 0x27] @ ''s payment attempts: '' @ what_of ''unknown error'' what) JNull w1)"

text \<open>Why an existing order may not be offered again, if it may not.\<close>

definition sameAmount :: "string \<Rightarrow> string \<Rightarrow> bool" where
  "sameAmount booked requested =
     (case (parseAmountToFen booked, parseAmountToFen requested) of
        (Some bookedFen, Some requestedFen) \<Rightarrow> bookedFen = requestedFen
      | _ \<Rightarrow> booked = requested)"

definition reuseProblem :: "qr_request \<Rightarrow> order_row \<Rightarrow> string option" where
  "reuseProblem q existing =
     (if o_status existing \<in> {''PAID'', ''SUCCESS'', ''REFUNDED''}
      then Some (''Order '' @ q_orderNo q @ '' is already '' @ o_status existing @ '' and cannot be offered again'')
      else if \<not> sameAmount (o_amount existing) (q_amount q)
      then Some (''Order '' @ q_orderNo q @ '' exists with amount '' @ o_amount existing)
      else if o_currency existing \<noteq> currencyText q
      then Some (''Order '' @ q_orderNo q @ '' exists with currency '' @ o_currency existing)
      else if o_channel existing \<noteq> q_channel q
      then Some (''Order '' @ q_orderNo q @ '' belongs to channel '' @ o_channel existing)
      else if o_user_id existing \<noteq> q_userId q
      then Some (''Order '' @ q_orderNo q @ '' belongs to another user'')
      else None)"

definition probeQrOrder ::
  "env \<Rightarrow> sys \<Rightarrow> qr_request \<Rightarrow> string \<Rightarrow> string \<Rightarrow> channel \<Rightarrow> world \<Rightarrow> reply option \<times> world" where
  "probeQrOrder e S q hash paymentNo ch w =
     (case mapper e (reads (select_orders (\<lambda>r. o_order_no r = q_orderNo q))) w of
        (Ok [], w1) \<Rightarrow> insertQrOrder e S q hash paymentNo ch w1
      | (Ok (existing # _), w1) \<Rightarrow>
          (case reuseProblem q existing of
             Some message \<Rightarrow> failQr e (q_key q) hash 400 message JNull w1
           | None \<Rightarrow> refuseIfAlreadySettled e S q hash paymentNo ch w1)
      | (DbErr what, w1) \<Rightarrow> failQr e (q_key q) hash 500 (''Failed to read the QR order: '' @ what) JNull w1
      | (Threw what, w1) \<Rightarrow>
          failQr e (q_key q) hash 500 (''Failed to read the QR order: '' @ what_of ''unknown error'' what) JNull w1)"

section \<open>The flow\<close>

definition qrStarted ::
  "env \<Rightarrow> sys \<Rightarrow> qr_request \<Rightarrow> string \<Rightarrow> world \<Rightarrow> reply option \<times> world" where
  "qrStarted e S q hash w =
     (case qrProblem (clock e (tick w)) q of
        Some (message, text) \<Rightarrow>
          (Some (pay_error 400 message text), snd (clearReservation e (q_key q) hash w))
      | None \<Rightarrow>
          (case findChannel S (q_channel q) of
             None \<Rightarrow>
               (Some (pay_error 1005 (''CHANNEL_NOT_AVAILABLE: '' @ q_channel q)
                                     (''channel not available: '' @ q_channel q)),
                snd (clearReservation e (q_key q) hash w))
           | Some ch \<Rightarrow> probeQrOrder e S q hash (generatePaymentNoValue S (tick w)) ch w))"

definition qrChecked :: "env \<Rightarrow> sys \<Rightarrow> qr_request \<Rightarrow> world \<Rightarrow> reply option \<times> world" where
  "qrChecked e S q w =
     (let hash = qrRequestHash S q
      in case checkAndSetStatus e (parseJson S) (ttlSeconds S) (q_key q) hash w of
           (None, w1) \<Rightarrow> (None, w1)
         | (Some r, w1) \<Rightarrow>
             (case idempotencyReply r of
                Some rep \<Rightarrow> (Some rep, w1)
              | None \<Rightarrow> qrStarted e S q hash w1))"

definition createQRPayment :: "env \<Rightarrow> sys \<Rightarrow> json \<Rightarrow> world \<Rightarrow> reply option \<times> world" where
  "createQRPayment e S request w =
     (if \<not> hasDb S
      then (Some (pay_error 1003 ''Database client not available'' ''database client not available''), w)
      else
        (case qrTexts request of
           None \<Rightarrow> (None, w)
         | Some (orderNo, amount, channel, subject, timeExpire) \<Rightarrow>
             if orderNo = [] \<or> amount = []
             then (Some (pay_error 400 ''Missing required parameters: order_no, amount''
                                       ''missing required parameters''), w)
             else
               (case qrUserId request of
                  None \<Rightarrow> (None, w)
                | Some userId \<Rightarrow>
                    if userId \<le> 0
                    then (Some (pay_error 400 ''Missing or invalid user_id'' ''missing user_id''), w)
                    else
                      (case qrRequest request orderNo amount channel subject timeExpire userId of
                         None \<Rightarrow> (None, w)
                       | Some q \<Rightarrow> qrChecked e S q w))))"

section \<open>Invariants across the flow\<close>

context booking_inv
begin

lemma fail_qr_holds:
  "failQr e key hash code msg extra w = (r, w') \<Longrightarrow> stable I e \<Longrightarrow> holds I w \<Longrightarrow> holds I w'"
  by (cases "clearReservation e key hash w") (auto simp: failQr_def dest: clear_holds)

lemma respond_qr_holds:
  assumes "respondQr e S key hash data w = (r, w')" "stable I e" "holds I w"
  shows "holds I w'"
proof -
  have c: "holds I (snd (clearReservation e key hash v))" if "holds I v" for v
    using clear_holds [of e key hash v] assms(2) that by (metis prod.collapse)
  show ?thesis
    using assms by (auto simp: respondQr_def Let_def c dest!: update_holds split: prod.splits bool.splits)
qed

lemma promote_qr_holds:
  assumes "promoteQrRows e S q hash pn result data w = (r, w')" "stable I e" "holds I w"
  shows "holds I w'"
proof -
  have "holds I (snd (mapper e (promote_order k) v))" if "holds I v" for v k
    using that assms(2) by (rule promo.mapper_holds [rotated])
  then show ?thesis
    using assms by (auto simp: promoteQrRows_def dest!: promp.mapper_holdsD dest: respond_qr_holds
        split: prod.splits dbres.splits if_splits)
qed

lemma close_holds: "stable I e \<Longrightarrow> holds I w \<Longrightarrow> holds I (closeIfRefused e S pn failure msg w)"
  by (simp add: closeIfRefused_def markQrPaymentFailed_def clos.mapper_holds)

lemma answer_qr_holds:
  "qrAnswer e S q hash pn result err w = (r, w') \<Longrightarrow> stable I e \<Longrightarrow> holds I w \<Longrightarrow> holds I w'"
  by (auto simp: qrAnswer_def Let_def intro: close_holds dest: fail_qr_holds promote_qr_holds
      split: if_splits option.splits)

lemma offer_qr_holds:
  "offerQrChannel e S q hash pn ch w = (r, w') \<Longrightarrow> stable I e \<Longrightarrow> holds I w \<Longrightarrow> holds I w'"
  by (auto simp: offerQrChannel_def Let_def dest: answer_qr_holds split: option.splits)

lemma book_qr_holds:
  "bookQrPayment e S q hash pn ch w = (r, w') \<Longrightarrow> stable I e \<Longrightarrow> holds I w \<Longrightarrow> holds I w'"
  by (auto simp: bookQrPayment_def dest!: pay.mapper_holdsD dest: offer_qr_holds fail_qr_holds
      split: prod.splits dbres.splits)

lemma insert_qr_holds:
  "insertQrOrder e S q hash pn ch w = (r, w') \<Longrightarrow> stable I e \<Longrightarrow> holds I w \<Longrightarrow> holds I w'"
  by (auto simp: insertQrOrder_def dest!: ord.mapper_holdsD dest: book_qr_holds fail_qr_holds
      split: prod.splits dbres.splits)

lemma refuse_qr_holds:
  "refuseIfAlreadySettled e S q hash pn ch w = (r, w') \<Longrightarrow> stable I e \<Longrightarrow> holds I w \<Longrightarrow> holds I w'"
  by (auto simp: refuseIfAlreadySettled_def dest!: read_stmt.mapper_holdsD [where I = I]
      dest: book_qr_holds fail_qr_holds split: prod.splits dbres.splits list.splits)

lemma probe_qr_holds:
  "probeQrOrder e S q hash pn ch w = (r, w') \<Longrightarrow> stable I e \<Longrightarrow> holds I w \<Longrightarrow> holds I w'"
  by (auto simp: probeQrOrder_def dest!: read_stmt.mapper_holdsD [where I = I]
      dest: insert_qr_holds refuse_qr_holds fail_qr_holds
      split: prod.splits dbres.splits list.splits option.splits)

lemma started_qr_holds:
  assumes "qrStarted e S q hash w = (r, w')" "stable I e" "holds I w"
  shows "holds I w'"
proof -
  have "holds I (snd (clearReservation e (q_key q) hash w))"
    using clear_holds [of e "q_key q" hash w] assms(2,3) by (metis prod.collapse)
  then show ?thesis
    using assms by (auto simp: qrStarted_def dest: probe_qr_holds split: option.splits)
qed

lemma checked_qr_holds:
  "qrChecked e S q w = (r, w') \<Longrightarrow> stable I e \<Longrightarrow> holds I w \<Longrightarrow> holds I w'"
  by (auto simp: qrChecked_def Let_def dest!: check_holds dest: started_qr_holds
      split: prod.splits option.splits)

lemma qr_holds: "stable I e \<Longrightarrow> holds I w \<Longrightarrow> holds I (snd (createQRPayment e S request w))"
  by (auto simp: createQRPayment_def split: option.splits)
    (metis checked_qr_holds prod.collapse)

end

section \<open>Properties\<close>

text \<open>
  \<open>createQRPayment\<close> keeps the books well formed under every fault and interleaving,
  as long as the other requests do.
\<close>

lemma createQRPayment_keeps_wf:
  assumes "stable wf_tables e" "holds wf_tables w"
  shows "holds wf_tables (snd (createQRPayment e S request w))"
  using assms by (rule wf_books.qr_holds)

definition sample_qr :: json where
  "sample_qr = jobject [(''order_no'', JString ''ORD-000001''), (''amount'', JString ''1.50''),
     (''channel'', JString ''wechat''), (''user_id'', JInt 7)]"

text \<open>
  \<open>createQRPayment\<close> never changes a settled row. Take any payments that are not
  \<open>INIT\<close> or \<open>PROCESSING\<close> and any orders past \<open>PAYING\<close>: if they are in the tables before
  the call and the other requests leave them alone, they are in the tables unchanged
  afterwards, whatever fails, whatever the channel answers and whenever a notification
  settles the attempt in between.
\<close>

lemma createQRPayment_keeps_settled:
  assumes "stable (books_kept ps os) e" "holds (books_kept ps os) w"
  shows "holds (books_kept ps os) (snd (createQRPayment e S request w))"
  using assms by (rule settled_books.qr_holds)

section \<open>Reuse of an order\<close>

lemma clear_events: "events (snd (clearReservation e key hash w)) = events w"
  by (auto simp: clearReservation_def dest!: mapper_events split: prod.splits dbres.splits)

lemma fail_qr_events: "failQr e key hash code msg extra w = (r, w') \<Longrightarrow> events w' = events w"
  by (auto simp: failQr_def clear_events)

lemma quiet_check_frame:
  assumes "quiet e" "txn_of w = NoTxn" "checkAndSetStatus e parse ttl key hash w = (r, w')"
  shows "txn_of w' = NoTxn \<and> events w' = events w \<and>
    t_orders (tabs w') = t_orders (tabs w) \<and> t_payments (tabs w') = t_payments (tabs w)"
  using assms
  by (auto simp: checkAndSetStatus_def checkDatabase_def exec_def mapper_def Let_def quiet_def settle_others_def
      abort_def reserve_stmt_def reads_def find_live_def
      split: if_splits sum.splits prod.splits list.splits option.splits)

lemma quiet_probe_events:
  assumes "quiet e" "txn_of w = NoTxn" "keyed o_order_no (t_orders (tabs w))"
    and "existing \<in> set (t_orders (tabs w))" "o_order_no existing = q_orderNo q"
    and "probeQrOrder e S q hash pn ch w = (rep, w')" "events w' \<noteq> events w"
  shows "reuseProblem q existing = None \<and> filter (settled_payment_of (q_orderNo q)) (t_payments (tabs w)) = []"
proof -
  let ?q = "select_orders (\<lambda>r. o_order_no r = q_orderNo q)"
  have "?q (tabs w) = Inr [existing]"
    using keyed_filter_key [OF assms(3,4)] assms(5) by (simp add: select_orders_def)
  from quiet_read [where q = ?q, OF assms(1) _ this] assms(2,6,7)
  have none: "reuseProblem q existing = None"
    and r: "refuseIfAlreadySettled e S q hash pn ch (next_tick w) = (rep, w')"
    by (auto simp: probeQrOrder_def dest: fail_qr_events split: option.splits)
  let ?p = "select_payments (settled_payment_of (q_orderNo q))"
  let ?rows = "filter (settled_payment_of (q_orderNo q)) (t_payments (tabs w))"
  have "?p (tabs (next_tick w)) = Inr ?rows" by (simp add: select_payments_def)
  from quiet_read [where q = ?p, OF assms(1) _ this] assms(2) r assms(7) none show ?thesis
    by (cases ?rows) (auto simp: refuseIfAlreadySettled_def dest: fail_qr_events)
qed


definition open_order_row :: order_row where
  "open_order_row = (newOrder calm sample_request (fresh no_rows))\<lparr>o_status := ''PAYING''\<rparr>"


end
