(* ===== verification/Pay_Sync.thy ===== *)
theory Pay_Sync
  imports Pay_Service
begin

text \<open>
  The two reconcile doors of \<open>PaymentService.cc\<close>: \<open>syncOrderStatusFromWechat\<close> and
  \<open>syncOrderStatusFromAlipay\<close>. Each reads a channel's answer about a trade, gates it on the
  amount, and settles the latest payment of the order and the order itself in one
  transaction. The result is the status handed to the callback, the empty text for a
  failure; \<open>None\<close> means the callback is not reached: an accessor throws on the answer, or
  the transaction pointer is null and is dereferenced.
\<close>

section \<open>Statements\<close>

text \<open>\<open>ORDER BY created_at DESC LIMIT 1\<close> among the attempts that can still carry money.\<close>

definition carries_money :: "string \<Rightarrow> payment_row \<Rightarrow> bool" where
  "carries_money orderNo r \<longleftrightarrow>
     p_order_no r = orderNo \<and> p_status r \<in> {''INIT'', ''PROCESSING'', ''SUCCESS'', ''REFUNDED''}"

definition latest_payment :: "string \<Rightarrow> tables \<Rightarrow> pg_error + payment_row option" where
  "latest_payment orderNo t = Inr (latest_by p_created_at (filter (carries_money orderNo) (t_payments t)))"

text \<open>The settled-refund sum; the \<open>NUMERIC\<close> sum and its text are the database's.\<close>

definition settled_refunds :: "string \<Rightarrow> tables \<Rightarrow> string list" where
  "settled_refunds orderNo t =
     map r_amount (filter (\<lambda>r. r_order_no r = orderNo \<and> r_status r = ''REFUND_SUCCESS'') (t_refunds t))"

definition refund_sum :: "env \<Rightarrow> string \<Rightarrow> tables \<Rightarrow> pg_error + string" where
  "refund_sum e orderNo t =
     (case numericSum e (settled_refunds orderNo t) of None \<Rightarrow> Inl BadCast | Some s \<Rightarrow> Inr s)"

text \<open>\<open>UPDATE pay_payment SET ... WHERE payment_no = $4 AND status IN ('INIT', 'PROCESSING')\<close>.\<close>

definition cas_payment ::
  "string \<Rightarrow> string \<Rightarrow> string \<Rightarrow> string \<Rightarrow> tables \<Rightarrow> pg_error + (nat \<times> tables)" where
  "cas_payment paymentStatus transactionId responsePayload paymentNo t =
     (if list_ex (open_attempt paymentNo) (t_payments t) \<and> \<not> fits 64 transactionId then Inl TooLong
      else update_payments (open_attempt paymentNo)
             (\<lambda>r. r\<lparr>p_status := paymentStatus, p_channel_trade_no := Some transactionId,
                    p_response_payload := Some responsePayload\<rparr>) t)"

definition set_order_status :: "string \<Rightarrow> string \<Rightarrow> tables \<Rightarrow> pg_error + (nat \<times> tables)" where
  "set_order_status orderNo status =
     update_orders (\<lambda>r. o_order_no r = orderNo) (\<lambda>r. r\<lparr>o_status := status\<rparr>)"

section \<open>Settling inside the transaction\<close>

text \<open>The order write with its ledger entry; both doors have the same three branches.\<close>

definition writeOrder ::
  "env \<Rightarrow> order_row \<Rightarrow> string \<Rightarrow> bool \<Rightarrow> string \<Rightarrow> world \<Rightarrow> string option \<times> world" where
  "writeOrder e order status credit paymentNo w =
     (case mapper e (set_order_status (o_order_no order) status) w of
        (Ok _, w1) \<Rightarrow>
          (Some status,
           if credit
           then insertLedgerEntry e True (o_user_id order) (o_order_no order) paymentNo ''PAYMENT'' (o_amount order) w1
           else w1)
      | (_, w1) \<Rightarrow> (Some [], rollback w1))"

definition wechatSettleOrder ::
  "env \<Rightarrow> string \<Rightarrow> string \<Rightarrow> int \<Rightarrow> string \<Rightarrow> world \<Rightarrow> string option \<times> world" where
  "wechatSettleOrder e orderNo orderStatus settledRefundFen paymentNo w =
     (case mapper e (reads (select_orders (\<lambda>r. o_order_no r = orderNo))) w of
        (Ok [order], w1) \<Rightarrow>
          let finalOrderStatus = orderStatusAfterRefundCoverage orderStatus (o_amount order) settledRefundFen
          in if o_status order = ''PAID'' then (Some finalOrderStatus, w1)
             else writeOrder e order finalOrderStatus
                    (finalOrderStatus = ''PAID'' \<or> finalOrderStatus = ''REFUNDED'') paymentNo w1
      | (_, w1) \<Rightarrow> (Some [], rollback w1))"

definition alipaySettleOrder ::
  "env \<Rightarrow> string \<Rightarrow> string \<Rightarrow> int \<Rightarrow> string \<Rightarrow> world \<Rightarrow> string option \<times> world" where
  "alipaySettleOrder e orderNo orderStatus notifiedFen paymentNo w =
     (case mapper e (reads (select_orders (\<lambda>r. o_order_no r = orderNo))) w of
        (Ok [order], w1) \<Rightarrow>
          if o_status order = ''PAID'' then (Some orderStatus, w1)
          else if orderStatus = ''PAID'' \<and> \<not> amountEqualsFen (o_amount order) notifiedFen
          then (Some [], rollback w1)
          else writeOrder e order orderStatus (orderStatus = ''PAID'') paymentNo w1
      | (_, w1) \<Rightarrow> (Some [], rollback w1))"

text \<open>A settled payment goes straight to the order; an open one through the CAS write.\<close>

definition settlePayment ::
  "env \<Rightarrow> payment_row \<Rightarrow> string \<Rightarrow> string \<Rightarrow> string \<Rightarrow> string \<Rightarrow>
     (world \<Rightarrow> string option \<times> world) \<Rightarrow> world \<Rightarrow> string option \<times> world" where
  "settlePayment e payment orderStatus paymentStatus transactionId responsePayload settleOrder w =
     (if p_status payment = ''SUCCESS'' then settleOrder w
      else if p_status payment = ''REFUNDED'' then (Some ''REFUNDED'', rollback w)
      else
        (case exec e (cas_payment paymentStatus transactionId responsePayload (p_payment_no payment)) w of
           (Inl _, w1) \<Rightarrow> (Some [], rollback w1)
         | (Inr rows, w1) \<Rightarrow> if rows = 0 then (Some orderStatus, rollback w1) else settleOrder w1))"

definition settledRefundFen :: "env \<Rightarrow> string \<Rightarrow> string \<Rightarrow> world \<Rightarrow> int \<times> world" where
  "settledRefundFen e orderNo orderStatus w =
     (if orderStatus = ''REFUNDED''
      then (case exec e (reads (refund_sum e orderNo)) w of
              (Inl _, w1) \<Rightarrow> (0, w1)
            | (Inr sumText, w1) \<Rightarrow> (case parseAmountToFen sumText of None \<Rightarrow> 0 | Some fen \<Rightarrow> fen, w1))
      else (0, w))"

definition wechatTxn ::
  "env \<Rightarrow> payment_row \<Rightarrow> string \<Rightarrow> string \<Rightarrow> string \<Rightarrow> string \<Rightarrow> string \<Rightarrow> world \<Rightarrow> string option \<times> world" where
  "wechatTxn e payment orderNo orderStatus paymentStatus transactionId responsePayload w =
     (case begin_txn e w of
        None \<Rightarrow> (None, next_tick w)
      | Some w1 \<Rightarrow>
          (case settledRefundFen e orderNo orderStatus w1 of
             (fen, w2) \<Rightarrow>
               (case settlePayment e payment orderStatus paymentStatus transactionId responsePayload
                       (wechatSettleOrder e orderNo orderStatus fen (p_payment_no payment)) w2 of
                  (status, w3) \<Rightarrow> (status, end_txn e w3))))"

definition alipayTxn ::
  "env \<Rightarrow> payment_row \<Rightarrow> string \<Rightarrow> string \<Rightarrow> string \<Rightarrow> string \<Rightarrow> string \<Rightarrow> int \<Rightarrow> world
     \<Rightarrow> string option \<times> world" where
  "alipayTxn e payment orderNo orderStatus paymentStatus transactionId responsePayload notifiedFen w =
     (case begin_txn e w of
        None \<Rightarrow> (None, next_tick w)
      | Some w1 \<Rightarrow>
          (case settlePayment e payment orderStatus paymentStatus transactionId responsePayload
                  (alipaySettleOrder e orderNo orderStatus notifiedFen (p_payment_no payment)) w1 of
             (status, w2) \<Rightarrow> (status, end_txn e w2)))"

section \<open>Reading the answers\<close>

text \<open>The trade state, the transaction id and the total of a WeChat answer.\<close>

definition wechatAnswer :: "json \<Rightarrow> (string \<times> int) option" where
  "wechatAnswer result =
     (case (jstr result ''transaction_id'' [], jget result ''amount'' JNull) of
        (Some transactionId, Some amount) \<Rightarrow>
          (case Option.bind (jget amount ''total'' (JInt 0)) asInt64 of
             None \<Rightarrow> None
           | Some answerTotalFen \<Rightarrow> Some (transactionId, answerTotalFen))
      | _ \<Rightarrow> None)"

definition alipayStatuses :: "string \<Rightarrow> (string \<times> string) option" where
  "alipayStatuses tradeStatus =
     (if tradeStatus = ''TRADE_SUCCESS'' \<or> tradeStatus = ''TRADE_FINISHED'' then Some (''PAID'', ''SUCCESS'')
      else if tradeStatus = ''WAIT_BUYER_PAY'' then Some (''PAYING'', ''PROCESSING'')
      else if tradeStatus = ''TRADE_CLOSED'' then Some (''FAILED'', ''FAIL'')
      else None)"

definition alipayNotifiedFen :: "string \<Rightarrow> json \<Rightarrow> int option" where
  "alipayNotifiedFen orderStatus result =
     (if orderStatus = ''PAID''
      then map_option (\<lambda>text. case parseAmountToFen text of Some fen \<Rightarrow> fen | None \<Rightarrow> - 1)
             (jstr result ''total_amount'' [])
      else Some (- 1))"

section \<open>The doors\<close>

definition wechatSettle ::
  "env \<Rightarrow> sys \<Rightarrow> string \<Rightarrow> json \<Rightarrow> string \<Rightarrow> string \<Rightarrow> string \<Rightarrow> int \<Rightarrow> world \<Rightarrow> string option \<times> world" where
  "wechatSettle e S orderNo result orderStatus paymentStatus transactionId answerTotalFen w =
     (case mapper e (reads (latest_payment orderNo)) w of
        (Ok None, w1) \<Rightarrow> (Some orderStatus, w1)
      | (Ok (Some payment), w1) \<Rightarrow>
          if (orderStatus = ''PAID'' \<or> orderStatus = ''REFUNDED'') \<and>
             reconcileAmountProblem answerTotalFen (p_amount payment) \<noteq> []
          then (Some [], w1)
          else wechatTxn e payment orderNo orderStatus paymentStatus transactionId (toJsonString S result) w1
      | (_, w1) \<Rightarrow> (Some [], w1))"

definition syncOrderStatusFromWechat ::
  "env \<Rightarrow> sys \<Rightarrow> string \<Rightarrow> json \<Rightarrow> world \<Rightarrow> string option \<times> world" where
  "syncOrderStatusFromWechat e S orderNo result w =
     (case jstr result ''trade_state'' [] of
        None \<Rightarrow> (None, w)
      | Some tradeState \<Rightarrow>
          if tradeState = [] then (Some [], w)
          else
            (case (mapTradeState tradeState, wechatAnswer result) of
               (_, None) \<Rightarrow> (None, w)
             | ((orderStatus, paymentStatus), Some (transactionId, answerTotalFen)) \<Rightarrow>
                 if \<not> hasDb S then (Some orderStatus, w)
                 else wechatSettle e S orderNo result orderStatus paymentStatus transactionId answerTotalFen w))"

definition alipaySettle ::
  "env \<Rightarrow> sys \<Rightarrow> string \<Rightarrow> json \<Rightarrow> string \<Rightarrow> string \<Rightarrow> string \<Rightarrow> int \<Rightarrow> world \<Rightarrow> string option \<times> world" where
  "alipaySettle e S orderNo result orderStatus paymentStatus transactionId notifiedFen w =
     (case mapper e (reads (latest_payment orderNo)) w of
        (Ok None, w1) \<Rightarrow> (Some orderStatus, w1)
      | (Ok (Some payment), w1) \<Rightarrow>
          if orderStatus = ''PAID'' \<and> reconcileAmountProblem notifiedFen (p_amount payment) \<noteq> []
          then (Some [], w1)
          else alipayTxn e payment orderNo orderStatus paymentStatus transactionId
                 (toJsonString S result) notifiedFen w1
      | (_, w1) \<Rightarrow> (Some [], w1))"

definition syncOrderStatusFromAlipay ::
  "env \<Rightarrow> sys \<Rightarrow> string \<Rightarrow> json \<Rightarrow> world \<Rightarrow> string option \<times> world" where
  "syncOrderStatusFromAlipay e S orderNo result w =
     (case jstr result ''code'' [] of
        None \<Rightarrow> (None, w)
      | Some responseCode \<Rightarrow>
          if responseCode \<noteq> ''10000'' then (Some [], w)
          else
            (case jstr result ''trade_status'' [] of
               None \<Rightarrow> (None, w)
             | Some tradeStatus \<Rightarrow>
                 if tradeStatus = [] then (Some [], w)
                 else
                   (case alipayStatuses tradeStatus of
                      None \<Rightarrow> (Some [], w)
                    | Some (orderStatus, paymentStatus) \<Rightarrow>
                        (case (jstr result ''trade_no'' [], alipayNotifiedFen orderStatus result) of
                           (Some transactionId, Some notifiedFen) \<Rightarrow>
                             if \<not> hasDb S then (Some orderStatus, w)
                             else alipaySettle e S orderNo result orderStatus paymentStatus
                                    transactionId notifiedFen w
                         | _ \<Rightarrow> (None, w)))))"

section \<open>Invariants across the doors\<close>

locale settle_inv =
  fixes I :: "tables \<Rightarrow> bool"
  assumes ledger_keeps: "I t \<Longrightarrow> insert_ledger r t = Inr (u, t') \<Longrightarrow> I t'"
    and cas_keeps: "I t \<Longrightarrow> cas_payment st tx payload pn t = Inr (n, t') \<Longrightarrow> I t'"
    and status_keeps: "I t \<Longrightarrow> set_order_status on st t = Inr (n, t') \<Longrightarrow> I t'"
begin

sublocale ledg: stmt_inv I "insert_ledger r" for r
  by unfold_locales (rule ledger_keeps)

sublocale cas: stmt_inv I "cas_payment st tx payload pn" for st tx payload pn
  by unfold_locales (rule cas_keeps)

sublocale ostat: stmt_inv I "set_order_status on st" for on st
  by unfold_locales (rule status_keeps)

lemma ledger_holds:
  assumes "stable I e" "holds I w"
  shows "holds I (insertLedgerEntry e client uid on pn ty amount w)"
proof -
  have "holds I (insertRow e uid on pn ty amount v)" if "holds I v" for v
    using that assms(1) by (simp add: insertRow_def ledg.mapper_holds)
  with assms show ?thesis
    by (auto simp: insertLedgerEntry_def dest!: read_stmt.mapper_holdsD [where I = I]
        split: prod.splits dbres.splits if_splits)
qed

lemma write_holds:
  "writeOrder e order st credit pn w = (r, w') \<Longrightarrow> stable I e \<Longrightarrow> holds I w \<Longrightarrow> holds I w'"
  by (auto simp: writeOrder_def intro!: ledger_holds holds_rollback dest!: ostat.mapper_holdsD
      split: prod.splits dbres.splits if_splits)

lemma wechat_order_holds:
  "wechatSettleOrder e on st fen pn w = (r, w') \<Longrightarrow> stable I e \<Longrightarrow> holds I w \<Longrightarrow> holds I w'"
  by (auto simp: wechatSettleOrder_def Let_def intro!: holds_rollback
      dest!: read_stmt.mapper_holdsD [where I = I] dest: write_holds
      split: prod.splits dbres.splits list.splits if_splits)

lemma alipay_order_holds:
  "alipaySettleOrder e on st fen pn w = (r, w') \<Longrightarrow> stable I e \<Longrightarrow> holds I w \<Longrightarrow> holds I w'"
  by (auto simp: alipaySettleOrder_def intro!: holds_rollback
      dest!: read_stmt.mapper_holdsD [where I = I] dest: write_holds
      split: prod.splits dbres.splits list.splits if_splits)

lemma settle_holds:
  assumes "settlePayment e payment ost pst tx payload f w = (r, w')" "stable I e" "holds I w"
    and "\<And>v r v'. f v = (r, v') \<Longrightarrow> holds I v \<Longrightarrow> holds I v'"
  shows "holds I w'"
  using assms
  by (auto simp: settlePayment_def intro!: holds_rollback dest!: cas.exec_holdsD
      split: if_splits prod.splits sum.splits)

lemma refund_sum_holds:
  "settledRefundFen e on st w = (fen, w') \<Longrightarrow> stable I e \<Longrightarrow> holds I w \<Longrightarrow> holds I w'"
  by (auto simp: settledRefundFen_def dest!: read_stmt.exec_holdsD [where I = I]
      split: if_splits prod.splits sum.splits)

lemma wechat_txn_holds:
  assumes "wechatTxn e payment on ost pst tx payload w = (r, w')" "stable I e" "holds I w"
  shows "holds I w'"
proof (cases "begin_txn e w")
  case None
  with assms show ?thesis by (auto simp: wechatTxn_def)
next
  case (Some w1)
  obtain fen w2 where f: "settledRefundFen e on ost w1 = (fen, w2)" by fastforce
  have "holds I w2" using refund_sum_holds [OF f assms(2)] holds_beginD [OF Some assms(2,3)] by blast
  moreover obtain r3 w3 where s: "settlePayment e payment ost pst tx payload
      (wechatSettleOrder e on ost fen (p_payment_no payment)) w2 = (r3, w3)" by fastforce
  ultimately have "holds I w3"
    using settle_holds [OF s assms(2)] wechat_order_holds [OF _ assms(2)] by blast
  then show ?thesis using assms(1) Some f s by (auto simp: wechatTxn_def intro: holds_end_txn)
qed

lemma alipay_txn_holds:
  assumes "alipayTxn e payment on ost pst tx payload fen w = (r, w')" "stable I e" "holds I w"
  shows "holds I w'"
proof (cases "begin_txn e w")
  case None
  with assms show ?thesis by (auto simp: alipayTxn_def)
next
  case (Some w1)
  obtain r3 w3 where s: "settlePayment e payment ost pst tx payload
      (alipaySettleOrder e on ost fen (p_payment_no payment)) w1 = (r3, w3)" by fastforce
  have "holds I w3"
    using settle_holds [OF s assms(2) holds_beginD [OF Some assms(2,3)]] alipay_order_holds [OF _ assms(2)]
    by blast
  then show ?thesis using assms(1) Some s by (auto simp: alipayTxn_def intro: holds_end_txn)
qed

lemma txn_holds:
  assumes "stable I e" "holds I w"
  shows "holds I (snd (wechatTxn e payment on ost pst tx payload w))"
    "holds I (snd (alipayTxn e payment on ost pst tx payload fen w))"
  using assms wechat_txn_holds [OF prod.collapse [symmetric]] alipay_txn_holds [OF prod.collapse [symmetric]]
  by blast+

lemma wechat_sync_holds:
  "stable I e \<Longrightarrow> holds I w \<Longrightarrow> holds I (snd (syncOrderStatusFromWechat e S on result w))"
  by (auto simp: syncOrderStatusFromWechat_def wechatSettle_def dest!: read_stmt.mapper_holdsD [where I = I]
      intro: txn_holds split: option.splits prod.splits dbres.splits)

lemma alipay_sync_holds:
  "stable I e \<Longrightarrow> holds I w \<Longrightarrow> holds I (snd (syncOrderStatusFromAlipay e S on result w))"
  by (auto simp: syncOrderStatusFromAlipay_def alipaySettle_def dest!: read_stmt.mapper_holdsD [where I = I]
      intro: txn_holds split: option.splits prod.splits dbres.splits)

end

interpretation wf_settle: settle_inv wf_tables
proof (unfold_locales, goal_cases)
  case (1 t r u t')
  then show ?case by (rule wf_insert_ledger)
next
  case (2 t st tx payload pn n t')
  then have "update_payments (open_attempt pn) (\<lambda>r. r\<lparr>p_status := st, p_channel_trade_no := Some tx,
      p_response_payload := Some payload\<rparr>) t = Inr (n, t')" by (simp add: cas_payment_def split: if_splits)
  with 2(1) show ?case by (rule wf_update_payments [rotated]) simp
next
  case (3 t on st n t')
  then show ?case unfolding set_order_status_def by (rule wf_update_orders [rotated]) simp
qed

interpretation settled_settle: settle_inv "books_kept ps {}" for ps
  by unfold_locales
    (auto simp: books_kept_def insert_ledger_def cas_payment_def set_order_status_def update_payments_def
      update_orders_def open_attempt_def intro!: kept_update split: if_splits)

section \<open>Properties\<close>

text \<open>
  Both reconcile doors keep the books well formed under every fault and every
  interleaving, as long as the other requests do; in particular no run of either door
  ever leaves a payment with two income entries in the ledger, now or after a rollback.
\<close>

lemma sync_keeps_wf:
  assumes "stable wf_tables e" "holds wf_tables w"
  shows "holds wf_tables (snd (syncOrderStatusFromWechat e S orderNo result w)) \<and>
     holds wf_tables (snd (syncOrderStatusFromAlipay e S orderNo result w))"
  using wf_settle.wechat_sync_holds [OF assms] wf_settle.alipay_sync_holds [OF assms] by blast

definition paid_answer :: json where
  "paid_answer = JObject [(''amount'', JObject [(''total'', JInt 150)]), (''trade_state'', JString ''SUCCESS''),
     (''transaction_id'', JString ''T1'')]"

definition paying_order :: order_row where
  "paying_order = \<lparr>o_order_no = ''ORD-000001'', o_user_id = 7, o_amount = ''1.50'', o_currency = ''CNY'',
     o_status = ''PAYING'', o_channel = ''wechat'', o_title = ''tea'', o_expire_at = None,
     o_created_at = 0, o_updated_at = 0\<rparr>"

definition open_payment :: payment_row where
  "open_payment = \<lparr>p_payment_no = ''P1'', p_order_no = ''ORD-000001'', p_status = ''PROCESSING'',
     p_amount = ''1.5'', p_request_payload = ''{}'', p_response_payload = None, p_channel_trade_no = None,
     p_created_at = 0\<rparr>"

definition paying_tables :: tables where
  "paying_tables = no_rows\<lparr>t_orders := [paying_order], t_payments := [open_payment]\<rparr>"

lemma wf_paying: "wf_tables paying_tables"
  by (simp add: wf_tables_def keyed_def paying_tables_def no_rows_def paying_order_def open_payment_def)

section \<open>Runs of a quiet environment\<close>

definition income_row :: "order_row \<Rightarrow> string \<Rightarrow> int \<Rightarrow> ledger_row" where
  "income_row order pn now =
     \<lparr>l_user_id = o_user_id order, l_order_no = o_order_no order, l_payment_no = Some pn,
      l_entry_type = ''PAYMENT'', l_amount = o_amount order, l_created_at = now\<rparr>"

lemma quiet_ledger:
  assumes "quiet e" "txn_of w \<noteq> Aborted" "o_order_no order \<noteq> []" "pn \<noteq> []"
    and "\<not> list_ex (income_of pn) (t_ledger (tabs w))" "ledger_fits (income_row order pn 0)"
    and "o_order_no order \<in> o_order_no ` set (t_orders (tabs w))" "pn \<in> p_payment_no ` set (t_payments (tabs w))"
  shows "\<exists>now. let w' = insertLedgerEntry e True (o_user_id order) (o_order_no order) pn ''PAYMENT'' (o_amount order) w
     in tabs w' = (tabs w)\<lparr>t_ledger := t_ledger (tabs w) @ [income_row order pn now]\<rparr> \<and> txn_of w' = txn_of w"
proof -
  let ?q = "find_ledger (o_order_no order) ''PAYMENT'' (Some pn)"
  let ?w1 = "next_tick w"
  let ?row = "income_row order pn (clock e (tick ?w1))"
  have "?q (tabs w) = Inr []"
    using filter_length_0 [OF assms(5)] by (auto simp: find_ledger_def income_of_def filter_empty_conv)
  from quiet_read [where q = ?q, OF assms(1,2) this]
  have r: "mapper e (reads ?q) w = (Ok [], ?w1)" .
  have "insert_ledger ?row (tabs ?w1) = Inr ((), (tabs w)\<lparr>t_ledger := t_ledger (tabs w) @ [?row]\<rparr>)"
    using assms(5-8) by (auto simp: insert_ledger_def income_row_def income_of_def ledger_fits_def)
  with quiet_mapper [OF assms(1), of ?w1 "insert_ledger ?row"] assms(2)
  have m: "mapper e (insert_ledger ?row) ?w1 =
      (Ok (), (next_tick ?w1)\<lparr>tabs := (tabs w)\<lparr>t_ledger := t_ledger (tabs w) @ [?row]\<rparr>\<rparr>)" by simp
  from m have "insertRow e (o_user_id order) (o_order_no order) pn ''PAYMENT'' (o_amount order) ?w1 =
      (next_tick ?w1)\<lparr>tabs := (tabs w)\<lparr>t_ledger := t_ledger (tabs w) @ [?row]\<rparr>\<rparr>"
    using assms(4) by (simp add: insertRow_def income_row_def)
  with r assms(3,4) show ?thesis by (auto simp: insertLedgerEntry_def Let_def)
qed

text \<open>The order and ledger tables after the order write of a settling transaction.\<close>

definition order_written :: "order_row \<Rightarrow> string \<Rightarrow> tables \<Rightarrow> tables" where
  "order_written order status t =
     t\<lparr>t_orders := update_where (\<lambda>r. r = order) (\<lambda>r. r\<lparr>o_status := status\<rparr>) (t_orders t)\<rparr>"

lemma quiet_write:
  assumes "quiet e" "txn_of w \<noteq> Aborted" "keyed o_order_no (t_orders (tabs w))" "order \<in> set (t_orders (tabs w))"
    and "o_order_no order \<noteq> []" "pn \<noteq> []"
    and "\<not> list_ex (income_of pn) (t_ledger (tabs w))" "ledger_fits (income_row order pn 0)"
    and "pn \<in> p_payment_no ` set (t_payments (tabs w))"
  shows "\<exists>w' now. writeOrder e order status credit pn w = (Some status, w') \<and> txn_of w' = txn_of w \<and>
     tabs w' = (let t = order_written order status (tabs w)
       in if credit then t\<lparr>t_ledger := t_ledger t @ [income_row order pn now]\<rparr> else t)"
proof -
  let ?t = "order_written order status (tabs w)"
  let ?w1 = "(next_tick w)\<lparr>tabs := ?t\<rparr>"
  have "\<exists>n. set_order_status (o_order_no order) status (tabs w) = Inr (n, ?t)"
    using update_where_key [OF assms(3,4)]
    by (simp add: set_order_status_def update_orders_def order_written_def)
  then obtain n where "set_order_status (o_order_no order) status (tabs w) = Inr (n, ?t)" ..
  with quiet_mapper [OF assms(1), of w "set_order_status (o_order_no order) status"] assms(2)
  have m: "mapper e (set_order_status (o_order_no order) status) w = (Ok n, ?w1)" by simp
  have keys: "o_order_no ` set (t_orders ?t) = o_order_no ` set (t_orders (tabs w))"
    using arg_cong [OF map_key_update_where [of o_order_no "\<lambda>r. r\<lparr>o_status := status\<rparr>" "\<lambda>r. r = order"
          "t_orders (tabs w)"], of set] by (simp add: order_written_def)
  have "\<exists>now. let w' = insertLedgerEntry e True (o_user_id order) (o_order_no order) pn ''PAYMENT'' (o_amount order) ?w1
     in tabs w' = (tabs ?w1)\<lparr>t_ledger := t_ledger (tabs ?w1) @ [income_row order pn now]\<rparr> \<and> txn_of w' = txn_of ?w1"
    by (rule quiet_ledger [OF assms(1)]) (use assms keys in \<open>simp_all add: order_written_def\<close>)
  with m show ?thesis by (auto simp: writeOrder_def Let_def)
qed

lemma quiet_wechat_order:
  assumes "quiet e" "txn_of w \<noteq> Aborted" "keyed o_order_no (t_orders (tabs w))" "order \<in> set (t_orders (tabs w))"
    and "o_order_no order \<noteq> []" "pn \<noteq> []" "o_status order \<noteq> ''PAID''"
    and "\<not> list_ex (income_of pn) (t_ledger (tabs w))" "ledger_fits (income_row order pn 0)"
    and "pn \<in> p_payment_no ` set (t_payments (tabs w))"
  shows "\<exists>w' now. wechatSettleOrder e (o_order_no order) orderStatus fen pn w =
       (Some (orderStatusAfterRefundCoverage orderStatus (o_amount order) fen), w') \<and> txn_of w' = txn_of w \<and>
     tabs w' = (let final = orderStatusAfterRefundCoverage orderStatus (o_amount order) fen;
                    t = order_written order final (tabs w)
       in if final = ''PAID'' \<or> final = ''REFUNDED'' then t\<lparr>t_ledger := t_ledger t @ [income_row order pn now]\<rparr> else t)"
proof -
  let ?q = "select_orders (\<lambda>r. o_order_no r = o_order_no order)"
  let ?final = "orderStatusAfterRefundCoverage orderStatus (o_amount order) fen"
  have "?q (tabs w) = Inr [order]" using keyed_filter_key [OF assms(3,4)] by (simp add: select_orders_def)
  from quiet_read [where q = ?q, OF assms(1,2) this]
  have "mapper e (reads ?q) w = (Ok [order], next_tick w)" .
  moreover have "\<exists>w' now. writeOrder e order ?final (?final = ''PAID'' \<or> ?final = ''REFUNDED'') pn (next_tick w) =
       (Some ?final, w') \<and> txn_of w' = txn_of (next_tick w) \<and>
     tabs w' = (let t = order_written order ?final (tabs (next_tick w))
       in if ?final = ''PAID'' \<or> ?final = ''REFUNDED'' then t\<lparr>t_ledger := t_ledger t @ [income_row order pn now]\<rparr> else t)"
    by (rule quiet_write [OF assms(1)]) (use assms in simp_all)
  ultimately show ?thesis using assms(7) by (auto simp: wechatSettleOrder_def Let_def)
qed

definition payment_settled :: "payment_row \<Rightarrow> string \<Rightarrow> string \<Rightarrow> string \<Rightarrow> tables \<Rightarrow> tables" where
  "payment_settled p status tx payload t =
     t\<lparr>t_payments := update_where (\<lambda>r. r = p)
        (\<lambda>r. r\<lparr>p_status := status, p_channel_trade_no := Some tx, p_response_payload := Some payload\<rparr>)
        (t_payments t)\<rparr>"

lemma quiet_cas:
  assumes "quiet e" "txn_of w \<noteq> Aborted" "keyed p_payment_no (t_payments (tabs w))"
    and "p \<in> set (t_payments (tabs w))" "p_status p \<in> {''INIT'', ''PROCESSING''}" "fits 64 tx"
  shows "\<exists>n > 0. exec e (cas_payment pst tx payload (p_payment_no p)) w =
     (Inr n, (next_tick w)\<lparr>tabs := payment_settled p pst tx payload (tabs w)\<rparr>)"
proof -
  let ?f = "\<lambda>r. r\<lparr>p_status := pst, p_channel_trade_no := Some tx, p_response_payload := Some payload\<rparr>"
  let ?n = "length (filter (open_attempt (p_payment_no p)) (t_payments (tabs w)))"
  have "update_where (open_attempt (p_payment_no p)) ?f (t_payments (tabs w)) =
      update_where (\<lambda>r. r = p) ?f (t_payments (tabs w))"
    unfolding update_where_def
    using keyed_unique [OF assms(3) _ assms(4)] assms(5) by (intro map_cong) (auto simp: open_attempt_def)
  then have "cas_payment pst tx payload (p_payment_no p) (tabs w) =
      Inr (?n, payment_settled p pst tx payload (tabs w))"
    using assms(6) by (simp add: cas_payment_def update_payments_def payment_settled_def)
  moreover have "p \<in> set (filter (open_attempt (p_payment_no p)) (t_payments (tabs w)))"
    using assms(4,5) by (simp add: open_attempt_def)
  then have "?n > 0" by (metis length_greater_0_conv list.set(1) empty_iff)
  ultimately show ?thesis
    using quiet_exec [OF assms(1), of w "cas_payment pst tx payload (p_payment_no p)"] assms(2) by blast
qed

lemma coverage_irrelevant:
  "orderStatus \<noteq> ''REFUNDED'' \<Longrightarrow> orderStatusAfterRefundCoverage orderStatus amount fen = orderStatus"
  by (simp add: orderStatusAfterRefundCoverage_def resolveRefundedOrderStatus_def)

lemma quiet_refund_sum:
  assumes "quiet e" "txn_of w \<noteq> Aborted" "numericSum e (settled_refunds on (tabs w)) = Some sumText"
    and "parseAmountToFen sumText = Some refunded"
  shows "\<exists>fen w'. settledRefundFen e on orderStatus w = (fen, w') \<and> tabs w' = tabs w \<and> txn_of w' = txn_of w \<and>
     (orderStatus = ''REFUNDED'' \<longrightarrow> fen = refunded)"
proof (cases "orderStatus = ''REFUNDED''")
  case True
  have "reads (refund_sum e on) (tabs w) = Inr (sumText, tabs w)"
    using assms(3) by (simp add: reads_def refund_sum_def)
  with quiet_exec [OF assms(1,2), of "reads (refund_sum e on)"] True assms(4) show ?thesis
    by (auto simp: settledRefundFen_def)
next
  case False
  then show ?thesis by (simp add: settledRefundFen_def)
qed

lemma no_amount_problem:
  "reconcileAmountProblem fen amount = [] \<longleftrightarrow> parseAmountToFen amount = Some fen \<and> 0 < fen"
  by (auto simp: reconcileAmountProblem_def split: option.splits)

lemma latest_in:
  "latest_payment on t = Inr (Some p) \<Longrightarrow> p \<in> set (t_payments t) \<and> p_order_no p = on"
  by (auto simp: latest_payment_def carries_money_def dest!: latest_by_in)

text \<open>The transaction of the WeChat door on an open payment.\<close>

lemma quiet_wechat_txn:
  assumes q: "quiet e" "txn_of w = NoTxn" "wf_tables (tabs w)"
    and o: "order \<in> set (t_orders (tabs w))" "o_order_no order \<noteq> []" "o_status order \<noteq> ''PAID''"
    and p: "p \<in> set (t_payments (tabs w))" "p_payment_no p \<noteq> []" "p_status p \<in> {''INIT'', ''PROCESSING''}"
    and l: "\<not> list_ex (income_of (p_payment_no p)) (t_ledger (tabs w))"
      "ledger_fits (income_row order (p_payment_no p) 0)" "fits 64 tx"
    and s: "numericSum e (settled_refunds (o_order_no order) (tabs w)) = Some sumText"
      "parseAmountToFen sumText = Some refunded"
    and final: "final = orderStatusAfterRefundCoverage ost (o_amount order) refunded"
  shows "\<exists>w' now. wechatTxn e p (o_order_no order) ost pst tx payload w = (Some final, w') \<and> txn_of w' = NoTxn \<and>
     tabs w' = (let t = order_written order final (payment_settled p pst tx payload (tabs w))
       in if final = ''PAID'' \<or> final = ''REFUNDED''
          then t\<lparr>t_ledger := t_ledger t @ [income_row order (p_payment_no p) now]\<rparr> else t)"
proof -
  let ?w1 = "(next_tick w)\<lparr>txn_of := InTxn (tabs w)\<rparr>"
  let ?t = "payment_settled p pst tx payload (tabs w)"
  have k: "keyed p_payment_no (t_payments (tabs w))" "keyed o_order_no (t_orders (tabs w))"
    using q(3) by (simp_all add: wf_tables_def)
  from quiet_refund_sum [OF q(1), of ?w1 "o_order_no order" sumText refunded ost] s
  obtain fen w2 where f: "settledRefundFen e (o_order_no order) ost ?w1 = (fen, w2)" "tabs w2 = tabs w"
    "txn_of w2 = InTxn (tabs w)" "ost = ''REFUNDED'' \<longrightarrow> fen = refunded" by auto
  have fin: "orderStatusAfterRefundCoverage ost (o_amount order) fen = final"
    using f(4) final coverage_irrelevant by (cases "ost = ''REFUNDED''") simp_all
  from quiet_cas [OF q(1), of w2 p tx pst payload] f(2,3) k(1) p l(3)
  obtain n where c: "n > 0" "exec e (cas_payment pst tx payload (p_payment_no p)) w2 = (Inr n, (next_tick w2)\<lparr>tabs := ?t\<rparr>)"
    by auto
  have "p_payment_no p \<in> p_payment_no ` set (t_payments ?t)"
    using p(1) by (force simp: payment_settled_def set_update_where)
  with quiet_wechat_order [OF q(1), of "(next_tick w2)\<lparr>tabs := ?t\<rparr>" order "p_payment_no p" ost fen] f(3) k(2) o p(2) l
  obtain w3 now where w3: "wechatSettleOrder e (o_order_no order) ost fen (p_payment_no p) ((next_tick w2)\<lparr>tabs := ?t\<rparr>) =
      (Some final, w3)" "txn_of w3 = InTxn (tabs w)"
    "tabs w3 = (let t = order_written order final ?t
       in if final = ''PAID'' \<or> final = ''REFUNDED''
          then t\<lparr>t_ledger := t_ledger t @ [income_row order (p_payment_no p) now]\<rparr> else t)"
    by (auto simp: fin payment_settled_def Let_def)
  have "settlePayment e p ost pst tx payload (wechatSettleOrder e (o_order_no order) ost fen (p_payment_no p)) w2 =
      (Some final, w3)"
    using c w3(1) p(3) by (auto simp: settlePayment_def)
  then have "wechatTxn e p (o_order_no order) ost pst tx payload w = (Some final, end_txn e w3)"
    using quiet_begin [OF q(1,2)] f(1) by (simp add: wechatTxn_def)
  with quiet_end [OF q(1) w3(2)] w3(3) show ?thesis by auto
qed

text \<open>
  What the WeChat door books for an open payment when nothing fails. With the amount
  gate passed, the reply and the order's new status are the mapped status, except that a
  refund claim stands only when the settled refunds cover the order and is booked as
  \<open>PAID\<close> otherwise; the payment takes the mapped payment status, the transaction id and the
  answer; a paid or refunded order gets exactly one income entry of the order's amount for
  this payment; no other row of any table changes.
\<close>

lemma wechat_sync_settles:
  assumes "quiet e" "txn_of w = NoTxn" "wf_tables (tabs w)" "hasDb S"
    and "order \<in> set (t_orders (tabs w))" "o_order_no order \<noteq> []" "o_status order \<noteq> ''PAID''"
    and "latest_payment (o_order_no order) (tabs w) = Inr (Some p)" "p_payment_no p \<noteq> []"
      "p_status p \<in> {''INIT'', ''PROCESSING''}"
    and "\<not> list_ex (income_of (p_payment_no p)) (t_ledger (tabs w))" "ledger_fits (income_row order (p_payment_no p) 0)"
    and "jstr result ''trade_state'' [] = Some ts" "ts \<noteq> []" "mapTradeState ts = (ost, pst)"
    and "wechatAnswer result = Some (tx, fen)" "fits 64 tx"
    and "ost \<in> {''PAID'', ''REFUNDED''} \<longrightarrow> parseAmountToFen (p_amount p) = Some fen \<and> 0 < fen"
    and "numericSum e (settled_refunds (o_order_no order) (tabs w)) = Some sumText"
      "parseAmountToFen sumText = Some refunded" "parseAmountToFen (o_amount order) = Some orderFen"
  shows "\<exists>w' now. let final = (if ost = ''REFUNDED'' \<and> \<not> (0 < orderFen \<and> orderFen \<le> refunded) then ''PAID'' else ost);
            t = order_written order final (payment_settled p pst tx (toJsonString S result) (tabs w))
     in syncOrderStatusFromWechat e S (o_order_no order) result w = (Some final, w') \<and>
        tabs w' = (if final = ''PAID'' \<or> final = ''REFUNDED''
                   then t\<lparr>t_ledger := t_ledger t @ [income_row order (p_payment_no p) now]\<rparr> else t)"
proof -
  let ?q = "latest_payment (o_order_no order)"
  let ?final = "if ost = ''REFUNDED'' \<and> \<not> (0 < orderFen \<and> orderFen \<le> refunded) then ''PAID'' else ost"
  have final: "?final = orderStatusAfterRefundCoverage ost (o_amount order) refunded"
    using assms(21) by (auto simp: orderStatusAfterRefundCoverage_def resolveRefundedOrderStatus_def
        refundsCoverOrderAmount_def)
  from quiet_read [where q = ?q, OF assms(1) _ assms(8)] assms(2)
  have "mapper e (reads ?q) w = (Ok (Some p), next_tick w)" by simp
  moreover have "\<not> ((ost = ''PAID'' \<or> ost = ''REFUNDED'') \<and> reconcileAmountProblem fen (p_amount p) \<noteq> [])"
    using assms(18) by (auto simp: no_amount_problem)
  ultimately have "syncOrderStatusFromWechat e S (o_order_no order) result w =
      wechatTxn e p (o_order_no order) ost pst tx (toJsonString S result) (next_tick w)"
    using assms(4,13-16) by (auto simp: syncOrderStatusFromWechat_def wechatSettle_def)
  with quiet_wechat_txn [OF assms(1), of "next_tick w" order p tx sumText refunded ?final ost pst "toJsonString S result"]
    assms(2,3,5-7,9-12,17,19,20) latest_in [OF assms(8)] final
  show ?thesis by (auto simp: Let_def)
qed

section \<open>The amount gates\<close>

lemma alipay_gate_rolls_back:
  assumes "quiet e" "txn_of w = InTxn t" "order \<in> set (t_orders (tabs w))" "keyed o_order_no (t_orders (tabs w))"
    and "o_status order \<noteq> ''PAID''" "\<not> amountEqualsFen (o_amount order) fen"
  shows "tabs (end_txn e (snd (alipaySettleOrder e (o_order_no order) ''PAID'' fen pn w))) = t"
proof -
  let ?q = "select_orders (\<lambda>r. o_order_no r = o_order_no order)"
  have "?q (tabs w) = Inr [order]" using keyed_filter_key [OF assms(4,3)] by (simp add: select_orders_def)
  from quiet_read [where q = ?q, OF assms(1) _ this] assms(2)
  have "mapper e (reads ?q) w = (Ok [order], next_tick w)" by simp
  with assms(5,6) have "snd (alipaySettleOrder e (o_order_no order) ''PAID'' fen pn w) = rollback (next_tick w)"
    by (simp add: alipaySettleOrder_def)
  with end_rollback [of "next_tick w" t e] assms(2) show ?thesis by simp
qed

lemma alipay_order_gate:
  assumes "quiet e" "txn_of w = NoTxn" "wf_tables (tabs w)" "order \<in> set (t_orders (tabs w))"
    and "o_status order \<noteq> ''PAID''" "\<not> amountEqualsFen (o_amount order) fen"
  shows "tabs (snd (alipayTxn e p (o_order_no order) ''PAID'' pst tx payload fen w)) = tabs w"
proof -
  let ?w1 = "(next_tick w)\<lparr>txn_of := InTxn (tabs w)\<rparr>"
  let ?f = "alipaySettleOrder e (o_order_no order) ''PAID'' fen (p_payment_no p)"
  have k: "keyed o_order_no (t_orders (tabs w))" using assms(3) by (simp add: wf_tables_def)
  note gate = alipay_gate_rolls_back [OF assms(1) _ _ _ assms(5,6)]
  obtain r w2 where c: "exec e (cas_payment pst tx payload (p_payment_no p)) ?w1 = (r, w2)" by fastforce
  note i = exec_in_txn [OF c, of "tabs w"]
  have o: "t_orders (tabs w2) = t_orders (tabs w)"
    using c assms(1)
    by (auto simp: exec_def Let_def quiet_def settle_others_def abort_def cas_payment_def update_payments_def
        split: if_splits sum.splits)
  have g: "tabs (end_txn e (snd (?f v))) = tabs w" if "txn_of v = InTxn (tabs w)" "t_orders (tabs v) = t_orders (tabs w)" for v
    using gate [OF that(1)] assms(4) k that(2) by simp
  have rb: "tabs (end_txn e (rollback v)) = tabs w" if "txn_of v = InTxn (tabs w) \<or> txn_of v = Aborted \<and> tabs v = tabs w" for v
    using end_rollback [OF that] by simp
  show ?thesis
    using quiet_begin [OF assms(1,2)] g [of ?w1] g [of w2] rb [of w2] rb [of ?w1] i o c
    by (auto simp: alipayTxn_def settlePayment_def split: prod.splits sum.splits if_splits)
qed

lemma alipay_amount_gate:
  assumes "quiet e" "txn_of w = NoTxn" "wf_tables (tabs w)" "latest_payment orderNo (tabs w) = Inr (Some p)"
    and a: "jstr result ''trade_status'' [] = Some ts" "alipayStatuses ts = Some (''PAID'', pst)"
      "jstr result ''total_amount'' [] = Some amt"
      "tabs (snd (syncOrderStatusFromAlipay e S orderNo result w)) \<noteq> tabs w"
  shows "\<exists>fen > 0. parseAmountToFen amt = Some fen \<and> parseAmountToFen (p_amount p) = Some fen \<and>
      (\<forall>order \<in> set (t_orders (tabs w)). o_order_no order = orderNo \<and> o_status order \<noteq> ''PAID'' \<longrightarrow>
         parseAmountToFen (o_amount order) = Some fen)"
proof -
  let ?q = "latest_payment orderNo" and ?fen = "case parseAmountToFen amt of Some f \<Rightarrow> f | None \<Rightarrow> - 1"
  from quiet_read [where q = ?q, OF assms(1) _ assms(4)] assms(2)
  have m: "mapper e (reads ?q) w = (Ok (Some p), next_tick w)" by simp
  have n: "alipayNotifiedFen ''PAID'' result = Some ?fen" using a(3) by (simp add: alipayNotifiedFen_def)
  from a m n have g: "reconcileAmountProblem ?fen (p_amount p) = []"
    and t: "\<exists>tx. tabs (snd (alipayTxn e p orderNo ''PAID'' pst tx (toJsonString S result) ?fen (next_tick w))) \<noteq> tabs w"
    by (auto simp: syncOrderStatusFromAlipay_def alipaySettle_def split: if_splits option.splits)
  then have f: "0 < ?fen" "parseAmountToFen (p_amount p) = Some ?fen" by (simp_all add: no_amount_problem)
  have "parseAmountToFen (o_amount order) = Some ?fen"
    if ord: "order \<in> set (t_orders (tabs w))" "o_order_no order = orderNo" "o_status order \<noteq> ''PAID''" for order
  proof -
    from t obtain tx where "tabs (snd (alipayTxn e p (o_order_no order) ''PAID'' pst tx (toJsonString S result)
        ?fen (next_tick w))) \<noteq> tabs w" using ord(2) by blast
    with alipay_order_gate [OF assms(1), of "next_tick w" order ?fen p pst tx "toJsonString S result"]
      ord(1,3) assms(2,3) have "amountEqualsFen (o_amount order) ?fen" by fastforce
    then show ?thesis by (simp add: amountEqualsFen_def split: option.splits)
  qed
  with f show ?thesis by (intro exI [of _ ?fen]) (auto split: option.splits)
qed



section \<open>Orders that are already paid\<close>

text \<open>A transaction that has not touched the order and ledger tables, or was undone.\<close>

definition orders_untouched :: "tables \<Rightarrow> world \<Rightarrow> bool" where
  "orders_untouched s w \<longleftrightarrow>
     txn_of w = InTxn s \<and> t_orders (tabs w) = t_orders s \<and> t_ledger (tabs w) = t_ledger s \<or>
     txn_of w = Aborted \<and> tabs w = s"

lemma untouched_rollback: "orders_untouched s w \<Longrightarrow> orders_untouched s (rollback w)"
  by (auto simp: orders_untouched_def rollback_def abort_def)

lemma untouched_end:
  "orders_untouched s w \<Longrightarrow> t_orders (tabs (end_txn e w)) = t_orders s \<and> t_ledger (tabs (end_txn e w)) = t_ledger s"
  by (auto simp: orders_untouched_def end_txn_def commit_txn_def Let_def split: option.splits)

lemma untouched_exec:
  assumes "exec e f w = (r, w')" "orders_untouched s w"
    and "\<And>t a t'. f t = Inr (a, t') \<Longrightarrow> t_orders t' = t_orders t \<and> t_ledger t' = t_ledger t"
  shows "orders_untouched s w'"
  using assms
  by (auto simp: orders_untouched_def exec_def Let_def settle_others_def abort_def
      split: if_splits option.splits sum.splits prod.splits)

lemma untouched_mapper:
  assumes "mapper e f w = (r, w')" "orders_untouched s w"
    and "\<And>t a t'. f t = Inr (a, t') \<Longrightarrow> t_orders t' = t_orders t \<and> t_ledger t' = t_ledger t"
  shows "orders_untouched s w'"
proof (cases "ctorFault e (tick w)")
  case None
  obtain q v where x: "exec e f w = (q, v)" by fastforce
  with assms(1) None have "w' = v" by (auto simp: mapper_def split: sum.splits)
  with untouched_exec [OF x assms(2)] assms(3) show ?thesis by blast
next
  case (Some what)
  with assms(1,2) show ?thesis by (auto simp: mapper_def orders_untouched_def)
qed

lemma mapper_aborted: "txn_of w = Aborted \<Longrightarrow> mapper e f w \<noteq> (Ok a, w')"
  by (auto simp: mapper_def exec_def Let_def split: option.splits)

lemma paid_order_read:
  assumes "orders_untouched s w" "keyed o_order_no (t_orders s)" "order \<in> set (t_orders s)"
    and "mapper e (reads (select_orders (\<lambda>r. o_order_no r = o_order_no order))) w = (Ok rows, w')"
  shows "rows = [order]"
proof -
  have "txn_of w \<noteq> Aborted"
    using assms(4) mapper_aborted [of w e "reads (select_orders (\<lambda>r. o_order_no r = o_order_no order))" rows w'] by blast
  then have w: "txn_of w = InTxn s" "t_orders (tabs w) = t_orders s"
    using assms(1) by (auto simp: orders_untouched_def)
  from mapper_in_txn [OF assms(4) w(1)] keyed_filter_key [OF assms(2,3)] w(2) show ?thesis
    by (auto simp: reads_def select_orders_def)
qed

lemma reads_untouched:
  "mapper e (reads q) w = (r, w') \<Longrightarrow> orders_untouched s w \<Longrightarrow> orders_untouched s w'"
  by (erule (1) untouched_mapper) (auto simp: reads_def split: sum.splits)

lemma settle_untouched:
  assumes "orders_untouched s w" "keyed o_order_no (t_orders s)" "order \<in> set (t_orders s)" "o_status order = ''PAID''"
  shows "orders_untouched s (snd (wechatSettleOrder e (o_order_no order) ost fen pn w))"
    and "orders_untouched s (snd (alipaySettleOrder e (o_order_no order) ost fen pn w))"
  using reads_untouched [OF _ assms(1)] paid_order_read [OF assms(1-3)] assms(4)
  by (auto simp: wechatSettleOrder_def alipaySettleOrder_def Let_def split: prod.splits dbres.splits list.splits
      intro: untouched_rollback) (fastforce intro: untouched_rollback)+

lemma payment_untouched:
  assumes "orders_untouched s w" "\<And>v. orders_untouched s v \<Longrightarrow> orders_untouched s (snd (f v))"
  shows "orders_untouched s (snd (settlePayment e p ost pst tx payload f w))"
proof -
  obtain r w' where c: "exec e (cas_payment pst tx payload (p_payment_no p)) w = (r, w')" by fastforce
  have "orders_untouched s w'"
    by (rule untouched_exec [OF c assms(1)]) (auto simp: cas_payment_def update_payments_def split: if_splits)
  then show ?thesis
    using assms c by (auto simp: settlePayment_def intro: untouched_rollback split: sum.splits)
qed

lemma refund_untouched: "orders_untouched s w \<Longrightarrow> orders_untouched s (snd (settledRefundFen e on ost w))"
proof -
  assume u: "orders_untouched s w"
  obtain r w' where c: "exec e (reads (refund_sum e on)) w = (r, w')" by fastforce
  have "orders_untouched s w'"
    by (rule untouched_exec [OF c u]) (auto simp: reads_def split: sum.splits)
  with u c show ?thesis by (auto simp: settledRefundFen_def split: sum.splits)
qed

definition books_same :: "tables \<Rightarrow> tables \<Rightarrow> bool" where
  "books_same t t' \<longleftrightarrow> t_orders t' = t_orders t \<and> t_ledger t' = t_ledger t"

lemma txn_leaves_paid_order:
  assumes "others e = (\<lambda>_ t. t)" "txn_of w = NoTxn" "keyed o_order_no (t_orders (tabs w))"
    and "order \<in> set (t_orders (tabs w))" "o_status order = ''PAID''"
  shows "books_same (tabs w) (tabs (snd (wechatTxn e p (o_order_no order) ost pst tx payload w)))"
    and "books_same (tabs w) (tabs (snd (alipayTxn e p (o_order_no order) ost pst tx payload fen w)))"
proof -
  let ?on = "o_order_no order"
  have opened: "orders_untouched (tabs w) w2" if "begin_txn e w = Some w2" for w2
    using begin_txn_opens [OF that assms(2)] assms(1) by (simp add: orders_untouched_def)
  have settle: "orders_untouched (tabs w) (snd (settlePayment e p ost pst tx payload (wechatSettleOrder e ?on ost fen pn) v))"
    "orders_untouched (tabs w) (snd (settlePayment e p ost pst tx payload (alipaySettleOrder e ?on ost fen pn) v))"
    if "orders_untouched (tabs w) v" for v fen pn
    using payment_untouched [OF that] settle_untouched [OF _ assms(3-5)] by blast+
  show "books_same (tabs w) (tabs (snd (wechatTxn e p ?on ost pst tx payload w)))"
  proof (cases "begin_txn e w")
    case (Some w2)
    obtain f w3 where f: "settledRefundFen e ?on ost w2 = (f, w3)" by fastforce
    have "orders_untouched (tabs w) w3" using refund_untouched [OF opened [OF Some], of e ?on ost] f by simp
    from untouched_end [OF settle(1) [OF this]] Some f show ?thesis
      by (simp add: wechatTxn_def books_same_def split_beta)
  qed (simp add: wechatTxn_def books_same_def)
  show "books_same (tabs w) (tabs (snd (alipayTxn e p ?on ost pst tx payload fen w)))"
  proof (cases "begin_txn e w")
    case (Some w2)
    from untouched_end [OF settle(2) [OF opened [OF Some]]] Some show ?thesis
      by (simp add: alipayTxn_def books_same_def split_beta)
  qed (simp add: alipayTxn_def books_same_def)
qed

text \<open>
  An order that is \<open>PAID\<close> is not written again by either door. In a run with no other
  writer, whatever the channel answers and whichever statement fails, the order table and
  the ledger are the same afterwards: no second booking, no demotion.
\<close>

lemma sync_leaves_paid_order:
  assumes "others e = (\<lambda>_ t. t)" "txn_of w = NoTxn" "wf_tables (tabs w)"
    and "order \<in> set (t_orders (tabs w))" "o_status order = ''PAID''"
  shows "let w1 = snd (syncOrderStatusFromWechat e S (o_order_no order) result w);
            w2 = snd (syncOrderStatusFromAlipay e S (o_order_no order) result w)
     in t_orders (tabs w1) = t_orders (tabs w) \<and> t_ledger (tabs w1) = t_ledger (tabs w) \<and>
        t_orders (tabs w2) = t_orders (tabs w) \<and> t_ledger (tabs w2) = t_ledger (tabs w)"
proof -
  let ?on = "o_order_no order"
  obtain r w1 where m: "mapper e (reads (latest_payment ?on)) w = (r, w1)" by fastforce
  then have w1: "tabs w1 = tabs w" "txn_of w1 = NoTxn"
    using assms(1,2)
    by (auto simp: mapper_def exec_def Let_def settle_others_def abort_def reads_def latest_payment_def
        split: option.splits)
  have txn: "books_same (tabs w) (tabs (snd (wechatTxn e p ?on ost pst tx payload w1)))"
    "books_same (tabs w) (tabs (snd (alipayTxn e p ?on ost pst tx payload fen w1)))" for p ost pst tx payload fen
    using txn_leaves_paid_order [OF assms(1) w1(2), of order] assms(3-5) w1(1) by (simp_all add: wf_tables_def)
  have "books_same (tabs w) (tabs (snd (wechatSettle e S ?on result ost pst tx fen w)))"
    "books_same (tabs w) (tabs (snd (alipaySettle e S ?on result ost pst tx fen w)))" for ost pst tx fen
    using m w1(1) txn
    by (auto simp: wechatSettle_def alipaySettle_def books_same_def split: dbres.splits option.splits)
  then have "books_same (tabs w) (tabs (snd (syncOrderStatusFromWechat e S ?on result w)))"
    "books_same (tabs w) (tabs (snd (syncOrderStatusFromAlipay e S ?on result w)))"
    by (auto simp: syncOrderStatusFromWechat_def syncOrderStatusFromAlipay_def books_same_def
        split: option.splits prod.splits)
  then show ?thesis by (simp add: Let_def books_same_def)
qed

section \<open>A closed Alipay trade\<close>



end
