(* ===== verification/Pay_Query.thy ===== *)
theory Pay_Query
  imports Pay_Sync "HOL-Library.Multiset"
begin

text \<open>
  The queries of \<open>PaymentService.cc\<close>: \<open>queryOrder\<close>, which asks the channel and goes through
  the reconcile doors of \<open>Pay_Sync\<close>, \<open>queryOrderList\<close>, a join over orders and payments, and
  \<open>reconcileSummary\<close>, whose two chains of statements run concurrently and share one reply.
\<close>

section \<open>queryOrder\<close>

definition orderData :: "order_row \<Rightarrow> json" where
  "orderData order =
     jobject [(''order_no'', JString (o_order_no order)), (''amount'', JString (o_amount order)),
              (''currency'', JString (o_currency order)), (''status'', JString (o_status order)),
              (''channel'', JString (o_channel order)), (''title'', JString (o_title order)),
              (''user_id'', JInt (o_user_id order))]"

definition queryReply :: "int \<Rightarrow> string \<Rightarrow> json \<Rightarrow> reply" where
  "queryReply code message data =
     (jobject [(''code'', JInt code), (''message'', JString message), (''data'', data)], NoError)"

text \<open>
  What one channel adds to the reply: the keys of its error text and of its raw answer,
  the number copied from the answer and the key it is copied to, and the door it goes
  through.
\<close>

definition channelAnswer ::
  "string \<Rightarrow> string \<Rightarrow> string \<Rightarrow> string \<Rightarrow> (json \<Rightarrow> world \<Rightarrow> string option \<times> world) \<Rightarrow> json \<Rightarrow> json \<Rightarrow> string \<Rightarrow>
     world \<Rightarrow> reply option \<times> world" where
  "channelAnswer errorKey answerKey field copyKey door data result error w =
     (if error \<noteq> []
      then (Some (queryReply 1 ''Order found (with query error)'' (jset errorKey (JString error) data)), w)
      else
        (case door result w of
           (None, w1) \<Rightarrow> (None, w1)
         | (Some status, w1) \<Rightarrow>
             (case jstr result field [] of
                None \<Rightarrow> (None, w1)
              | Some number \<Rightarrow>
                  (Some (queryReply 0 ''Order found''
                     (jset answerKey result (jset_text copyKey number (jset_text ''status'' status data)))), w1))))"

definition askPayment ::
  "string \<Rightarrow> channel \<Rightarrow> string \<Rightarrow> (json \<Rightarrow> string \<Rightarrow> world \<Rightarrow> reply option \<times> world) \<Rightarrow> world \<Rightarrow> reply option \<times> world" where
  "askPayment name ch orderNo answer w =
     (let w1 = emit (ChannelCall name ''queryPayment'' (JString orderNo)) w
      in case ch_queryPayment ch (tick w1) orderNo of
           None \<Rightarrow> (None, w1)
         | Some (result, error) \<Rightarrow> answer result error w1)"

definition orderFound :: "env \<Rightarrow> sys \<Rightarrow> string \<Rightarrow> order_row \<Rightarrow> world \<Rightarrow> reply option \<times> world" where
  "orderFound e S orderNo order w =
     (let data = orderData order; name = o_channel order
      in case findChannel S name of
           None \<Rightarrow> (Some (queryReply 0 ''Order found'' data), w)
         | Some ch \<Rightarrow>
             if name = ''wechat''
             then askPayment name ch orderNo
                    (channelAnswer ''wechat_query_error'' ''wechat_response'' ''refund_id'' ''channel_refund_no''
                       (syncOrderStatusFromWechat e S orderNo) data) w
             else if name = ''alipay''
             then askPayment name ch orderNo
                    (channelAnswer ''alipay_query_error'' ''alipay_response'' ''trade_no'' ''trade_no''
                       (syncOrderStatusFromAlipay e S orderNo) data) w
             else (Some (queryReply 0 ''Order found'' data), w))"

definition queryOrder :: "env \<Rightarrow> sys \<Rightarrow> string \<Rightarrow> world \<Rightarrow> reply option \<times> world" where
  "queryOrder e S orderNo w =
     (if \<not> hasDb S
      then (Some (jobject [(''code'', JInt 1003), (''message'', JString ''Database client not available'')], IoError), w)
      else if orderNo = []
      then (Some (jobject [(''code'', JInt 1001), (''message'', JString ''Missing order_no parameter'')],
                  InvalidArgument), w)
      else
        (case find_one e (select_orders (\<lambda>r. o_order_no r = orderNo)) w of
           (Ok order, w1) \<Rightarrow> orderFound e S orderNo order w1
         | (DbErr what, w1) \<Rightarrow>
             (Some (pay_error 1004 (''Order not found: '' @ what) (''Order not found: '' @ what)), w1)
         | (Threw what, w1) \<Rightarrow> (Some (reportMapperFailure (what_of ''unknown exception'' what)), w1)))"

section \<open>queryOrderList\<close>

text \<open>
  The parameters that stand for the database's texts of \<open>created_at\<close> and \<open>updated_at\<close> of an
  order, and for the old-style JSON reader, whose failure leaves an arbitrary value.
\<close>

definition join_rows :: "tables \<Rightarrow> (order_row \<times> payment_row option) list" where
  "join_rows t =
     concat (map (\<lambda>order. case filter (\<lambda>p. p_order_no p = o_order_no order) (t_payments t) of
                            [] \<Rightarrow> [(order, None)]
                          | ps \<Rightarrow> map (\<lambda>p. (order, Some p)) ps) (t_orders t))"

definition listed :: "string \<Rightarrow> int \<Rightarrow> order_row \<Rightarrow> bool" where
  "listed status userId order \<longleftrightarrow>
     (status \<noteq> [] \<and> status \<noteq> ''all'' \<longrightarrow> o_status order = status) \<and> (0 < userId \<longrightarrow> o_user_id order = userId)"

definition actualLimit :: "nat \<Rightarrow> nat" where
  "actualLimit n = (if 0 < n \<and> n \<le> 100 then n else 50)"

text \<open>
  \<open>ORDER BY created_at DESC LIMIT l OFFSET o\<close>; equal times keep the order of the join. The
  offset is bound as text, and the database refuses one that is not a \<open>bigint\<close>.
\<close>

definition select_list :: "string \<Rightarrow> int \<Rightarrow> nat \<Rightarrow> nat \<Rightarrow> tables \<Rightarrow> pg_error + (order_row \<times> payment_row option) list" where
  "select_list status userId n offset t =
     (if int64_max < int offset then Inl BadCast
      else Inr (take (actualLimit n) (drop offset
            (sort_key (\<lambda>(order, _). - o_created_at order) (filter (\<lambda>(order, _). listed status userId order) (join_rows t))))))"

definition jset_some :: "string \<Rightarrow> json option \<Rightarrow> json \<Rightarrow> json" where
  "jset_some k v j = (case v of None \<Rightarrow> j | Some x \<Rightarrow> jset k x j)"

definition listItem ::
  "(order_row \<Rightarrow> string) \<Rightarrow> (order_row \<Rightarrow> string) \<Rightarrow> (string \<Rightarrow> json) \<Rightarrow> order_row \<times> payment_row option \<Rightarrow> json" where
  "listItem createdText updatedText readJson =
     (\<lambda>(order, payment).
        jset_some ''channel_response'' (map_option readJson (Option.bind payment p_response_payload))
          (jset ''paid_at'' (JString (updatedText order))
            (jset_some ''trade_no'' (map_option JString (Option.bind payment p_channel_trade_no))
              (jset_some ''payment_no'' (map_option (JString \<circ> p_payment_no) payment)
                (jset ''updated_at'' (JString (updatedText order))
                  (jset ''created_at'' (JString (createdText order)) (orderData order)))))))"

definition queryOrderList ::
  "env \<Rightarrow> (order_row \<Rightarrow> string) \<Rightarrow> (order_row \<Rightarrow> string) \<Rightarrow> (string \<Rightarrow> json) \<Rightarrow> string \<Rightarrow> int \<Rightarrow> nat \<Rightarrow> nat \<Rightarrow> world
     \<Rightarrow> reply \<times> world" where
  "queryOrderList e createdText updatedText readJson status userId n offset w =
     (case exec e (reads (select_list status userId n offset)) w of
        (Inr rows, w1) \<Rightarrow>
          ((jobject [(''code'', JInt 200), (''message'', JString ''Success''),
                     (''data'', JArray (map (listItem createdText updatedText readJson) rows))], NoError), w1)
      | (Inl what, w1) \<Rightarrow>
          ((jobject [(''code'', JInt 1500), (''message'', JString (''Database error: '' @ what))], IoError), w1))"

section \<open>reconcileSummary\<close>

text \<open>
  Two chains, one on orders and one on refunds, each a count and then a probe for the oldest
  row. Their callbacks interleave freely; they share the countdown \<open>pending\<close>, the flag
  \<open>responded\<close> and the summary. A chain that fails answers at once unless the call was
  answered already. Other requests write between the four statements: each reads some
  content \<open>t\<close> out of the set \<open>T\<close> of contents the tables pass through. The text of a time stamp
  is left open.
\<close>

datatype leg = Counting | Probing | Ended

record summary_state =
  sm_orders :: leg
  sm_refunds :: leg
  sm_pending :: nat
  sm_responded :: bool
  sm_summary :: json
  sm_replies :: "reply list"

definition summary_start :: summary_state where
  "summary_start = \<lparr>sm_orders = Counting, sm_refunds = Counting, sm_pending = 2, sm_responded = False,
     sm_summary = jobject [(''paying_orders'', JInt 0), (''refunding_refunds'', JInt 0),
       (''oldest_paying_updated'', JString []), (''oldest_refund_updated'', JString [])],
     sm_replies = []\<rparr>"

definition reconcileSummary :: "sys \<Rightarrow> summary_state" where
  "reconcileSummary S =
     (if hasDb S then summary_start
      else summary_start\<lparr>sm_orders := Ended, sm_refunds := Ended, sm_responded := True,
        sm_replies := [(jobject [(''code'', JInt 1003), (''message'', JString ''Database client not available'')], IoError)]\<rparr>)"

definition respondOnce :: "reply \<Rightarrow> summary_state \<Rightarrow> summary_state" where
  "respondOnce rep s =
     (if sm_responded s then s else s\<lparr>sm_responded := True, sm_replies := sm_replies s @ [rep]\<rparr>)"

definition finishIfReady :: "summary_state \<Rightarrow> summary_state" where
  "finishIfReady s =
     (let s1 = s\<lparr>sm_pending := sm_pending s - 1\<rparr>
      in if sm_pending s \<noteq> 1 then s1
         else respondOnce (queryReply 0 ''Reconciliation summary'' (sm_summary s)) s1)"

definition put :: "string \<Rightarrow> json \<Rightarrow> summary_state \<Rightarrow> summary_state" where
  "put k v s = s\<lparr>sm_summary := jset k v (sm_summary s)\<rparr>"

definition put_oldest :: "string \<Rightarrow> string option \<Rightarrow> summary_state \<Rightarrow> summary_state" where
  "put_oldest k oldest s = (case oldest of None \<Rightarrow> s | Some stamp \<Rightarrow> put k (JString stamp) s)"

definition count_paying :: "tables \<Rightarrow> nat" where
  "count_paying t = length (filter (\<lambda>r. o_status r = ''PAYING'') (t_orders t))"

definition count_refunding :: "tables \<Rightarrow> nat" where
  "count_refunding t = length (filter (\<lambda>r. r_status r \<in> {''REFUND_INIT'', ''REFUNDING''}) (t_refunds t))"

definition summary_fails :: "string \<Rightarrow> summary_state \<Rightarrow> summary_state" where
  "summary_fails what = respondOnce (reportMapperFailure what)"

inductive summary_step :: "tables set \<Rightarrow> summary_state \<Rightarrow> summary_state \<Rightarrow> bool" for T where
  orders_counted: "sm_orders s = Counting \<Longrightarrow> t \<in> T \<Longrightarrow>
    summary_step T s ((put ''paying_orders'' (JInt (int (count_paying t))) s)\<lparr>sm_orders := Probing\<rparr>)"
| orders_probed: "sm_orders s = Probing \<Longrightarrow> t \<in> T \<Longrightarrow> oldest = None \<longleftrightarrow> count_paying t = 0 \<Longrightarrow>
    summary_step T s (finishIfReady ((put_oldest ''oldest_paying_updated'' oldest s)\<lparr>sm_orders := Ended\<rparr>))"
| orders_failed: "sm_orders s \<noteq> Ended \<Longrightarrow> summary_step T s (summary_fails what (s\<lparr>sm_orders := Ended\<rparr>))"
| refunds_counted: "sm_refunds s = Counting \<Longrightarrow> t \<in> T \<Longrightarrow>
    summary_step T s ((put ''refunding_refunds'' (JInt (int (count_refunding t))) s)\<lparr>sm_refunds := Probing\<rparr>)"
| refunds_probed: "sm_refunds s = Probing \<Longrightarrow> t \<in> T \<Longrightarrow> oldest = None \<longleftrightarrow> count_refunding t = 0 \<Longrightarrow>
    summary_step T s (finishIfReady ((put_oldest ''oldest_refund_updated'' oldest s)\<lparr>sm_refunds := Ended\<rparr>))"
| refunds_failed: "sm_refunds s \<noteq> Ended \<Longrightarrow> summary_step T s (summary_fails what (s\<lparr>sm_refunds := Ended\<rparr>))"

section \<open>Invariants across the query\<close>

context settle_inv
begin

lemma channel_answer_holds:
  assumes "\<And>v. holds I v \<Longrightarrow> holds I (snd (door result v))" "holds I w"
  shows "holds I (snd (channelAnswer ek ak fld ck door data result error w))"
  using assms(1) [OF assms(2)] assms(2)
  by (auto simp: channelAnswer_def split: prod.splits option.splits)

lemma ask_payment_holds:
  assumes "\<And>result error v. holds I v \<Longrightarrow> holds I (snd (answer result error v))" "holds I w"
  shows "holds I (snd (askPayment name ch on answer w))"
  using assms by (auto simp: askPayment_def Let_def split: option.splits)

lemma query_order_holds:
  assumes "stable I e" "holds I w"
  shows "holds I (snd (queryOrder e S on w))"
proof -
  have "holds I (snd (orderFound e S on order v))" if "holds I v" for order v
    using that wechat_sync_holds [OF assms(1)] alipay_sync_holds [OF assms(1)]
    by (auto simp: orderFound_def Let_def intro!: ask_payment_holds channel_answer_holds split: option.splits)
  with assms show ?thesis
    by (auto simp: queryOrder_def dest!: find_one_holdsD split: prod.splits dbres.splits)
qed

end

section \<open>The summary is answered once\<close>

fun leg_steps :: "leg \<Rightarrow> nat" where
  "leg_steps Counting = 2"
| "leg_steps Probing = 1"
| "leg_steps Ended = 0"

definition steps_left :: "summary_state \<Rightarrow> nat" where
  "steps_left s = leg_steps (sm_orders s) + leg_steps (sm_refunds s)"

text \<open>
  The invariant: before the first answer the countdown is the number of running chains and
  the counts already taken are in the summary; afterwards there is exactly one reply.
\<close>

definition counted :: "string \<Rightarrow> (tables \<Rightarrow> nat) \<Rightarrow> tables set \<Rightarrow> json \<Rightarrow> bool" where
  "counted k f T data \<longleftrightarrow> (\<exists>t \<in> T. jget data k JNull = Some (JInt (int (f t))))"

definition summary_inv :: "tables set \<Rightarrow> summary_state \<Rightarrow> bool" where
  "summary_inv T s \<longleftrightarrow>
     length (sm_replies s) = (if sm_responded s then 1 else 0) \<and> (\<exists>kvs. sm_summary s = JObject kvs) \<and>
     (\<not> sm_responded s \<longrightarrow>
        sm_pending s = (if sm_orders s = Ended then 0 else 1) + (if sm_refunds s = Ended then 0 else 1) \<and> 0 < sm_pending s) \<and>
     (sm_orders s \<noteq> Counting \<and> \<not> sm_responded s \<longrightarrow> counted ''paying_orders'' count_paying T (sm_summary s)) \<and>
     (sm_refunds s \<noteq> Counting \<and> \<not> sm_responded s \<longrightarrow> counted ''refunding_refunds'' count_refunding T (sm_summary s)) \<and>
     (\<forall>data. queryReply 0 ''Reconciliation summary'' data \<in> set (sm_replies s) \<longrightarrow>
        counted ''paying_orders'' count_paying T data \<and> counted ''refunding_refunds'' count_refunding T data)"

lemma counted_jset:
  "t \<in> T \<Longrightarrow> counted k f T (jset k (JInt (int (f t))) (JObject kvs))"
  "k' \<noteq> k \<Longrightarrow> counted k f T (jset k' v (JObject kvs)) \<longleftrightarrow> counted k f T (JObject kvs)"
  by (auto simp: counted_def)

lemma queryReply_inject: "queryReply c m d = queryReply c m d' \<longleftrightarrow> d = d'"
  by (simp add: queryReply_def jobject_def less_char_def)

lemma summary_states [simp]:
  "sm_orders (put k v s) = sm_orders s" "sm_refunds (put k v s) = sm_refunds s"
  "sm_pending (put k v s) = sm_pending s" "sm_responded (put k v s) = sm_responded s"
  "sm_replies (put k v s) = sm_replies s" "sm_summary (put k v s) = jset k v (sm_summary s)"
  "sm_orders (respondOnce rep s) = sm_orders s" "sm_refunds (respondOnce rep s) = sm_refunds s"
  "sm_pending (respondOnce rep s) = sm_pending s" "sm_responded (respondOnce rep s)"
  "sm_summary (respondOnce rep s) = sm_summary s"
  "sm_replies (respondOnce rep s) = (if sm_responded s then sm_replies s else sm_replies s @ [rep])"
  by (simp_all add: put_def respondOnce_def)

lemma summary_fails_reply: "snd (reportMapperFailure what) \<noteq> NoError" "reportMapperFailure what \<noteq> queryReply c m d"
  by (simp_all add: reportMapperFailure_def queryReply_def)

lemma put_oldest_keeps:
  "sm_orders (put_oldest k x s) = sm_orders s" "sm_refunds (put_oldest k x s) = sm_refunds s"
  "sm_pending (put_oldest k x s) = sm_pending s" "sm_responded (put_oldest k x s) = sm_responded s"
  "sm_replies (put_oldest k x s) = sm_replies s"
  "k \<noteq> k' \<Longrightarrow> sm_summary s = JObject kvs \<Longrightarrow> counted k' f T (sm_summary (put_oldest k x s)) = counted k' f T (sm_summary s)"
  "sm_summary s = JObject kvs \<Longrightarrow> \<exists>kvs'. sm_summary (put_oldest k x s) = JObject kvs'"
  by (auto simp: put_oldest_def counted_jset simp del: jset.simps split: option.splits) auto

lemma summary_inv_fails:
  assumes "summary_inv T s"
  shows "summary_inv T (summary_fails what (s\<lparr>sm_orders := Ended\<rparr>))"
    "summary_inv T (summary_fails what (s\<lparr>sm_refunds := Ended\<rparr>))"
  using assms summary_fails_reply(2) [symmetric]
  by (auto simp: summary_inv_def summary_fails_def split: if_splits)

lemma summary_inv_finish:
  assumes "summary_inv T s" "s1 = put_oldest k x s" "k \<notin> {''paying_orders'', ''refunding_refunds''}"
  shows "sm_orders s = Probing \<Longrightarrow> summary_inv T (finishIfReady (s1\<lparr>sm_orders := Ended\<rparr>))"
    and "sm_refunds s = Probing \<Longrightarrow> summary_inv T (finishIfReady (s1\<lparr>sm_refunds := Ended\<rparr>))"
proof -
  from assms(1) obtain kvs where j: "sm_summary s = JObject kvs" by (auto simp: summary_inv_def)
  note same = put_oldest_keeps(1-5) [of k x s, folded assms(2)]
  have counts: "counted ''paying_orders'' count_paying T (sm_summary s1) = counted ''paying_orders'' count_paying T (sm_summary s)"
    "counted ''refunding_refunds'' count_refunding T (sm_summary s1) = counted ''refunding_refunds'' count_refunding T (sm_summary s)"
    using put_oldest_keeps(6) [OF _ j] assms(2,3) by simp_all
  obtain kvs' where j': "sm_summary s1 = JObject kvs'" using put_oldest_keeps(7) [OF j, of k x] assms(2) by blast
  show "sm_orders s = Probing \<Longrightarrow> summary_inv T (finishIfReady (s1\<lparr>sm_orders := Ended\<rparr>))"
    "sm_refunds s = Probing \<Longrightarrow> summary_inv T (finishIfReady (s1\<lparr>sm_refunds := Ended\<rparr>))"
    using assms(1) counts unfolding summary_inv_def finishIfReady_def Let_def
    by (auto simp: same j j' queryReply_inject split: if_splits)
qed

lemma summary_inv_step: "summary_step T s s' \<Longrightarrow> summary_inv T s \<Longrightarrow> summary_inv T s'"
proof (induction rule: summary_step.induct)
  case (orders_counted s t)
  then show ?case by (auto simp: summary_inv_def counted_jset simp del: jset.simps split: if_splits) auto
next
  case (refunds_counted s t)
  then show ?case by (auto simp: summary_inv_def counted_jset simp del: jset.simps split: if_splits) auto
next
  case (orders_probed s t oldest)
  then show ?case using summary_inv_finish(1) by simp
next
  case (refunds_probed s t oldest)
  then show ?case using summary_inv_finish(2) by simp
qed (simp_all add: summary_inv_fails)

lemma summary_inv_start: "summary_inv T (reconcileSummary S)"
  by (simp add: summary_inv_def reconcileSummary_def summary_start_def jobject_def queryReply_def)

lemma summary_inv_reachable: "(summary_step T)\<^sup>*\<^sup>* (reconcileSummary S) s \<Longrightarrow> summary_inv T s"
  by (induction rule: rtranclp_induct) (auto intro: summary_inv_start summary_inv_step)

lemma finish_steps_left: "steps_left (finishIfReady s) = steps_left s"
  by (simp add: finishIfReady_def Let_def steps_left_def)

lemma summary_step_decreases: "summary_step T s s' \<Longrightarrow> steps_left s' < steps_left s"
proof (induction rule: summary_step.induct)
  case (orders_failed s what)
  then show ?case by (cases "sm_orders s") (simp_all add: steps_left_def summary_fails_def)
next
  case (refunds_failed s what)
  then show ?case by (cases "sm_refunds s") (simp_all add: steps_left_def summary_fails_def)
qed (simp_all add: finish_steps_left, simp_all add: steps_left_def put_oldest_keeps)

lemma summary_stuck_ended:
  assumes "\<nexists>s'. summary_step T s s'"
  shows "sm_orders s = Ended" "sm_refunds s = Ended"
  using assms orders_failed [of s T "[]"] refunds_failed [of s T "[]"] by blast+

text \<open>
  C23: \<open>reconcileSummary\<close> is answered exactly once. Whatever the interleaving of its two chains
  and whichever of their statements fail, there is at most one reply, every step brings the
  call nearer to its end (\<open>steps_left\<close> starts at four), and when no step is left there has
  been exactly one reply. A successful reply carries a number of paying orders and a number
  of refunds in progress that the tables really had while the call ran.
\<close>

theorem summary_replies_once:
  assumes "(summary_step T)\<^sup>*\<^sup>* (reconcileSummary S) s"
  shows "length (sm_replies s) \<le> 1 \<and> (\<forall>s'. summary_step T s s' \<longrightarrow> steps_left s' < steps_left s) \<and>
     ((\<nexists>s'. summary_step T s s') \<longrightarrow> length (sm_replies s) = 1) \<and>
     (\<forall>data. queryReply 0 ''Reconciliation summary'' data \<in> set (sm_replies s) \<longrightarrow>
        (\<exists>t \<in> T. jget data ''paying_orders'' JNull = Some (JInt (int (count_paying t)))) \<and>
        (\<exists>t \<in> T. jget data ''refunding_refunds'' JNull = Some (JInt (int (count_refunding t)))))"
proof -
  note inv = summary_inv_reachable [OF assms]
  have "(\<nexists>s'. summary_step T s s') \<Longrightarrow> length (sm_replies s) = 1"
    using inv summary_stuck_ended [of T s] by (auto simp: summary_inv_def split: if_splits)
  moreover have "length (sm_replies s) \<le> 1" using inv by (simp add: summary_inv_def)
  moreover have "\<forall>data. queryReply 0 ''Reconciliation summary'' data \<in> set (sm_replies s) \<longrightarrow>
        (\<exists>t \<in> T. jget data ''paying_orders'' JNull = Some (JInt (int (count_paying t)))) \<and>
        (\<exists>t \<in> T. jget data ''refunding_refunds'' JNull = Some (JInt (int (count_refunding t))))"
    using inv by (simp add: summary_inv_def counted_def)
  ultimately show ?thesis using summary_step_decreases by blast
qed

text \<open>The refund chain ends while the order chain is between its two statements.\<close>

theorem summary_replies_once_witness:
  "let s1 = (put ''paying_orders'' (JInt 0) summary_start)\<lparr>sm_orders := Probing\<rparr>;
       s2 = (put ''refunding_refunds'' (JInt 0) s1)\<lparr>sm_refunds := Probing\<rparr>;
       s3 = finishIfReady (s2\<lparr>sm_refunds := Ended\<rparr>);
       s4 = finishIfReady (s3\<lparr>sm_orders := Ended\<rparr>)
   in sm_replies s3 = [] \<and> length (sm_replies s4) = 1 \<and> steps_left s4 = 0"
proof -
  let ?T = "{no_rows}"
  define s1 where "s1 = (put ''paying_orders'' (JInt 0) summary_start)\<lparr>sm_orders := Probing\<rparr>"
  define s2 where "s2 = (put ''refunding_refunds'' (JInt 0) s1)\<lparr>sm_refunds := Probing\<rparr>"
  define s3 where "s3 = finishIfReady (s2\<lparr>sm_refunds := Ended\<rparr>)"
  define s4 where "s4 = finishIfReady (s3\<lparr>sm_orders := Ended\<rparr>)"
  note defs = s1_def s2_def s3_def s4_def summary_start_def put_def finishIfReady_def respondOnce_def
  have c: "count_paying no_rows = 0" "count_refunding no_rows = 0"
    by (simp_all add: count_paying_def count_refunding_def no_rows_def)
  have "summary_step ?T summary_start s1"
    using orders_counted [of summary_start no_rows ?T] c by (simp add: s1_def summary_start_def)
  moreover have "summary_step ?T s1 s2"
    using refunds_counted [of s1 no_rows ?T] c by (simp add: s2_def s1_def summary_start_def)
  moreover have "summary_step ?T s2 s3"
    using refunds_probed [of s2 no_rows ?T None] c by (simp add: s3_def s2_def put_oldest_def)
  moreover have "summary_step ?T s3 s4"
    using orders_probed [of s3 no_rows ?T None] c by (simp add: defs put_oldest_def)
  ultimately have "(summary_step ?T)\<^sup>*\<^sup>* summary_start s4" by (iprover intro: converse_rtranclp_into_rtranclp rtranclp.rtrancl_refl)
  then have r: "(summary_step ?T)\<^sup>*\<^sup>* (reconcileSummary plain_sys) s4" by (simp add: reconcileSummary_def plain_sys_def)
  have e: "steps_left s4 = 0" by (simp add: steps_left_def defs)
  then have "\<nexists>s'. summary_step ?T s4 s'" using summary_replies_once [OF r] by (metis less_nat_zero_code)
  then have "length (sm_replies s4) = 1" using summary_replies_once [OF r] by blast
  moreover have "sm_replies s3 = []" by (simp add: defs)
  ultimately show ?thesis using e by (simp add: Let_def defs)
qed

section \<open>Pages of the order list\<close>

definition join_row :: "tables \<Rightarrow> order_row \<Rightarrow> (order_row \<times> payment_row option) list" where
  "join_row t order = (case filter (\<lambda>p. p_order_no p = o_order_no order) (t_payments t) of
     [] \<Rightarrow> [(order, None)] | ps \<Rightarrow> map (\<lambda>p. (order, Some p)) ps)"

lemma join_rows_alt: "join_rows t = concat (map (join_row t) (t_orders t))"
  by (simp add: join_rows_def join_row_def [abs_def])

lemma join_row_laws:
  "x \<in> set (join_row t order) \<Longrightarrow> fst x = order"
  "length (join_row t order) = max 1 (length (filter (\<lambda>p. p_order_no p = o_order_no order) (t_payments t)))"
  by (auto simp: join_row_def split: list.splits)

lemma join_row_some: "\<exists>x \<in> set (join_row t order). fst x = order"
  by (auto simp: join_row_def split: list.splits)

lemma filter_concat_key:
  assumes "\<And>ord x. x \<in> set (f ord) \<Longrightarrow> fst x = ord"
  shows "distinct os \<Longrightarrow> filter (\<lambda>x. fst x = order) (concat (map f os)) = (if order \<in> set os then f order else [])"
proof (induction os)
  case (Cons a os)
  have "filter (\<lambda>x. fst x = order) (f a) = (if a = order then f a else [])"
    using assms by (auto simp: filter_id_conv filter_empty_conv)
  with Cons show ?case by auto
qed simp

definition order_list :: "string \<Rightarrow> int \<Rightarrow> tables \<Rightarrow> (order_row \<times> payment_row option) list" where
  "order_list status userId t =
     sort_key (\<lambda>(order, _). - o_created_at order) (filter (\<lambda>(order, _). listed status userId order) (join_rows t))"

lemma order_list_occurrences:
  assumes "keyed o_order_no (t_orders t)" "order \<in> set (t_orders t)" "listed status userId order"
  shows "length (filter (\<lambda>x. fst x = order) (order_list status userId t)) =
     max 1 (length (filter (\<lambda>p. p_order_no p = o_order_no order) (t_payments t)))"
proof -
  have d: "distinct (t_orders t)" using assms(1) by (auto simp: keyed_def distinct_map)
  have "length (filter (\<lambda>x. fst x = order) (order_list status userId t)) =
      length (filter (\<lambda>x. fst x = order) (filter (\<lambda>(order, _). listed status userId order) (join_rows t)))"
    unfolding order_list_def by (simp only: size_mset [symmetric] mset_filter mset_sort)
  also have "\<dots> = length (filter (\<lambda>x. fst x = order) (join_rows t))"
    using assms(3) by (auto intro!: arg_cong [of _ _ length] filter_cong simp: filter_filter)
  also have "\<dots> = length (join_row t order)"
    using filter_concat_key [where f = "join_row t" and order = order, OF join_row_laws(1) d] assms(2) by (simp add: join_rows_alt)
  finally show ?thesis by (simp add: join_row_laws(2))
qed

lemma pages_cover: "0 < n \<Longrightarrow> concat (map (\<lambda>i. take n (drop (i * n) xs)) [0..<k]) = take (k * n) xs"
proof (induction k)
  case (Suc k)
  then show ?case by (simp add: take_add [symmetric] add.commute)
qed simp


text \<open>One order with two attempts fills two pages of one row.\<close>

definition two_attempts :: tables where
  "two_attempts = no_rows\<lparr>t_orders := [paying_order],
     t_payments := [open_payment, open_payment\<lparr>p_payment_no := ''P2''\<rparr>]\<rparr>"


end
