(* ===== verification/Pay_Refund.thy ===== *)
theory Pay_Refund
  imports Pay_Sync
begin

text \<open>
  \<open>services/RefundService.cc\<close>: creating a refund under an idempotency key, the choice of the
  payment to refund, the checks on the order, the booking of the refund row under the lock
  on the payment, the channel call after the commit, the guarded writes of its outcome, the
  refund query and the refund door \<open>syncRefundStatusFromWechat\<close>.

  The create and query flows use the database client without a check and are modelled for
  a service that has one. Replies carry \<open>std::system_category\<close> codes (\<open>SystemError\<close>).
  \<open>proceedRefund\<close> calls itself once it has chosen a payment; it is a partial function whose
  outer \<open>None\<close> is a run that never ends.
\<close>

section \<open>File-local helpers\<close>

definition sys_error :: "int \<Rightarrow> string \<Rightarrow> reply" where
  "sys_error code message =
     (jobject [(''code'', JInt code), (''message'', JString message)], SystemError code)"

definition refundMapperFailure :: "string option \<Rightarrow> reply" where
  "refundMapperFailure thrown = sys_error 1500 (''Database error: '' @ what_of ''unknown exception'' thrown)"

definition refundCertainlyDidNotHappen :: "string \<Rightarrow> bool" where
  "refundCertainlyDidNotHappen error =
     (if starts_with ''HTTP 4'' error \<and> find_sub ''no error envelope'' error = None then True
      else \<not> (starts_with ''HTTP '' error \<or> starts_with ''http request'' error \<or>
              error = ''invalid json response'' \<or>
              starts_with ''response signature verification failed'' error))"

text \<open>
  \<open>gmtime_r\<close> and \<open>strftime\<close> as \<open>toRfc3339Utc\<close> uses them: the proleptic Gregorian date of a day
  number, the year printed without padding.
\<close>

definition civil_of_days :: "int \<Rightarrow> int \<times> int \<times> int" where
  "civil_of_days days =
     (let z = days + 719468;
          era = z div 146097;
          doe = z mod 146097;
          yoe = (doe - doe div 1460 + doe div 36524 - doe div 146096) div 365;
          doy = doe - (365 * yoe + yoe div 4 - yoe div 100);
          mp = (5 * doy + 2) div 153;
          m = (if mp < 10 then mp + 3 else mp - 9)
      in (yoe + era * 400 + (if m \<le> 2 then 1 else 0), m, doy - (153 * mp + 2) div 5 + 1))"

definition toRfc3339Utc :: "int \<Rightarrow> string" where
  "toRfc3339Utc microSeconds =
     (let seconds = c_div microSeconds 1000000;
          sod = seconds mod 86400
      in case civil_of_days (seconds div 86400) of
           (y, m, d) \<Rightarrow>
             show_int y @ ''-'' @ pad2 (nat m) @ ''-'' @ pad2 (nat d) @ ''T'' @ pad2 (nat (sod div 3600)) @ '':'' @
             pad2 (nat (sod mod 3600 div 60)) @ '':'' @ pad2 (nat (sod mod 60)) @ ''Z'')"

text \<open>Two's complement addition of \<open>int64_t\<close>, which the compilers used give on overflow.\<close>

definition add_int64 :: "int \<Rightarrow> int \<Rightarrow> int" where
  "add_int64 a b = (a + b + 2 ^ 63) mod 2 ^ 64 - 2 ^ 63"

section \<open>Statements\<close>

definition update_refunds ::
  "(refund_row \<Rightarrow> bool) \<Rightarrow> (refund_row \<Rightarrow> refund_row) \<Rightarrow> tables \<Rightarrow> pg_error + (nat \<times> tables)" where
  "update_refunds P f t =
     Inr (length (filter P (t_refunds t)), t\<lparr>t_refunds := update_where P f (t_refunds t)\<rparr>)"

text \<open>A refund that no door has settled; every update stamps \<open>updated_at\<close> by the trigger.\<close>

definition open_refund :: "string \<Rightarrow> refund_row \<Rightarrow> bool" where
  "open_refund rn r \<longleftrightarrow> r_refund_no r = rn \<and> r_status r \<in> {''REFUND_INIT'', ''REFUNDING''}"

definition fail_refund :: "int \<Rightarrow> string \<Rightarrow> string \<Rightarrow> tables \<Rightarrow> pg_error + (nat \<times> tables)" where
  "fail_refund now rn payload =
     update_refunds (open_refund rn)
       (\<lambda>r. r\<lparr>r_status := ''REFUND_FAIL'', r_response_payload := Some payload, r_updated_at := now\<rparr>)"

definition book_refund ::
  "int \<Rightarrow> string \<Rightarrow> string \<Rightarrow> string \<Rightarrow> string \<Rightarrow> tables \<Rightarrow> pg_error + (nat \<times> tables)" where
  "book_refund now rn status refundId payload t =
     (if list_ex (open_refund rn) (t_refunds t) \<and> \<not> fits 64 refundId then Inl TooLong
      else update_refunds (open_refund rn)
             (\<lambda>r. r\<lparr>r_status := status, r_channel_refund_no := Some refundId,
                    r_response_payload := Some payload, r_updated_at := now\<rparr>) t)"

definition refunded_order :: "string \<Rightarrow> tables \<Rightarrow> pg_error + (nat \<times> tables)" where
  "refunded_order on =
     update_orders (\<lambda>r. o_order_no r = on \<and> o_status r = ''PAID'') (\<lambda>r. r\<lparr>o_status := ''REFUNDED''\<rparr>)"

text \<open>The writes of the refund door, by key and without a status guard.\<close>

definition set_refund_status ::
  "int \<Rightarrow> string \<Rightarrow> string \<Rightarrow> string \<Rightarrow> tables \<Rightarrow> pg_error + (nat \<times> tables)" where
  "set_refund_status now rn status refundId t =
     (if list_ex (\<lambda>r. r_refund_no r = rn) (t_refunds t) \<and> \<not> fits 64 refundId then Inl TooLong
      else update_refunds (\<lambda>r. r_refund_no r = rn)
             (\<lambda>r. r\<lparr>r_status := status, r_channel_refund_no := Some refundId, r_updated_at := now\<rparr>) t)"

definition set_refund_payload :: "int \<Rightarrow> string \<Rightarrow> string \<Rightarrow> tables \<Rightarrow> pg_error + (nat \<times> tables)" where
  "set_refund_payload now rn payload =
     update_refunds (\<lambda>r. r_refund_no r = rn) (\<lambda>r. r\<lparr>r_response_payload := Some payload, r_updated_at := now\<rparr>)"

definition select_refunds :: "(refund_row \<Rightarrow> bool) \<Rightarrow> tables \<Rightarrow> pg_error + refund_row list" where
  "select_refunds P t = Inr (filter P (t_refunds t))"

definition same_refund :: "string \<Rightarrow> string \<Rightarrow> string \<Rightarrow> refund_row \<Rightarrow> bool" where
  "same_refund on pn amount r \<longleftrightarrow> r_order_no r = on \<and> r_payment_no r = pn \<and> r_amount r = amount"

definition settled_refund :: "string \<Rightarrow> string \<Rightarrow> string \<Rightarrow> tables \<Rightarrow> pg_error + refund_row option" where
  "settled_refund on pn amount t =
     Inr (latest_by r_updated_at
            (filter (\<lambda>r. same_refund on pn amount r \<and> r_status r = ''REFUND_SUCCESS'') (t_refunds t)))"

definition count_in_progress :: "string \<Rightarrow> string \<Rightarrow> string \<Rightarrow> tables \<Rightarrow> pg_error + nat" where
  "count_in_progress on pn amount t =
     Inr (length (filter (\<lambda>r. same_refund on pn amount r \<and> r_status r \<in> {''REFUND_INIT'', ''REFUNDING''})
                         (t_refunds t)))"

definition latest_attempt :: "string \<Rightarrow> string list \<Rightarrow> tables \<Rightarrow> pg_error + payment_row option" where
  "latest_attempt on statuses t =
     Inr (latest_by p_created_at (filter (\<lambda>r. p_order_no r = on \<and> p_status r \<in> set statuses) (t_payments t)))"

text \<open>The sum under the lock: every refund of the order that holds or may still move money.\<close>

definition active_refund :: "string \<Rightarrow> refund_row \<Rightarrow> bool" where
  "active_refund on r \<longleftrightarrow>
     r_order_no r = on \<and> r_status r \<in> {''REFUND_INIT'', ''REFUNDING'', ''REFUND_SUCCESS''}"

definition active_sum :: "env \<Rightarrow> string \<Rightarrow> tables \<Rightarrow> pg_error + string" where
  "active_sum e on t =
     (case numericSum e (map r_amount (filter (active_refund on) (t_refunds t))) of
        None \<Rightarrow> Inl BadCast | Some s \<Rightarrow> Inr s)"

section \<open>The outcome of the channel call\<close>

record refund_request =
  rf_orderNo :: string
  rf_paymentNo :: string
  rf_refundNo :: string
  rf_amount :: string
  rf_reason :: string
  rf_notifyUrl :: string
  rf_fundsAccount :: string

definition updateRefundWithError :: "env \<Rightarrow> sys \<Rightarrow> string \<Rightarrow> json \<Rightarrow> world \<Rightarrow> world" where
  "updateRefundWithError e S refundNo errJson w =
     snd (mapper e (fail_refund (dbClock e (tick w)) refundNo (toJsonString S errJson)) w)"

definition refundData :: "refund_request \<Rightarrow> string \<Rightarrow> string \<Rightarrow> string \<Rightarrow> json" where
  "refundData rq refundNo amountKey status =
     jobject [(''refund_no'', JString refundNo), (''order_no'', JString (rf_orderNo rq)),
              (''payment_no'', JString (rf_paymentNo rq)), (amountKey, JString (rf_amount rq)),
              (''status'', JString status)]"

definition coded :: "int \<Rightarrow> string \<Rightarrow> json \<Rightarrow> json" where
  "coded code message data =
     jobject [(''code'', JInt code), (''message'', JString message), (''data'', data)]"

definition refundRespond :: "refund_request \<Rightarrow> string \<Rightarrow> string \<Rightarrow> json \<Rightarrow> string \<Rightarrow> reply" where
  "refundRespond rq refundNo refundId result status =
     (coded 0 ''Refund created successfully''
        (jset ''wechat_response'' result (jset ''channel_refund_no'' (JString refundId)
           (refundData rq refundNo ''refund_amount'' status))), NoError)"

definition writeRefundedOrder :: "env \<Rightarrow> string \<Rightarrow> reply \<Rightarrow> world \<Rightarrow> reply option \<times> world" where
  "writeRefundedOrder e orderNo done w =
     (case mapper e (refunded_order orderNo) w of
        (Ok _, w1) \<Rightarrow> (Some done, w1)
      | (DbErr what, w1) \<Rightarrow> (Some (sys_error 1500 (''Database error: '' @ what)), w1)
      | (Threw what, w1) \<Rightarrow> (Some (refundMapperFailure what), w1))"

definition settleRefundedOrder ::
  "env \<Rightarrow> string \<Rightarrow> string \<Rightarrow> int \<Rightarrow> reply \<Rightarrow> world \<Rightarrow> reply option \<times> world" where
  "settleRefundedOrder e orderNo refundStatus orderTotalFen done w =
     (if refundStatus \<noteq> ''REFUND_SUCCESS'' then (Some done, w)
      else
        (case exec e (reads (refund_sum e orderNo)) w of
           (Inl what, w1) \<Rightarrow> (Some (sys_error 1500 (''Database error: '' @ what)), w1)
         | (Inr sumText, w1) \<Rightarrow>
             (case parseAmountToFen sumText of
                None \<Rightarrow> (Some (refundMapperFailure (Some ''Invalid settled refund sum'')), w1)
              | Some settledFen \<Rightarrow>
                  if \<not> refundsCoverOrderAmount settledFen orderTotalFen then (Some done, w1)
                  else writeRefundedOrder e orderNo done w1)))"

definition updateRefundWithSuccess ::
  "env \<Rightarrow> sys \<Rightarrow> refund_request \<Rightarrow> string \<Rightarrow> string \<Rightarrow> string \<Rightarrow> json \<Rightarrow> int \<Rightarrow> world \<Rightarrow> reply option \<times> world" where
  "updateRefundWithSuccess e S rq refundNo refundStatus refundId result orderTotalFen w =
     (case mapper e (book_refund (dbClock e (tick w)) refundNo refundStatus refundId (toJsonString S result)) w of
        (Ok _, w1) \<Rightarrow>
          settleRefundedOrder e (rf_orderNo rq) refundStatus orderTotalFen
            (refundRespond rq refundNo refundId result refundStatus) w1
      | (DbErr what, w1) \<Rightarrow> (Some (sys_error 1500 (''Database error: '' @ what)), w1)
      | (Threw what, w1) \<Rightarrow> (Some (refundMapperFailure what), w1))"

section \<open>The channel call\<close>

definition errorJson :: "string \<Rightarrow> json" where
  "errorJson message = jobject [(''error'', JString message)]"

text \<open>
  Alipay: any error answer books \<open>REFUND_FAIL\<close>; a missing client leaves the row as it is.
  \<open>None\<close> in the middle: the channel never answers or an accessor throws.
\<close>

definition alipayRefundPayload :: "refund_request \<Rightarrow> json" where
  "alipayRefundPayload rq =
     jset_text ''refund_reason'' (rf_reason rq)
       (jobject [(''out_trade_no'', JString (rf_orderNo rq)), (''refund_amount'', JString (rf_amount rq))])"

definition alipayRefundAnswer ::
  "env \<Rightarrow> sys \<Rightarrow> refund_request \<Rightarrow> string \<Rightarrow> int \<Rightarrow> json \<Rightarrow> string \<Rightarrow> world \<Rightarrow> reply option \<times> world" where
  "alipayRefundAnswer e S rq refundNo totalFen result error w =
     (let failData = refundData rq refundNo ''refund_amount'' ''REFUND_FAIL''
      in if error \<noteq> []
         then let message = ''Alipay error: '' @ error; errJson = errorJson message
              in (Some (coded 1502 message (jset ''alipay_response'' errJson (jset ''error'' (JString message) failData)),
                        SystemError 1502), updateRefundWithError e S refundNo errJson w)
         else
           (case jstr result ''code'' [] of
              None \<Rightarrow> (None, w)
            | Some alipayCode \<Rightarrow>
                if alipayCode \<noteq> ''10000''
                then (case jstr result ''msg'' [] of
                        None \<Rightarrow> (None, w)
                      | Some msg \<Rightarrow>
                          (Some (coded 1502 (''Alipay refund failed: '' @ msg) failData, SystemError 1502),
                           updateRefundWithError e S refundNo result w))
                else (case jstr result ''refund_id'' [] of
                        None \<Rightarrow> (None, w)
                      | Some refundId \<Rightarrow>
                          updateRefundWithSuccess e S rq refundNo ''REFUND_SUCCESS'' refundId result totalFen w)))"

definition wechatRefundPayload :: "refund_request \<Rightarrow> string \<Rightarrow> int \<Rightarrow> int \<Rightarrow> string \<Rightarrow> json" where
  "wechatRefundPayload rq refundNo refundFen totalFen currency =
     jset ''amount'' (jobject [(''refund'', JInt refundFen), (''total'', JInt totalFen), (''currency'', JString currency)])
       (jset_text ''funds_account'' (rf_fundsAccount rq)
         (jset_text ''notify_url'' (rf_notifyUrl rq)
           (jset_text ''reason'' (rf_reason rq)
             (jobject [(''out_trade_no'', JString (rf_orderNo rq)), (''out_refund_no'', JString refundNo)]))))"

text \<open>The reply of a WeChat refund that was not accepted; \<open>definitive\<close> books it as failed.\<close>

definition wechatRefused ::
  "env \<Rightarrow> sys \<Rightarrow> refund_request \<Rightarrow> string \<Rightarrow> bool \<Rightarrow> string \<Rightarrow> world \<Rightarrow> reply option \<times> world" where
  "wechatRefused e S rq refundNo definitive message w =
     (let errJson = errorJson message
      in (Some (coded 1502 message
                  (jset ''wechat_response'' errJson (jset ''error'' (JString message)
                     (refundData rq refundNo ''amount'' (if definitive then ''REFUND_FAIL'' else ''REFUNDING'')))),
                SystemError 1502),
          if definitive then updateRefundWithError e S refundNo errJson w else w))"

definition wechatRefundProblem :: "json \<Rightarrow> string \<Rightarrow> string \<Rightarrow> (bool \<times> string) option" where
  "wechatRefundProblem result wechatStatus mappedStatus =
     (case jstr result ''code'' [] of
        None \<Rightarrow> None
      | Some code \<Rightarrow>
          let definitive = (mappedStatus \<noteq> [] \<or> code \<noteq> []);
              base = (if mappedStatus = [] then ''WeChat refund response has no usable status''
                      else ''WeChat reported refund status '' @ wechatStatus)
          in if code = [] then Some (definitive, base)
             else map_option (\<lambda>msg. (definitive, base @ '': '' @ code @ '' '' @ msg)) (jstr result ''message'' []))"

definition wechatRefundAnswer ::
  "env \<Rightarrow> sys \<Rightarrow> refund_request \<Rightarrow> string \<Rightarrow> int \<Rightarrow> json \<Rightarrow> string \<Rightarrow> world \<Rightarrow> reply option \<times> world" where
  "wechatRefundAnswer e S rq refundNo totalFen result error w =
     (if error \<noteq> []
      then wechatRefused e S rq refundNo (refundCertainlyDidNotHappen error) (''WeChat error: '' @ error) w
      else
        (case (jstr result ''status'' [], jstr result ''refund_id'' []) of
           (Some wechatStatus, Some refundId) \<Rightarrow>
             let mappedStatus = mapRefundStatus wechatStatus
             in if mappedStatus = [] \<or> mappedStatus = ''REFUND_FAIL''
                then (case wechatRefundProblem result wechatStatus mappedStatus of
                        None \<Rightarrow> (None, w)
                      | Some (definitive, message) \<Rightarrow> wechatRefused e S rq refundNo definitive message w)
                else updateRefundWithSuccess e S rq refundNo mappedStatus refundId result totalFen w
         | _ \<Rightarrow> (None, w)))"

definition askRefund ::
  "string \<Rightarrow> channel \<Rightarrow> json \<Rightarrow> (json \<Rightarrow> string \<Rightarrow> world \<Rightarrow> reply option \<times> world) \<Rightarrow> world
     \<Rightarrow> reply option \<times> world" where
  "askRefund name ch payload answer w =
     (let w1 = emit (ChannelCall name ''refund'' payload) w
      in case ch_refund ch (tick w1) payload of
           None \<Rightarrow> (None, w1)
         | Some (result, error) \<Rightarrow> answer result error w1)"

definition invokeRefundChannel ::
  "env \<Rightarrow> sys \<Rightarrow> refund_request \<Rightarrow> string \<Rightarrow> int \<Rightarrow> int \<Rightarrow> string \<Rightarrow> string \<Rightarrow> world \<Rightarrow> reply option \<times> world" where
  "invokeRefundChannel e S rq refundNo refundFen totalFen currency channel w =
     (if channel = ''alipay''
      then (case findChannel S channel of
              None \<Rightarrow>
                (Some (coded 1501 ''Alipay client not ready'' (refundData rq refundNo ''refund_amount'' ''REFUND_FAIL''),
                       SystemError 1501), w)
            | Some ch \<Rightarrow>
                askRefund channel ch (alipayRefundPayload rq) (alipayRefundAnswer e S rq refundNo totalFen) w)
      else if channel = ''wechat''
      then (case findChannel S channel of
              None \<Rightarrow>
                let message = ''wechat client not ready''
                in (Some (coded 1501 ''WeChat refund client not configured''
                            (jset ''error'' (JString message) (refundData rq refundNo ''amount'' ''REFUND_FAIL'')),
                          SystemError 1501), updateRefundWithError e S refundNo (errorJson message) w)
            | Some ch \<Rightarrow>
                askRefund channel ch (wechatRefundPayload rq refundNo refundFen totalFen currency)
                  (wechatRefundAnswer e S rq refundNo totalFen) w)
      else (Some (coded 1500 (''Unknown payment channel: '' @ channel)
                    (refundData rq refundNo ''refund_amount'' ''REFUND_FAIL''), SystemError 1500), w))"

section \<open>Booking the refund\<close>

definition refundFail :: "env \<Rightarrow> reply \<Rightarrow> world \<Rightarrow> (reply + 'a) \<times> world" where
  "refundFail e rep w = (Inl rep, end_txn e (rollback w))"

definition refundFailDb :: "env \<Rightarrow> string \<Rightarrow> world \<Rightarrow> (reply + 'a) \<times> world" where
  "refundFailDb e what = refundFail e (sys_error 1500 (''Database error: '' @ what))"

definition newRefund :: "refund_request \<Rightarrow> string \<Rightarrow> int \<Rightarrow> int \<Rightarrow> refund_row" where
  "newRefund rq refundNo now dbNow =
     \<lparr>r_refund_no = refundNo, r_order_no = rf_orderNo rq, r_payment_no = rf_paymentNo rq,
      r_status = ''REFUND_INIT'', r_amount = rf_amount rq, r_channel_refund_no = None,
      r_response_payload = None, r_created_at = now, r_updated_at = dbNow\<rparr>"

text \<open>The last steps of the transaction: the row, the channel of the order, the \<open>COMMIT\<close>.\<close>

definition commitRefund :: "env \<Rightarrow> string \<Rightarrow> world \<Rightarrow> (reply + string) \<times> world" where
  "commitRefund e orderNo w =
     (case find_one e (select_orders (\<lambda>r. o_order_no r = orderNo)) w of
        (DbErr what, w1) \<Rightarrow> refundFail e (sys_error 1404 (''Order not found: '' @ what)) w1
      | (Threw what, w1) \<Rightarrow> refundFail e (refundMapperFailure what) w1
      | (Ok order, w1) \<Rightarrow>
          (case commit_txn e w1 of
             (Some what, w2) \<Rightarrow> (Inl (sys_error 1500 (''Failed to commit refund: '' @ what)), w2)
           | (None, w2) \<Rightarrow> (Inr (o_channel order), w2)))"

definition insertRefund :: "env \<Rightarrow> refund_request \<Rightarrow> string \<Rightarrow> int \<Rightarrow> world \<Rightarrow> (reply + string) \<times> world" where
  "insertRefund e rq refundNo dbNow w =
     (case mapper e (insert_refund (newRefund rq refundNo (clock e (tick w)) dbNow)) w of
        (DbErr what, w1) \<Rightarrow> refundFailDb e what w1
      | (Threw what, w1) \<Rightarrow> refundFail e (refundMapperFailure what) w1
      | (Ok _, w1) \<Rightarrow> commitRefund e (rf_orderNo rq) w1)"

definition checkRefundSum ::
  "env \<Rightarrow> refund_request \<Rightarrow> string \<Rightarrow> int \<Rightarrow> int \<Rightarrow> int \<Rightarrow> world \<Rightarrow> (reply + string) \<times> world" where
  "checkRefundSum e rq refundNo refundFen totalFen dbNow w =
     (case exec e (reads (active_sum e (rf_orderNo rq))) w of
        (Inl what, w1) \<Rightarrow> refundFailDb e what w1
      | (Inr sumText, w1) \<Rightarrow>
          (case parseAmountToFen sumText of
             None \<Rightarrow> refundFail e (sys_error 1500 ''Invalid refund sum'') w1
           | Some refundedFen \<Rightarrow>
               if totalFen < add_int64 refundedFen refundFen
               then refundFail e (sys_error 1409 ''refund amount exceeds paid'') w1
               else insertRefund e rq refundNo dbNow w1))"

definition payment_of_order :: "string \<Rightarrow> string \<Rightarrow> payment_row \<Rightarrow> bool" where
  "payment_of_order on pn r \<longleftrightarrow> p_order_no r = on \<and> p_payment_no r = pn"

definition bookRefund ::
  "env \<Rightarrow> refund_request \<Rightarrow> string \<Rightarrow> int \<Rightarrow> int \<Rightarrow> world \<Rightarrow> (reply + string) \<times> world" where
  "bookRefund e rq refundNo refundFen totalFen w =
     (case begin_txn e w of
        None \<Rightarrow> (Inl (sys_error 1500 ''Transaction unavailable''), next_tick w)
      | Some w1 \<Rightarrow>
          (case mapper e (reads (select_payments (payment_of_order (rf_orderNo rq) (rf_paymentNo rq)))) w1 of
             (DbErr what, w2) \<Rightarrow> refundFailDb e what w2
           | (Threw what, w2) \<Rightarrow> refundFail e (refundMapperFailure what) w2
           | (Ok [], w2) \<Rightarrow> refundFail e (sys_error 1404 ''payment not found for order'') w2
           | (Ok (_ # _), w2) \<Rightarrow>
               checkRefundSum e rq refundNo refundFen totalFen (dbClock e (tick w)) w2))"

definition proceedWithInsert ::
  "env \<Rightarrow> sys \<Rightarrow> refund_request \<Rightarrow> string \<Rightarrow> int \<Rightarrow> int \<Rightarrow> string \<Rightarrow> world \<Rightarrow> reply option \<times> world" where
  "proceedWithInsert e S rq refundNo refundFen totalFen currency w =
     (case bookRefund e rq refundNo refundFen totalFen w of
        (Inl rep, w1) \<Rightarrow> (Some rep, w1)
      | (Inr channel, w1) \<Rightarrow> invokeRefundChannel e S rq refundNo refundFen totalFen currency channel w1)"

section \<open>Checks before the booking\<close>

definition proceedWithInProgressCheck ::
  "env \<Rightarrow> sys \<Rightarrow> refund_request \<Rightarrow> string \<Rightarrow> int \<Rightarrow> int \<Rightarrow> string \<Rightarrow> world \<Rightarrow> reply option \<times> world" where
  "proceedWithInProgressCheck e S rq refundNo refundFen totalFen currency w =
     (case mapper e (reads (count_in_progress (rf_orderNo rq) (rf_paymentNo rq) (rf_amount rq))) w of
        (Ok n, w1) \<Rightarrow>
          if 0 < n then (Some (sys_error 1409 ''refund already in progress''), w1)
          else proceedWithInsert e S rq refundNo refundFen totalFen currency w1
      | (DbErr what, w1) \<Rightarrow> (Some (sys_error 1500 (''Database error: '' @ what)), w1)
      | (Threw what, w1) \<Rightarrow> (Some (refundMapperFailure what), w1))"

definition alreadyRefunded :: "refund_request \<Rightarrow> refund_row \<Rightarrow> reply" where
  "alreadyRefunded rq row =
     (coded 0 ''Refund already successful''
        ((case r_channel_refund_no row of Some n \<Rightarrow> jset ''channel_refund_no'' (JString n) | None \<Rightarrow> id)
           (jobject [(''refund_no'', JString (r_refund_no row)), (''order_no'', JString (r_order_no row)),
                     (''payment_no'', JString (rf_paymentNo rq)), (''refund_amount'', JString (rf_amount rq)),
                     (''status'', JString (r_status row))])), NoError)"

definition proceedWithAmountCheck ::
  "env \<Rightarrow> sys \<Rightarrow> refund_request \<Rightarrow> string \<Rightarrow> int \<Rightarrow> int \<Rightarrow> string \<Rightarrow> world \<Rightarrow> reply option \<times> world" where
  "proceedWithAmountCheck e S rq refundNo refundFen totalFen currency w =
     (case mapper e (reads (settled_refund (rf_orderNo rq) (rf_paymentNo rq) (rf_amount rq))) w of
        (Ok (Some row), w1) \<Rightarrow> (Some (alreadyRefunded rq row), w1)
      | (Ok None, w1) \<Rightarrow> proceedWithInProgressCheck e S rq refundNo refundFen totalFen currency w1
      | (DbErr what, w1) \<Rightarrow> (Some (sys_error 1500 (''Database error: '' @ what)), w1)
      | (Threw what, w1) \<Rightarrow> (Some (refundMapperFailure what), w1))"

definition refundOrderProblem :: "refund_request \<Rightarrow> order_row \<Rightarrow> reply + (int \<times> int)" where
  "refundOrderProblem rq order =
     (if o_status order \<noteq> ''PAID'' then Inl (sys_error 1409 ''order not paid'')
      else
        (case (parseAmountToFen (rf_amount rq), parseAmountToFen (o_amount order)) of
           (Some refundFen, Some totalFen) \<Rightarrow>
             if refundFen \<le> 0 \<or> totalFen < refundFen then Inl (sys_error 1400 ''Invalid refund amount'')
             else Inr (refundFen, totalFen)
         | _ \<Rightarrow> Inl (sys_error 1400 ''Invalid amount format'')))"

definition proceedOrderFlow ::
  "env \<Rightarrow> sys \<Rightarrow> refund_request \<Rightarrow> string \<Rightarrow> world \<Rightarrow> reply option \<times> world" where
  "proceedOrderFlow e S rq refundNo w =
     (case find_one e (select_orders (\<lambda>r. o_order_no r = rf_orderNo rq)) w of
        (DbErr what, w1) \<Rightarrow> (Some (sys_error 1404 (''Order not found: '' @ what)), w1)
      | (Threw what, w1) \<Rightarrow> (Some (refundMapperFailure what), w1)
      | (Ok order, w1) \<Rightarrow>
          (case refundOrderProblem rq order of
             Inl rep \<Rightarrow> (Some rep, w1)
           | Inr (refundFen, totalFen) \<Rightarrow>
               proceedWithAmountCheck e S rq refundNo refundFen totalFen (o_currency order) w1))"

definition refundPayment :: "env \<Rightarrow> sys \<Rightarrow> refund_request \<Rightarrow> string \<Rightarrow> world \<Rightarrow> reply option \<times> world" where
  "refundPayment e S rq refundNo w =
     (case find_one e (select_payments (payment_of_order (rf_orderNo rq) (rf_paymentNo rq))) w of
        (DbErr what, w1) \<Rightarrow> (Some (sys_error 1404 (''Payment not found: '' @ what)), w1)
      | (Threw what, w1) \<Rightarrow> (Some (refundMapperFailure what), w1)
      | (Ok payment, w1) \<Rightarrow>
          if p_status payment \<noteq> ''SUCCESS'' then (Some (sys_error 1409 ''payment not successful''), w1)
          else proceedOrderFlow e S rq refundNo w1)"

definition refundProblem :: "refund_request \<Rightarrow> string option" where
  "refundProblem rq =
     (if 80 < length (rf_reason rq) then Some ''reason too long (max 80 characters)''
      else if rf_orderNo rq = [] \<or> 64 < length (rf_orderNo rq) then Some ''invalid order_no format''
      else if rf_amount rq = [] then Some ''amount cannot be empty''
      else if rf_fundsAccount rq \<noteq> [] \<and> rf_fundsAccount rq \<noteq> ''AVAILABLE'' \<and> rf_fundsAccount rq \<noteq> ''UNSETTLED''
      then Some ''invalid funds_account (must be AVAILABLE or UNSETTLED)''
      else if rf_notifyUrl rq \<noteq> [] then validateNotifyUrl (rf_notifyUrl rq)
      else None)"

text \<open>\<open>attemptsFinder\<close>: a settled attempt first, then an open one.\<close>

definition attemptsFinder ::
  "env \<Rightarrow> string \<Rightarrow> string list \<Rightarrow> (world \<Rightarrow> (reply + string) \<times> world) \<Rightarrow> world \<Rightarrow> (reply + string) \<times> world" where
  "attemptsFinder e orderNo statuses thenEmpty w =
     (case mapper e (reads (latest_attempt orderNo statuses)) w of
        (Ok None, w1) \<Rightarrow> thenEmpty w1
      | (Ok (Some payment), w1) \<Rightarrow> (Inr (p_payment_no payment), w1)
      | (DbErr what, w1) \<Rightarrow> (Inl (sys_error 1500 (''Database error: '' @ what)), w1)
      | (Threw what, w1) \<Rightarrow> (Inl (refundMapperFailure what), w1))"

definition chooseAttempt :: "env \<Rightarrow> string \<Rightarrow> world \<Rightarrow> (reply + string) \<times> world" where
  "chooseAttempt e orderNo =
     attemptsFinder e orderNo [''SUCCESS'', ''REFUNDED'']
       (attemptsFinder e orderNo [''INIT'', ''PROCESSING''] (\<lambda>w. (Inl (sys_error 1404 ''Payment not found''), w)))"

partial_function (option) proceedRefund ::
  "env \<Rightarrow> sys \<Rightarrow> refund_request \<Rightarrow> world \<Rightarrow> (reply option \<times> world) option" where
  "proceedRefund e S rq w =
     (case refundProblem rq of
        Some message \<Rightarrow> Some (Some (sys_error 1400 message), w)
      | None \<Rightarrow>
          let refundNo = (if rf_refundNo rq = [] then getUuid S (tick w) else rf_refundNo rq)
          in if rf_paymentNo rq \<noteq> [] then Some (refundPayment e S rq refundNo w)
             else (case chooseAttempt e (rf_orderNo rq) w of
                     (choice, w1) \<Rightarrow>
                       (case choice of
                          Inl rep \<Rightarrow> Some (Some rep, w1)
                        | Inr paymentNo \<Rightarrow> proceedRefund e S (rq\<lparr>rf_paymentNo := paymentNo\<rparr>) w1)))"

declare proceedRefund.simps [code]

section \<open>createRefund\<close>

definition refundRequestHash :: "sys \<Rightarrow> refund_request \<Rightarrow> string" where
  "refundRequestHash S rq =
     getSha256 S (toJsonString S (jobject
       [(''order_no'', JString (rf_orderNo rq)), (''amount'', JString (rf_amount rq)),
        (''reason'', JString (rf_reason rq))]))"

text \<open>The snapshot is stored for every reply with data, whatever its error code.\<close>

definition refundWrappedCallback ::
  "env \<Rightarrow> sys \<Rightarrow> string \<Rightarrow> string \<Rightarrow> reply \<Rightarrow> world \<Rightarrow> reply option \<times> world" where
  "refundWrappedCallback e S key hash rep w =
     (if key = [] then (Some rep, w)
      else
        (case isMember (fst rep) ''data'' of
           None \<Rightarrow> (None, w)
         | Some False \<Rightarrow> (Some rep, w)
         | Some True \<Rightarrow>
             (case updateResult e (toJsonString S) (hasRedis S) key hash (fst rep) w of
                (True, w1) \<Rightarrow> (Some rep, w1)
              | (False, w1) \<Rightarrow> (Some rep, snd (clearReservation e key hash w1)))))"

definition proceedCb :: "env \<Rightarrow> sys \<Rightarrow> string \<Rightarrow> string \<Rightarrow> reply \<Rightarrow> world \<Rightarrow> reply option \<times> world" where
  "proceedCb e S key hash rep w =
     (if key \<noteq> [] \<and> snd rep \<noteq> NoError
      then (case isMember (fst rep) ''data'' of
              None \<Rightarrow> (None, w)
            | Some True \<Rightarrow> refundWrappedCallback e S key hash rep w
            | Some False \<Rightarrow> refundWrappedCallback e S key hash rep (snd (clearReservation e key hash w)))
      else refundWrappedCallback e S key hash rep w)"

definition answerRefund ::
  "(reply \<Rightarrow> world \<Rightarrow> reply option \<times> world) \<Rightarrow> reply option \<times> world \<Rightarrow> reply option \<times> world" where
  "answerRefund callback = (\<lambda>(rep, w). case rep of None \<Rightarrow> (None, w) | Some r \<Rightarrow> callback r w)"

definition createRefund ::
  "env \<Rightarrow> sys \<Rightarrow> refund_request \<Rightarrow> string \<Rightarrow> world \<Rightarrow> (reply option \<times> world) option" where
  "createRefund e S rq key w =
     (let hash = refundRequestHash S rq
      in if key = []
         then map_option (answerRefund (refundWrappedCallback e S key hash)) (proceedRefund e S rq w)
         else
           (case checkAndSet e (parseJson S) (ttlSeconds S) key hash w of
              (None, w1) \<Rightarrow> Some (None, w1)
            | (Some (canProceed, cachedResult), w1) \<Rightarrow>
                if \<not> canProceed
                then Some (refundWrappedCallback e S key hash
                       (sys_error 1409 ''Idempotency conflict: different parameters for same key'') w1)
                else if \<not> isNull cachedResult
                then Some (refundWrappedCallback e S key hash (cachedResult, NoError) w1)
                else map_option (answerRefund (proceedCb e S key hash)) (proceedRefund e S rq w1)))"

section \<open>The refund door\<close>

text \<open>
  Statements of one transaction run in the order of their submission: the ledger lookup
  and the sum are submitted together, the ledger row after the lookup's answer, the order
  write after the sum's. The first component says whether the ledger row is still to be
  submitted.
\<close>

definition ledgerLookup ::
  "env \<Rightarrow> int \<Rightarrow> string \<Rightarrow> string \<Rightarrow> string \<Rightarrow> string \<Rightarrow> world \<Rightarrow> bool \<times> world" where
  "ledgerLookup e userId orderNo paymentNo entryType amount w =
     (if orderNo = [] \<or> entryType = [] then (False, insertRow e userId orderNo paymentNo entryType amount w)
      else
        (case mapper e (reads (find_ledger orderNo entryType (if paymentNo = [] then None else Some paymentNo))) w of
           (Ok rows, w1) \<Rightarrow> (rows = [], w1)
         | (_, w1) \<Rightarrow> (False, w1)))"

definition coverOrder :: "env \<Rightarrow> string \<Rightarrow> order_row \<Rightarrow> string \<Rightarrow> string \<Rightarrow> world \<Rightarrow> string option \<times> world" where
  "coverOrder e orderNo order refundStatus sumText w =
     (let settledFen = (case parseAmountToFen sumText of Some fen \<Rightarrow> fen | None \<Rightarrow> 0);
          orderTotalFen = (case parseAmountToFen (o_amount order) of Some fen \<Rightarrow> fen | None \<Rightarrow> 0)
      in if \<not> refundsCoverOrderAmount settledFen orderTotalFen then (Some refundStatus, w)
         else (case mapper e (refunded_order orderNo) w of
                 (Ok _, w1) \<Rightarrow> (Some refundStatus, w1)
               | (DbErr _, w1) \<Rightarrow> (Some [], rollback w1)
               | (Threw _, w1) \<Rightarrow> (None, w1)))"

definition settleRefund :: "env \<Rightarrow> refund_row \<Rightarrow> string \<Rightarrow> world \<Rightarrow> string option \<times> world" where
  "settleRefund e refund refundStatus w =
     (let on = r_order_no refund; pn = r_payment_no refund; amount = r_amount refund
      in case find_one e (select_orders (\<lambda>r. o_order_no r = on)) w of
           (Ok order, w1) \<Rightarrow>
             (case ledgerLookup e (o_user_id order) on pn ''REFUND'' amount w1 of
                (missing, w2) \<Rightarrow>
                  let book = (\<lambda>v. if missing then insertRow e (o_user_id order) on pn ''REFUND'' amount v else v)
                  in if o_status order \<noteq> ''PAID'' then (Some refundStatus, book w2)
                     else (case exec e (reads (refund_sum e on)) w2 of
                             (Inl _, w3) \<Rightarrow> (Some [], rollback w3)
                           | (Inr sumText, w3) \<Rightarrow> coverOrder e on order refundStatus sumText (book w3)))
         | (_, w1) \<Rightarrow> (Some [], rollback w1))"

definition refundTxn :: "env \<Rightarrow> sys \<Rightarrow> refund_row \<Rightarrow> string \<Rightarrow> string \<Rightarrow> json \<Rightarrow> int \<Rightarrow> world \<Rightarrow> string option \<times> world" where
  "refundTxn e S refund refundStatus refundId result now w =
     (case mapper e (set_refund_status now (r_refund_no refund) refundStatus refundId) w of
        (Ok _, w1) \<Rightarrow>
          (case mapper e (set_refund_payload now (r_refund_no refund) (toJsonString S result)) w1 of
             (Ok _, w2) \<Rightarrow>
               if refundStatus = ''REFUND_SUCCESS'' then settleRefund e refund refundStatus w2
               else (Some refundStatus, w2)
           | (_, w2) \<Rightarrow> (Some [], rollback w2))
      | (_, w1) \<Rightarrow> (Some [], rollback w1))"

definition syncRefundRow ::
  "env \<Rightarrow> sys \<Rightarrow> string \<Rightarrow> json \<Rightarrow> string \<Rightarrow> string \<Rightarrow> world \<Rightarrow> string option \<times> world" where
  "syncRefundRow e S refundNo result refundStatus refundId w =
     (case find_one e (select_refunds (\<lambda>r. r_refund_no r = refundNo)) w of
        (Ok refund, w1) \<Rightarrow>
          if r_status refund = ''REFUND_SUCCESS'' then (Some refundStatus, w1)
          else
            (case begin_txn e w1 of
               None \<Rightarrow> (None, next_tick w1)
             | Some w2 \<Rightarrow>
                 (case refundTxn e S refund refundStatus refundId result (dbClock e (tick w1)) w2 of
                    (status, w3) \<Rightarrow> (status, end_txn e w3)))
      | (_, w1) \<Rightarrow> (Some [], w1))"

definition syncRefundStatusFromWechat ::
  "env \<Rightarrow> sys \<Rightarrow> string \<Rightarrow> json \<Rightarrow> world \<Rightarrow> string option \<times> world" where
  "syncRefundStatusFromWechat e S refundNo result w =
     (case jstr result ''status'' [] of
        None \<Rightarrow> (None, w)
      | Some wechatStatus \<Rightarrow>
          if wechatStatus = [] then (Some [], w)
          else
            (case jstr result ''refund_id'' [] of
               None \<Rightarrow> (None, w)
             | Some refundId \<Rightarrow>
                 let refundStatus = mapRefundStatus wechatStatus
                 in if refundStatus = [] then (Some [], w)
                    else if \<not> hasDb S then (Some refundStatus, w)
                    else syncRefundRow e S refundNo result refundStatus refundId w))"

section \<open>queryRefund\<close>

definition refundSnapshot :: "refund_row \<Rightarrow> json" where
  "refundSnapshot r =
     jobject [(''refund_no'', JString (r_refund_no r)), (''order_no'', JString (r_order_no r)),
              (''payment_no'', JString (r_payment_no r)), (''status'', JString (r_status r)),
              (''refund_amount'', JString (r_amount r)),
              (''channel_refund_no'', JString (case r_channel_refund_no r of Some s \<Rightarrow> s | None \<Rightarrow> [])),
              (''updated_at'', JString (toRfc3339Utc (r_updated_at r)))]"

definition queryRefund :: "env \<Rightarrow> sys \<Rightarrow> string \<Rightarrow> world \<Rightarrow> reply option \<times> world" where
  "queryRefund e S refundNo w =
     (case find_one e (select_refunds (\<lambda>r. r_refund_no r = refundNo)) w of
        (DbErr what, w1) \<Rightarrow> (Some (sys_error 1404 (''Refund not found: '' @ what)), w1)
      | (Threw what, w1) \<Rightarrow> (Some (refundMapperFailure what), w1)
      | (Ok refund, w1) \<Rightarrow>
          let data = refundSnapshot refund;
              reply = (\<lambda>d. (coded 0 ''Query refund successful'' d, NoError))
          in (case findChannel S ''wechat'' of
                None \<Rightarrow> (Some (reply data), w1)
              | Some ch \<Rightarrow>
                  let w2 = emit (ChannelCall ''wechat'' ''queryRefund'' (JString refundNo)) w1
                  in (case ch_queryRefund ch (tick w2) refundNo of
                        None \<Rightarrow> (None, w2)
                      | Some (result, error) \<Rightarrow>
                          if error \<noteq> [] then (Some (reply data), w2)
                          else
                            (case syncRefundStatusFromWechat e S refundNo result w2 of
                               (None, w3) \<Rightarrow> (None, w3)
                             | (Some status, w3) \<Rightarrow>
                                 (Some (reply (jset ''wechat_response'' result
                                    (if status = [] then data else jset ''status'' (JString status) data))), w3)))))"

end
