(* ===== verification/Pay_Refund_Laws.thy ===== *)
theory Pay_Refund_Laws
  imports Pay_Refund
begin

text \<open>
  What the refund flows keep and achieve: the schema invariant, the settled rows, the bound
  of the refunds by the order's amount, the order of booking and channel call, termination
  of \<open>proceedRefund\<close>, and the ledger of a second partial refund.
\<close>

section \<open>Invariants of the create flow\<close>

text \<open>
  The interface of the create flow to the database. Its booking transaction is a unit of
  its own: it has to keep the invariant only for the requests \<open>Q\<close> that pass the checks on
  the order read before it, in the environments \<open>E\<close>.
\<close>

locale refund_inv = idem_inv +
  fixes E :: "env \<Rightarrow> bool" and Q :: "env \<Rightarrow> refund_request \<Rightarrow> int \<Rightarrow> int \<Rightarrow> bool"
  assumes fail_refund_keeps: "I t \<Longrightarrow> fail_refund now rn s t = Inr (n, t') \<Longrightarrow> I t'"
    and book_refund_keeps: "I t \<Longrightarrow> st \<in> {''REFUNDING'', ''REFUND_SUCCESS''} \<Longrightarrow>
      book_refund now rn st rid s t = Inr (n, t') \<Longrightarrow> I t'"
    and refunded_order_keeps: "I t \<Longrightarrow> refunded_order on t = Inr (n, t') \<Longrightarrow> I t'"
    and order_passes: "I t \<Longrightarrow> E e \<Longrightarrow> order \<in> set (t_orders t) \<Longrightarrow> o_order_no order = rf_orderNo rq \<Longrightarrow>
      refundOrderProblem rq order = Inr (f, tot) \<Longrightarrow> Q e rq f tot"
    and booking_keeps: "bookRefund e rq rn f tot w = (b, w') \<Longrightarrow> stable I e \<Longrightarrow> holds I w \<Longrightarrow>
      Q e rq f tot \<Longrightarrow> holds I w'"
begin

sublocale failr: stmt_inv I "fail_refund now rn s" for now rn s
  by unfold_locales (rule fail_refund_keeps)

sublocale reford: stmt_inv I "refunded_order on" for on
  by unfold_locales (rule refunded_order_keeps)

lemma error_holds: "stable I e \<Longrightarrow> holds I w \<Longrightarrow> holds I (updateRefundWithError e S rn j w)"
  by (simp add: updateRefundWithError_def failr.mapper_holds)

lemma settle_order_holds:
  assumes "settleRefundedOrder e on st tot rep w = (r, w')" "stable I e" "holds I w"
  shows "holds I w'"
  using assms
  by (auto simp: settleRefundedOrder_def writeRefundedOrder_def
      dest!: read_stmt.exec_holdsD [where I = I] reford.mapper_holdsD
      split: if_splits prod.splits sum.splits option.splits dbres.splits)

lemma success_holds:
  assumes st: "st \<in> {''REFUNDING'', ''REFUND_SUCCESS''}"
    and s: "updateRefundWithSuccess e S rq rn st rid result tot w = (r, w')" "stable I e" "holds I w"
  shows "holds I w'"
proof -
  have b: "stmt_inv I (book_refund now rn st rid s)" for now s
    by unfold_locales (rule book_refund_keeps [OF _ st])
  obtain res w1 where m: "mapper e (book_refund (dbClock e (tick w)) rn st rid (toJsonString S result)) w = (res, w1)"
    by fastforce
  from s(1,2) m stmt_inv.mapper_holdsD [OF b m s(2,3)] show ?thesis
    by (auto simp: updateRefundWithSuccess_def dest: settle_order_holds split: dbres.splits)
qed

lemma alipay_answer_holds:
  "alipayRefundAnswer e S rq rn tot result error w = (r, w') \<Longrightarrow> stable I e \<Longrightarrow> holds I w \<Longrightarrow> holds I w'"
  by (auto simp: alipayRefundAnswer_def Let_def intro: error_holds
      dest: success_holds [rotated] split: if_splits option.splits)

lemma mapped_status:
  "mapRefundStatus s \<noteq> [] \<Longrightarrow> mapRefundStatus s \<noteq> ''REFUND_FAIL'' \<Longrightarrow>
     mapRefundStatus s \<in> {''REFUNDING'', ''REFUND_SUCCESS''}"
  by (auto simp: mapRefundStatus_def split: if_splits)

lemma refused_holds:
  "wechatRefused e S rq rn d message w = (r, w') \<Longrightarrow> stable I e \<Longrightarrow> holds I w \<Longrightarrow> holds I w'"
  by (auto simp: wechatRefused_def Let_def intro: error_holds split: if_splits)

lemma wechat_answer_holds:
  "wechatRefundAnswer e S rq rn tot result error w = (r, w') \<Longrightarrow> stable I e \<Longrightarrow> holds I w \<Longrightarrow> holds I w'"
  by (auto simp: wechatRefundAnswer_def Let_def dest: refused_holds success_holds [OF mapped_status]
      split: if_splits option.splits)

lemma ask_holds:
  assumes "askRefund name ch payload answer w = (r, w')" "holds I w"
    and "\<And>result error v r v'. answer result error v = (r, v') \<Longrightarrow> holds I v \<Longrightarrow> holds I v'"
  shows "holds I w'"
  using assms by (auto simp: askRefund_def Let_def split: option.splits)

lemma invoke_holds:
  assumes "invokeRefundChannel e S rq rn f tot cur channel w = (r, w')" "stable I e" "holds I w"
  shows "holds I w'"
  using assms error_holds [OF assms(2,3)]
  by (auto simp: invokeRefundChannel_def Let_def
      elim!: ask_holds dest: alipay_answer_holds [OF _ assms(2)] wechat_answer_holds [OF _ assms(2)]
      split: if_splits option.splits)

lemma insert_flow_holds:
  assumes "proceedWithInsert e S rq rn f tot cur w = (r, w')" "stable I e" "holds I w" "Q e rq f tot"
  shows "holds I w'"
  using assms by (auto simp: proceedWithInsert_def dest: booking_keeps invoke_holds split: prod.splits sum.splits)

lemma checks_hold:
  assumes "proceedWithAmountCheck e S rq rn f tot cur w = (r, w')" "stable I e" "holds I w" "Q e rq f tot"
  shows "holds I w'"
  using assms
  by (auto simp: proceedWithAmountCheck_def proceedWithInProgressCheck_def
      dest!: read_stmt.mapper_holdsD [where I = I] dest: insert_flow_holds
      split: prod.splits dbres.splits option.splits if_splits)

lemma order_flow_holds:
  assumes "proceedOrderFlow e S rq rn w = (r, w')" "stable I e" "holds I w" "E e"
  shows "holds I w'"
proof -
  obtain res w1 where f: "find_one e (select_orders (\<lambda>r. o_order_no r = rf_orderNo rq)) w = (res, w1)" by fastforce
  have w1: "holds I w1" by (rule find_one_holdsD [OF f assms(2,3)])
  have "Q e rq g tot" if "res = Ok order" "refundOrderProblem rq order = Inr (g, tot)" for order g tot
    using order_passes [OF _ assms(4) _ _ that(2)] find_one_Ok [OF f [unfolded that(1)]] w1
    by (auto simp: select_orders_def holds_def)
  with assms(1,2) f w1 show ?thesis
    by (auto simp: proceedOrderFlow_def dest: checks_hold split: dbres.splits sum.splits)
qed

lemma payment_flow_holds:
  assumes "refundPayment e S rq rn w = (r, w')" "stable I e" "holds I w" "E e"
  shows "holds I w'"
  using assms
  by (auto simp: refundPayment_def dest!: find_one_holdsD dest: order_flow_holds
      split: prod.splits dbres.splits if_splits)

lemma choose_holds:
  "chooseAttempt e on w = (r, w') \<Longrightarrow> stable I e \<Longrightarrow> holds I w \<Longrightarrow> holds I w'"
  by (auto simp: chooseAttempt_def attemptsFinder_def dest!: read_stmt.mapper_holdsD [where I = I]
      split: prod.splits dbres.splits option.splits)

lemma proceed_holds:
  assumes "proceedRefund e S rq w = Some (r, w')" "stable I e" "E e" "holds I w"
  shows "holds I w'"
proof -
  have "stable I e \<longrightarrow> E e \<longrightarrow> holds I w \<longrightarrow> holds I (snd (r, w'))"
  proof (rule proceedRefund.raw_induct [OF _ assms(1)], intro impI)
    fix f e S rq w y
    assume ih: "\<And>e S rq w y. f e S rq w = Some y \<Longrightarrow> stable I e \<longrightarrow> E e \<longrightarrow> holds I w \<longrightarrow> holds I (snd y)"
      and body: "(case refundProblem rq of
        None \<Rightarrow> let refundNo = if rf_refundNo rq = [] then getUuid S (tick w) else rf_refundNo rq
          in if rf_paymentNo rq \<noteq> [] then Some (refundPayment e S rq refundNo w)
             else case chooseAttempt e (rf_orderNo rq) w of
                    (Inl rep, w1) \<Rightarrow> Some (Some rep, w1)
                  | (Inr paymentNo, w1) \<Rightarrow> f e S (rq\<lparr>rf_paymentNo := paymentNo\<rparr>) w1
        | Some message \<Rightarrow> Some (Some (sys_error 1400 message), w)) = Some y"
      and h: "stable I e" "E e" "holds I w"
    obtain choice w1 where c: "chooseAttempt e (rf_orderNo rq) w = (choice, w1)" by fastforce
    have w1: "holds I w1" by (rule choose_holds [OF c h(1,3)])
    have pay: "holds I (snd (refundPayment e S rq rn w))" for rn
      using payment_flow_holds [OF prod.collapse [symmetric] h(1,3,2)] .
    have rec: "holds I (snd y)" if "f e S (rq\<lparr>rf_paymentNo := pn\<rparr>) w1 = Some y" for pn
      using ih [OF that] h(1,2) w1 by blast
    show "holds I (snd y)"
    proof (cases "refundProblem rq")
      case None
      then show ?thesis using body c w1 pay rec
        by (cases choice) (auto simp: Let_def split: if_splits)
    qed (use body h(3) in auto)
  qed
  with assms show ?thesis by simp
qed

lemma wrapped_holds:
  "refundWrappedCallback e S key hash rep w = (r, w') \<Longrightarrow> stable I e \<Longrightarrow> holds I w \<Longrightarrow> holds I w'"
  by (auto simp: refundWrappedCallback_def dest: update_holds clear_holds [OF prod.collapse [symmetric]]
      split: if_splits option.splits bool.splits prod.splits)

lemma proceed_cb_holds:
  "proceedCb e S key hash rep w = (r, w') \<Longrightarrow> stable I e \<Longrightarrow> holds I w \<Longrightarrow> holds I w'"
  by (auto simp: proceedCb_def dest!: wrapped_holds intro: clear_holds [OF prod.collapse [symmetric]]
      split: if_splits option.splits bool.splits)

lemma create_holds:
  assumes "createRefund e S rq key w = Some (r, w')" "stable I e" "E e" "holds I w"
  shows "holds I w'"
  using assms
  by (auto simp: createRefund_def Let_def answerRefund_def dest!: check_set_holds
      dest: proceed_holds wrapped_holds proceed_cb_holds
      split: if_splits option.splits prod.splits)

end

section \<open>Invariants of the refund door\<close>

locale refund_door_inv =
  fixes I :: "tables \<Rightarrow> bool"
  assumes ledger_keeps: "I t \<Longrightarrow> insert_ledger r t = Inr (u, t') \<Longrightarrow> I t'"
    and status_keeps: "I t \<Longrightarrow> set_refund_status now rn st rid t = Inr (n, t') \<Longrightarrow> I t'"
    and payload_keeps: "I t \<Longrightarrow> set_refund_payload now rn s t = Inr (n, t') \<Longrightarrow> I t'"
    and cover_keeps: "I t \<Longrightarrow> refunded_order on t = Inr (n, t') \<Longrightarrow> I t'"
begin

sublocale ledg: stmt_inv I "insert_ledger r" for r
  by unfold_locales (rule ledger_keeps)

sublocale setst: stmt_inv I "set_refund_status now rn st rid" for now rn st rid
  by unfold_locales (rule status_keeps)

sublocale setpl: stmt_inv I "set_refund_payload now rn s" for now rn s
  by unfold_locales (rule payload_keeps)

sublocale cover: stmt_inv I "refunded_order on" for on
  by unfold_locales (rule cover_keeps)

lemma row_holds: "stable I e \<Longrightarrow> holds I w \<Longrightarrow> holds I (insertRow e uid on pn ty amount w)"
  by (simp add: insertRow_def ledg.mapper_holds)

lemma lookup_holds:
  "ledgerLookup e uid on pn ty amount w = (b, w') \<Longrightarrow> stable I e \<Longrightarrow> holds I w \<Longrightarrow> holds I w'"
  by (auto simp: ledgerLookup_def intro: row_holds dest!: read_stmt.mapper_holdsD [where I = I]
      split: if_splits prod.splits dbres.splits)

lemma cover_holds:
  "coverOrder e on order st s w = (r, w') \<Longrightarrow> stable I e \<Longrightarrow> holds I w \<Longrightarrow> holds I w'"
  by (auto simp: coverOrder_def Let_def intro!: holds_rollback dest!: cover.mapper_holdsD
      split: if_splits prod.splits dbres.splits)

lemma settle_refund_holds:
  assumes "settleRefund e refund st w = (r, w')" "stable I e" "holds I w"
  shows "holds I w'"
  using assms
  by (auto simp: settleRefund_def Let_def intro!: holds_rollback row_holds
      dest!: find_one_holdsD lookup_holds read_stmt.exec_holdsD [where I = I]
      dest: cover_holds [OF _ _ row_holds] cover_holds
      split: prod.splits dbres.splits if_splits sum.splits)

lemma refund_txn_holds:
  "refundTxn e S refund st rid result now w = (r, w') \<Longrightarrow> stable I e \<Longrightarrow> holds I w \<Longrightarrow> holds I w'"
  by (auto simp: refundTxn_def intro!: holds_rollback dest!: setst.mapper_holdsD setpl.mapper_holdsD
      dest: settle_refund_holds split: prod.splits dbres.splits if_splits)

lemma sync_row_holds:
  "stable I e \<Longrightarrow> holds I w \<Longrightarrow> holds I (snd (syncRefundRow e S rn result st rid w))"
  by (auto simp: syncRefundRow_def intro!: holds_end_txn dest!: find_one_holdsD holds_beginD [where I = I]
      dest: refund_txn_holds split: prod.splits dbres.splits option.splits)

lemma sync_refund_holds:
  "stable I e \<Longrightarrow> holds I w \<Longrightarrow> holds I (snd (syncRefundStatusFromWechat e S rn result w))"
  by (auto simp: syncRefundStatusFromWechat_def Let_def intro: sync_row_holds split: option.splits)

lemma query_refund_holds:
  assumes "stable I e" "holds I w"
  shows "holds I (snd (queryRefund e S rn w))"
proof -
  have "holds I w3" if "syncRefundStatusFromWechat e S rn result v = (r, w3)" "holds I v" for result v r w3
    using sync_refund_holds [OF assms(1) that(2), of S rn result] that(1) by simp
  with assms show ?thesis
    by (auto simp: queryRefund_def Let_def dest!: find_one_holdsD
        split: prod.splits dbres.splits option.splits)
qed

end

section \<open>The schema\<close>

lemma wf_update_refunds:
  assumes f: "\<And>r. r_refund_no (f r) = r_refund_no r \<and> r_order_no (f r) = r_order_no r \<and>
      r_payment_no (f r) = r_payment_no r" and wf: "wf_tables t" and u: "update_refunds P f t = Inr (a, t')"
  shows "wf_tables t'"
proof -
  have "t' = t\<lparr>t_refunds := update_where P f (t_refunds t)\<rparr>" using u by (simp add: update_refunds_def)
  with wf f show ?thesis by (simp add: wf_tables_def keyed_update_where keys_update_where)
qed

lemmas refund_stmts = fail_refund_def book_refund_def set_refund_status_def set_refund_payload_def

lemma wf_refund_stmts:
  "wf_tables t \<Longrightarrow> fail_refund now rn s t = Inr (n, t') \<Longrightarrow> wf_tables t'"
  "wf_tables t \<Longrightarrow> book_refund now rn st rid s t = Inr (n, t') \<Longrightarrow> wf_tables t'"
  "wf_tables t \<Longrightarrow> set_refund_status now rn st rid t = Inr (n, t') \<Longrightarrow> wf_tables t'"
  "wf_tables t \<Longrightarrow> set_refund_payload now rn s t = Inr (n, t') \<Longrightarrow> wf_tables t'"
  by (auto simp: refund_stmts split: if_splits elim!: wf_update_refunds [rotated])

lemma wf_refunded_order: "wf_tables t \<Longrightarrow> refunded_order on t = Inr (n, t') \<Longrightarrow> wf_tables t'"
  by (auto simp: refunded_order_def elim!: wf_update_orders [rotated])

text \<open>A booking transaction keeps what its only write keeps.\<close>

lemma commit_refund_holds:
  assumes "stable I e" "holds I w"
  shows "holds I (snd (commitRefund e on w))"
  using assms
  by (auto simp: commitRefund_def refundFail_def intro!: holds_end_txn holds_rollback
      dest!: find_one_holdsD [where I = I] dest: holds_commitD [where I = I]
      split: prod.splits dbres.splits option.splits)

lemma insert_refund_holds:
  assumes "stable I e" "holds I w" "txn_of w = InTxn s"
    and "\<And>now u t'. insert_refund (newRefund rq rn now dbNow) (tabs w) = Inr (u, t') \<Longrightarrow> I t'"
  shows "holds I (snd (insertRefund e rq rn dbNow w))"
proof -
  obtain r w1 where m: "mapper e (insert_refund (newRefund rq rn (clock e (tick w)) dbNow)) w = (r, w1)" by fastforce
  have "holds I w1" using mapper_in_txn [OF m assms(3)] assms(2,3,4)
    by (auto simp: holds_def split: dbres.splits)
  then show ?thesis using m commit_refund_holds [OF assms(1)]
    by (auto simp: insertRefund_def refundFailDb_def refundFail_def intro!: holds_end_txn holds_rollback
        split: dbres.splits)
qed

lemma check_sum_holds:
  assumes "stable I e" "holds I w" "txn_of w = InTxn s"
    and "\<And>now sm g u t'. active_sum e (rf_orderNo rq) (tabs w) = Inr sm \<Longrightarrow> parseAmountToFen sm = Some g \<Longrightarrow>
      add_int64 g f \<le> tot \<Longrightarrow> insert_refund (newRefund rq rn now dbNow) (tabs w) = Inr (u, t') \<Longrightarrow> I t'"
  shows "holds I (snd (checkRefundSum e rq rn f tot dbNow w))"
proof -
  obtain r w1 where x: "exec e (reads (active_sum e (rf_orderNo rq))) w = (r, w1)" by fastforce
  have h: "holds I w1" by (rule read_stmt.exec_holdsD [OF x assms(1,2)])
  have same: "tabs w1 = tabs w \<and> txn_of w1 = InTxn s \<and> active_sum e (rf_orderNo rq) (tabs w) = Inr sm" if "r = Inr sm" for sm
    using x that assms(3) by (auto simp: exec_def Let_def settle_others_def reads_def split: option.splits sum.splits)
  have "holds I (snd (insertRefund e rq rn dbNow w1))"
    if "r = Inr sm" "parseAmountToFen sm = Some g" "add_int64 g f \<le> tot" for sm g
    by (rule insert_refund_holds [OF assms(1) h]) (use same [OF that(1)] that assms(4) in auto)
  then show ?thesis using x h
    by (auto simp: checkRefundSum_def refundFailDb_def refundFail_def intro!: holds_end_txn holds_rollback
        split: sum.splits option.splits)
qed

lemma booking_holds_if:
  assumes b: "bookRefund e rq rn f tot w = (b, w')" "stable I e" "holds I w"
    and ins: "\<And>now dbNow sm g t u t'. I t \<Longrightarrow> active_sum e (rf_orderNo rq) t = Inr sm \<Longrightarrow>
      parseAmountToFen sm = Some g \<Longrightarrow> add_int64 g f \<le> tot \<Longrightarrow>
      insert_refund (newRefund rq rn now dbNow) t = Inr (u, t') \<Longrightarrow> I t'"
  shows "holds I w'"
proof (cases "begin_txn e w")
  case None
  with b show ?thesis by (auto simp: bookRefund_def)
next
  case (Some w1)
  let ?q = "select_payments (payment_of_order (rf_orderNo rq) (rf_paymentNo rq))"
  have w1: "holds I w1" by (rule holds_beginD [OF Some b(2,3)])
  obtain s where t: "txn_of w1 = InTxn s" using Some by (auto simp: begin_txn_def Let_def split: if_splits)
  obtain r w2 where m: "mapper e (reads ?q) w1 = (r, w2)" by fastforce
  have w2: "holds I w2" by (rule read_stmt.mapper_holdsD [OF m b(2) w1])
  have "holds I (snd (checkRefundSum e rq rn f tot now w2))" if "r = Ok rows" for rows now
    by (rule check_sum_holds [OF b(2) w2]) (use mapper_in_txn [OF m t] that w2 ins in \<open>auto simp: holds_def\<close>)
  with b(1) Some m w2 show ?thesis
    by (auto simp: bookRefund_def refundFailDb_def refundFail_def intro!: holds_end_txn holds_rollback
        split: dbres.splits list.splits) (metis snd_conv)
qed

lemma booking_holds:
  assumes "\<And>t r u t'. I t \<Longrightarrow> insert_refund r t = Inr (u, t') \<Longrightarrow> I t'"
    and "bookRefund e rq rn f tot w = (b, w')" "stable I e" "holds I w"
  shows "holds I w'"
  by (rule booking_holds_if [OF assms(2-4)]) (rule assms(1))

interpretation wf_refund: refund_inv wf_tables "\<lambda>_. True" "\<lambda>_ _ _ _. True"
proof (unfold_locales, goal_cases)
  case (5 e rq rn f tot w b w')
  show ?case by (rule booking_holds [where I = wf_tables, OF wf_insert_refund 5(1-3)])
qed (auto intro: wf_refund_stmts wf_refunded_order)

interpretation wf_refund_door: refund_door_inv wf_tables
  by unfold_locales (auto intro: wf_refund_stmts wf_refunded_order wf_insert_ledger)

text \<open>
  The refund flows keep the schema invariant. Whatever statements fail, whatever the
  channel answers and whatever the other requests write within the invariant, after
  \<open>createRefund\<close> and after \<open>queryRefund\<close> with its status refresh the keys are unique,
  refunds and callbacks belong to existing orders and payments, and no payment has two
  income entries.
\<close>

lemma refund_flows_keep_wf:
  assumes "stable wf_tables e" "holds wf_tables w"
  shows "(\<forall>rep w'. createRefund e S rq key w = Some (rep, w') \<longrightarrow> holds wf_tables w') \<and>
     holds wf_tables (snd (queryRefund e S rn w))"
  using assms wf_refund.create_holds wf_refund_door.query_refund_holds by blast

section \<open>What a refund may not change\<close>

text \<open>
  Of the given rows: refunds with a final status, orders that are not \<open>PAID\<close>, payments and
  the ledger are as they were.
\<close>

definition refund_frame ::
  "refund_row set \<Rightarrow> order_row set \<Rightarrow> payment_row list \<Rightarrow> ledger_row list \<Rightarrow> tables \<Rightarrow> bool" where
  "refund_frame rs os ps ls t \<longleftrightarrow>
     (\<forall>r \<in> rs. r_status r \<notin> {''REFUND_INIT'', ''REFUNDING''} \<longrightarrow> r \<in> set (t_refunds t)) \<and>
     (\<forall>r \<in> os. o_status r \<noteq> ''PAID'' \<longrightarrow> r \<in> set (t_orders t)) \<and>
     t_payments t = ps \<and> t_ledger t = ls"

lemmas frame_stmts = refund_frame_def refund_stmts refunded_order_def update_refunds_def update_orders_def
  open_refund_def insert_refund_def idem_stmts

interpretation frame_refund: refund_inv "refund_frame rs os ps ls" "\<lambda>_. True" "\<lambda>_ _ _ _. True" for rs os ps ls
proof (unfold_locales, goal_cases)
  case (8 e rq rn f tot w b w')
  show ?case
    by (rule booking_holds [where I = "refund_frame rs os ps ls", OF _ 8(1-3)])
      (auto simp: frame_stmts split: if_splits)
qed (auto simp: frame_stmts intro!: kept_update split: if_splits)

text \<open>
  C34: \<open>createRefund\<close> never rewrites a settled refund (\<open>REFUND_SUCCESS\<close> or \<open>REFUND_FAIL\<close>), an
  order that is not \<open>PAID\<close>, any payment or the ledger, as long as the other requests leave
  them. In particular a refund that the channel reports as done at once gets no ledger
  entry from this flow.
\<close>

theorem createRefund_frame:
  assumes "createRefund e S rq key w = Some (rep, w')" "txn_of w = NoTxn" "t0 = tabs w"
    and "stable (refund_frame (set (t_refunds t0)) (set (t_orders t0)) (t_payments t0) (t_ledger t0)) e"
  shows "refund_frame (set (t_refunds t0)) (set (t_orders t0)) (t_payments t0) (t_ledger t0) (tabs w')"
proof -
  let ?I = "refund_frame (set (t_refunds t0)) (set (t_orders t0)) (t_payments t0) (t_ledger t0)"
  have "holds ?I w" using assms(2,3) by (simp add: holds_def refund_frame_def)
  from frame_refund.create_holds [OF assms(1,4) TrueI this] show ?thesis by (simp add: holds_def)
qed

section \<open>Refunds never exceed the order\<close>

definition fen_of :: "string \<Rightarrow> int" where
  "fen_of amount = (case parseAmountToFen amount of Some fen \<Rightarrow> fen | None \<Rightarrow> 0)"

text \<open>What the refunds of an order that are not failed amount to.\<close>

definition refunded_fen :: "string \<Rightarrow> tables \<Rightarrow> int" where
  "refunded_fen on t = sum_list (map (fen_of \<circ> r_amount) (filter (active_refund on) (t_refunds t)))"

text \<open>
  The database sums readable amounts exactly and prints the sum so that it reads back;
  \<open>2 ^ 62\<close> bounds the sums for which the code's \<open>int64_t\<close> addition cannot overflow.
\<close>

definition exact_sums :: "env \<Rightarrow> bool" where
  "exact_sums e \<longleftrightarrow>
     (\<forall>xs. (\<forall>x \<in> set xs. parseAmountToFen x \<noteq> None) \<and> sum_list (map fen_of xs) < 2 ^ 62 \<longrightarrow>
        (\<exists>s. numericSum e xs = Some s \<and> parseAmountToFen s = Some (sum_list (map fen_of xs))))"

definition within_total :: "string \<Rightarrow> string \<Rightarrow> tables \<Rightarrow> bool" where
  "within_total on amount t \<longleftrightarrow>
     (\<forall>r \<in> set (t_orders t). o_order_no r = on \<longrightarrow> o_amount r = amount) \<and>
     (\<forall>r \<in> set (t_refunds t). r_order_no r = on \<longrightarrow> parseAmountToFen (r_amount r) \<noteq> None) \<and>
     refunded_fen on t \<le> fen_of amount \<and> fen_of amount < 2 ^ 62"

definition weight :: "string \<Rightarrow> refund_row \<Rightarrow> int" where
  "weight on r = (if active_refund on r then fen_of (r_amount r) else 0)"

lemma fen_of_nonneg: "0 \<le> fen_of s"
  using parse_range by (force simp: fen_of_def split: option.splits)

lemma refunded_weight: "refunded_fen on t = sum_list (map (weight on) (t_refunds t))"
  unfolding refunded_fen_def weight_def by (simp add: sum_list_map_filter' comp_def)

lemma weight_update:
  assumes "\<And>r. P r \<Longrightarrow> weight on (f r) \<le> weight on r"
  shows "sum_list (map (weight on) (update_where P f rs)) \<le> sum_list (map (weight on) rs)"
  unfolding update_where_def using assms by (induction rs) (auto intro: add_mono)

lemma within_update_refunds:
  assumes "within_total on amount t" "update_refunds P f t = Inr (n, t')"
    and "\<And>r. r_order_no (f r) = r_order_no r \<and> r_amount (f r) = r_amount r"
    and "\<And>r. P r \<Longrightarrow> weight on (f r) \<le> weight on r"
  shows "within_total on amount t'"
proof -
  have t': "t' = t\<lparr>t_refunds := update_where P f (t_refunds t)\<rparr>" using assms(2) by (simp add: update_refunds_def)
  have "refunded_fen on t' \<le> refunded_fen on t"
    using weight_update [of P on f "t_refunds t", OF assms(4)] by (simp add: refunded_weight t')
  with assms(1,3) show ?thesis by (auto simp: within_total_def t' set_update_where)
qed

lemma within_booking:
  assumes t: "within_total on amount t" and ex: "exact_sums e"
    and q: "rf_orderNo rq = on \<longrightarrow> parseAmountToFen (rf_amount rq) = Some f \<and> f \<le> tot \<and> parseAmountToFen amount = Some tot"
    and sm: "active_sum e (rf_orderNo rq) t = Inr s" "parseAmountToFen s = Some g" "add_int64 g f \<le> tot"
    and ins: "insert_refund (newRefund rq rn now dbNow) t = Inr (u, t')"
  shows "within_total on amount t'"
proof -
  let ?r = "newRefund rq rn now dbNow"
  have t': "t' = t\<lparr>t_refunds := t_refunds t @ [?r]\<rparr>" using ins by (auto simp: insert_refund_def split: if_splits)
  have w: "refunded_fen on t' = refunded_fen on t + weight on ?r" by (simp add: refunded_weight t')
  show ?thesis
  proof (cases "rf_orderNo rq = on")
    case True
    let ?xs = "map r_amount (filter (active_refund on) (t_refunds t))"
    have f: "fen_of (rf_amount rq) = f" "0 \<le> f" "f \<le> tot" "fen_of amount = tot"
      using q True fen_of_nonneg [of "rf_amount rq"] by (auto simp: fen_of_def)
    have sum: "sum_list (map fen_of ?xs) = refunded_fen on t" by (simp add: refunded_fen_def)
    have "\<forall>x \<in> set ?xs. parseAmountToFen x \<noteq> None" using t by (auto simp: within_total_def active_refund_def)
    moreover have "refunded_fen on t < 2 ^ 62" using t by (simp add: within_total_def)
    ultimately obtain s' where "numericSum e ?xs = Some s'" "parseAmountToFen s' = Some (refunded_fen on t)"
      using ex [unfolded exact_sums_def, rule_format, of ?xs] unfolding sum by blast
    with sm(1,2) True have g: "g = refunded_fen on t" by (simp add: active_sum_def)
    have "0 \<le> g" "g < 2 ^ 62" "f < 2 ^ 62"
      using t f fen_of_nonneg by (auto simp: g within_total_def refunded_weight weight_def intro!: sum_list_nonneg)
    then have "add_int64 g f = g + f" using f(2) by (simp add: add_int64_def)
    with sm(3) f g have "refunded_fen on t' \<le> fen_of amount" by (simp add: w weight_def newRefund_def)
    with t q True show ?thesis by (auto simp: within_total_def t' newRefund_def)
  next
    case False
    then have "weight on ?r = 0" by (simp add: weight_def active_refund_def newRefund_def)
    with t w False show ?thesis by (auto simp: within_total_def t' newRefund_def)
  qed
qed

lemma active_weight:
  "open_refund rn r \<Longrightarrow> weight on (r\<lparr>r_status := ''REFUND_FAIL'', r_response_payload := s, r_updated_at := now\<rparr>) \<le> weight on r"
  "open_refund rn r \<Longrightarrow> st \<in> {''REFUNDING'', ''REFUND_SUCCESS''} \<Longrightarrow>
     weight on (r\<lparr>r_status := st, r_channel_refund_no := c, r_response_payload := s, r_updated_at := now\<rparr>) \<le> weight on r"
  using fen_of_nonneg by (auto simp: weight_def active_refund_def open_refund_def)

interpretation within_refund: refund_inv "within_total on amount" exact_sums
    "\<lambda>e rq f tot. exact_sums e \<and>
       (rf_orderNo rq = on \<longrightarrow> parseAmountToFen (rf_amount rq) = Some f \<and> f \<le> tot \<and> parseAmountToFen amount = Some tot)"
  for on amount
proof (unfold_locales, goal_cases)
  case (4 t now rn s n t')
  then show ?case unfolding fail_refund_def
    by (rule within_update_refunds) (simp_all add: active_weight)
next
  case (5 t st now rn rid s n t')
  then have "update_refunds (open_refund rn) (\<lambda>r. r\<lparr>r_status := st, r_channel_refund_no := Some rid,
      r_response_payload := Some s, r_updated_at := now\<rparr>) t = Inr (n, t')"
    by (simp add: book_refund_def split: if_splits)
  from within_update_refunds [OF 5(1) this] show ?case by (simp add: active_weight(2) [OF _ 5(2)])
next
  case (7 t e order rq f tot)
  then show ?case by (auto simp: refundOrderProblem_def within_total_def split: if_splits option.splits)
next
  case (8 e rq rn f tot w b w')
  show ?case by (rule booking_holds_if [OF 8(1-3)]) (use 8(4) in \<open>blast intro: within_booking\<close>)
qed (auto simp: within_total_def idem_stmts refunded_order_def update_orders_def set_update_where refunded_fen_def
    split: if_splits)


section \<open>The row before the call\<close>

lemma error_events: "events (updateRefundWithError e S rn j w) = events w"
  using mapper_events [OF prod.collapse [symmetric]] by (simp add: updateRefundWithError_def)

lemma success_events: "updateRefundWithSuccess e S rq rn st rid result tot w = (r, w') \<Longrightarrow> events w' = events w"
  by (auto simp: updateRefundWithSuccess_def settleRefundedOrder_def writeRefundedOrder_def
      dest!: mapper_events exec_events split: prod.splits dbres.splits if_splits sum.splits option.splits)

lemma answer_events:
  "alipayRefundAnswer e S rq rn tot result error w = (r, w') \<Longrightarrow> events w' = events w"
  "wechatRefundAnswer e S rq rn tot result error w = (r, w') \<Longrightarrow> events w' = events w"
  by (auto simp: alipayRefundAnswer_def wechatRefundAnswer_def wechatRefused_def Let_def error_events
      dest: success_events split: if_splits option.splits)

lemma ask_events:
  "askRefund name ch payload answer w = (r, w') \<Longrightarrow>
     (\<And>result error v r v'. answer result error v = (r, v') \<Longrightarrow> events v' = events v) \<Longrightarrow>
     events w' = events w @ [ChannelCall name ''refund'' payload]"
  by (auto simp: askRefund_def Let_def emit_def split: option.splits)

lemma invoke_events:
  assumes "invokeRefundChannel e S rq rn f tot cur ch w = (r, w')"
  shows "events w' = events w \<or>
    (\<exists>payload \<in> {alipayRefundPayload rq, wechatRefundPayload rq rn f tot cur}.
       events w' = events w @ [ChannelCall ch ''refund'' payload])"
  using assms
  by (auto simp: invokeRefundChannel_def Let_def error_events
      dest: ask_events [OF _ answer_events(1)] ask_events [OF _ answer_events(2)] split: if_splits option.splits)

lemma commitRefund_ends:
  assumes "commitRefund e on w = (b, w')" "txn_of w = InTxn s"
  shows "txn_of w' = NoTxn \<and> events w' = events w \<and>
    (\<forall>ch. b = Inr ch \<longrightarrow> tabs w' = tabs w \<and>
       (\<exists>order \<in> set (t_orders (tabs w)). o_order_no order = on \<and> o_channel order = ch))"
proof -
  let ?q = "select_orders (\<lambda>r. o_order_no r = on)"
  obtain r w1 where m: "mapper e (reads ?q) w = (r, w1)" by fastforce
  note in_txn = mapper_in_txn [OF m assms(2)]
  have undone: "tabs (end_txn e (rollback w1)) = s \<and> txn_of (end_txn e (rollback w1)) = NoTxn \<and>
      events (end_txn e (rollback w1)) = events w"
    using end_rollback [of w1 s e] in_txn by (auto split: dbres.splits)
  have commit: "txn_of v = NoTxn \<and> events v = events w \<and> (c = None \<longrightarrow> tabs v = tabs w)"
    if "commit_txn e w1 = (c, v)" "r = Ok rows" for c v rows
    using commit_in_txn [OF that(1), of s] in_txn that(2) by (auto simp: reads_def select_orders_def)
  have rows: "\<forall>x \<in> set rows. x \<in> set (t_orders (tabs w)) \<and> o_order_no x = on" if "r = Ok rows" for rows
    using in_txn that by (auto simp: reads_def select_orders_def)
  show ?thesis using assms(1) m undone commit rows
    by (auto simp: commitRefund_def find_one_def refundFail_def
        split: dbres.splits list.splits prod.splits option.splits)
qed

text \<open>How the transaction ends: closed and silent, and with the row if it names a channel.\<close>

definition refund_booked :: "refund_request \<Rightarrow> string \<Rightarrow> tables \<Rightarrow> string \<Rightarrow> tables \<Rightarrow> bool" where
  "refund_booked rq rn t ch t' \<longleftrightarrow>
     (\<exists>now dbNow. t' = t\<lparr>t_refunds := t_refunds t @ [newRefund rq rn now dbNow]\<rparr>) \<and>
     (\<exists>order \<in> set (t_orders t). o_order_no order = rf_orderNo rq \<and> o_channel order = ch)"

lemma insertRefund_ends:
  assumes "insertRefund e rq rn dbNow w = (b, w')" "txn_of w = InTxn s"
  shows "txn_of w' = NoTxn \<and> events w' = events w \<and> (\<forall>ch. b = Inr ch \<longrightarrow> refund_booked rq rn (tabs w) ch (tabs w'))"
proof -
  obtain r w1 where m: "mapper e (insert_refund (newRefund rq rn (clock e (tick w)) dbNow)) w = (r, w1)" by fastforce
  note in_txn = mapper_in_txn [OF m assms(2)]
  show ?thesis
  proof (cases r)
    case (Ok u)
    then have c: "commitRefund e (rf_orderNo rq) w1 = (b, w')" using assms(1) m by (simp add: insertRefund_def)
    have t: "txn_of w1 = InTxn s" "tabs w1 = (tabs w)\<lparr>t_refunds := t_refunds (tabs w) @ [newRefund rq rn (clock e (tick w)) dbNow]\<rparr>"
      using in_txn Ok by (auto simp: insert_refund_def split: if_splits)
    from commitRefund_ends [OF c t(1)] t(2) in_txn show ?thesis by (auto simp: refund_booked_def)
  next
    case (DbErr x)
    then show ?thesis using assms(1) m in_txn end_rollback [of w1 s e]
      by (auto simp: insertRefund_def refundFailDb_def refundFail_def)
  next
    case (Threw x)
    then show ?thesis using assms(1) m in_txn end_rollback [of w1 s e]
      by (auto simp: insertRefund_def refundFail_def)
  qed
qed

lemma checkRefundSum_ends:
  assumes "checkRefundSum e rq rn f tot dbNow w = (b, w')" "txn_of w = InTxn s"
  shows "txn_of w' = NoTxn \<and> events w' = events w \<and> (\<forall>ch. b = Inr ch \<longrightarrow> refund_booked rq rn (tabs w) ch (tabs w'))"
proof -
  obtain r w1 where x: "exec e (reads (active_sum e (rf_orderNo rq))) w = (r, w1)" by fastforce
  have ev: "events w1 = events w" by (rule exec_events [OF x])
  have ok: "tabs w1 = tabs w \<and> txn_of w1 = InTxn s" if "r = Inr sm" for sm
    using x that assms(2) by (auto simp: exec_def Let_def settle_others_def reads_def split: option.splits sum.splits)
  have bad: "txn_of w1 = Aborted \<and> tabs w1 = s" if "r = Inl m" for m using exec_in_txn [OF x assms(2)] that by simp
  have undone: "txn_of (end_txn e (rollback w1)) = NoTxn \<and> events (end_txn e (rollback w1)) = events w"
    using end_rollback [of w1 s e] ev ok bad by (cases r) auto
  show ?thesis using assms(1) x ev ok undone insertRefund_ends [of e rq rn dbNow w1 b w' s]
    by (auto simp: checkRefundSum_def refundFailDb_def refundFail_def split: sum.splits option.splits if_splits)
qed

lemma bookRefund_ends:
  assumes "bookRefund e rq rn f tot w = (b, w')" "txn_of w = NoTxn"
  shows "events w' = events w \<and> (\<forall>ch. b = Inr ch \<longrightarrow> txn_of w' = NoTxn \<and>
    refund_booked rq rn (others e (tick w) (tabs w)) ch (tabs w') \<and>
    (\<exists>p \<in> set (t_payments (others e (tick w) (tabs w))). payment_of_order (rf_orderNo rq) (rf_paymentNo rq) p))"
proof (cases "begin_txn e w")
  case None
  with assms show ?thesis by (auto simp: bookRefund_def)
next
  case (Some w1)
  let ?q = "select_payments (payment_of_order (rf_orderNo rq) (rf_paymentNo rq))" and ?t = "others e (tick w) (tabs w)"
  note w1 = begin_txn_opens [OF Some assms(2)]
  obtain r w2 where m: "mapper e (reads ?q) w1 = (r, w2)" by fastforce
  note in_txn = mapper_in_txn [OF m conjunct1 [OF w1]]
  have ok: "txn_of w2 = InTxn ?t \<and> tabs w2 = ?t \<and> rows = filter (payment_of_order (rf_orderNo rq) (rf_paymentNo rq)) (t_payments ?t)"
    if "r = Ok rows" for rows using in_txn that w1 by (auto simp: reads_def select_payments_def)
  have ev: "events w2 = events w" using in_txn w1 by simp
  have undone: "events (end_txn e (rollback w2)) = events w"
    using end_rollback [of w2 ?t e] in_txn w1 by (auto split: dbres.splits)
  show ?thesis
  proof (cases "\<exists>p ps. r = Ok (p # ps)")
    case True
    then obtain p ps where r: "r = Ok (p # ps)" by blast
    have "p \<in> set (filter (payment_of_order (rf_orderNo rq) (rf_paymentNo rq)) (t_payments ?t))"
      using ok [OF r] by (metis list.set_intros(1))
    then have p: "\<exists>p \<in> set (t_payments ?t). payment_of_order (rf_orderNo rq) (rf_paymentNo rq) p" by auto
    have c: "checkRefundSum e rq rn f tot (dbClock e (tick w)) w2 = (b, w')"
      using assms(1) Some m r by (simp add: bookRefund_def)
    have "txn_of w2 = InTxn ?t" "tabs w2 = ?t" using ok [OF r] by blast+
    with checkRefundSum_ends [OF c, of ?t] p ev show ?thesis by simp
  next
    case False
    with assms(1) Some m undone show ?thesis
      by (auto simp: bookRefund_def refundFailDb_def refundFail_def split: dbres.splits list.splits)
  qed
qed

text \<open>
  The refund row is committed before the channel is asked. Whatever fails and whatever
  the other requests do, a run of \<open>proceedWithInsert\<close> either makes no channel call or makes
  exactly one refund call, to the channel of the order, and then the booking transaction
  has ended with the row in \<open>REFUND_INIT\<close> appended, in tables that hold the payment.
\<close>

lemma refund_booked_before_channel:
  assumes "proceedWithInsert e S rq rn f tot cur w = (rep, w')" "txn_of w = NoTxn" "events w' \<noteq> events w"
  shows "\<exists>ch w1 payload. let t = others e (tick w) (tabs w) in
     bookRefund e rq rn f tot w = (Inr ch, w1) \<and> txn_of w1 = NoTxn \<and> refund_booked rq rn t ch (tabs w1) \<and>
     (\<exists>p \<in> set (t_payments t). payment_of_order (rf_orderNo rq) (rf_paymentNo rq) p) \<and>
     payload \<in> {alipayRefundPayload rq, wechatRefundPayload rq rn f tot cur} \<and>
     events w' = events w @ [ChannelCall ch ''refund'' payload]"
proof -
  obtain b w1 where b: "bookRefund e rq rn f tot w = (b, w1)" by fastforce
  note ends = bookRefund_ends [OF b assms(2)]
  from assms(1,3) b ends obtain ch where ch: "b = Inr ch"
    "invokeRefundChannel e S rq rn f tot cur ch w1 = (rep, w')"
    by (auto simp: proceedWithInsert_def split: sum.splits)
  from invoke_events [OF ch(2)] assms(3) ends obtain payload where
    "payload \<in> {alipayRefundPayload rq, wechatRefundPayload rq rn f tot cur}"
    "events w' = events w @ [ChannelCall ch ''refund'' payload]" by auto
  with b ch(1) ends show ?thesis unfolding Let_def by blast
qed

section \<open>Termination\<close>

text \<open>
  \<open>proceedRefund\<close> restarts with the payment it has chosen. It ends because the chosen payment
  has a number; every number the services issue starts with \<open>PAY\<close>.
\<close>

definition payments_named :: "tables \<Rightarrow> bool" where
  "payments_named t \<longleftrightarrow> (\<forall>p \<in> set (t_payments t). p_payment_no p \<noteq> [])"

interpretation named_idem: idem_inv payments_named
  by unfold_locales (auto simp: payments_named_def idem_stmts split: if_splits)

lemma latest_named:
  assumes "mapper e (reads (latest_attempt on sts)) w = (Ok (Some p), w')" "stable payments_named e" "holds payments_named w"
  shows "p_payment_no p \<noteq> []"
proof -
  have "holds payments_named w'" by (rule read_stmt.mapper_holdsD [OF assms])
  moreover have "latest_attempt on sts (tabs w') = Inr (Some p)" using assms(1)
    by (auto simp: mapper_def exec_def Let_def reads_def split: option.splits prod.splits if_splits sum.splits)
  ultimately show ?thesis
    using latest_by_in by (fastforce simp: latest_attempt_def holds_def payments_named_def)
qed

lemma proceedRefund_returns:
  assumes "stable payments_named e" "holds payments_named w"
  shows "\<exists>r. proceedRefund e S rq w = Some r"
proof -
  have direct: "\<exists>r. proceedRefund e S rq' v = Some r" if "rf_paymentNo rq' \<noteq> []" for rq' v
    using that by (subst proceedRefund.simps) (simp add: Let_def split: option.splits)
  have "p \<noteq> []" if "chooseAttempt e on w = (Inr p, w1)" for on p w1
    using that
    by (auto simp: chooseAttempt_def attemptsFinder_def split: prod.splits dbres.splits option.splits
        dest: latest_named [OF _ assms] latest_named [OF _ assms(1) read_stmt.mapper_holdsD [OF _ assms]])
  then show ?thesis using direct
    by (subst proceedRefund.simps) (auto simp: Let_def split: option.splits prod.splits sum.splits)
qed

text \<open>
  C37: \<open>createRefund\<close> always ends. If every payment in the database has a number that is not
  empty and the other requests keep this, every run of \<open>createRefund\<close> returns, whatever
  fails: the self-call of \<open>proceedRefund\<close> happens at most once.
\<close>

theorem createRefund_returns:
  assumes "stable payments_named e" "holds payments_named w"
  shows "\<exists>r. createRefund e S rq key w = Some r"
proof -
  have "\<exists>r. proceedRefund e S rq w1 = Some r"
    if "checkAndSet e (parseJson S) (ttlSeconds S) key h w = (c, w1)" for h c w1
    using proceedRefund_returns [OF assms(1)] named_idem.check_set_holds [OF that assms] by blast
  note checked = this
  obtain c w1 where k: "checkAndSet e (parseJson S) (ttlSeconds S) key (refundRequestHash S rq) w = (c, w1)" by fastforce
  show ?thesis using proceedRefund_returns [OF assms, of S rq] checked [OF k] k
    by (cases c) (auto simp: createRefund_def Let_def)
qed

section \<open>The ledger of partial refunds\<close>

text \<open>The tables after the two writes on the refund row.\<close>

definition refund_set :: "int \<Rightarrow> string \<Rightarrow> string \<Rightarrow> string \<Rightarrow> string \<Rightarrow> tables \<Rightarrow> tables" where
  "refund_set now rn st rid payload t =
     t\<lparr>t_refunds := update_where (\<lambda>r. r_refund_no r = rn)
        (\<lambda>r. r\<lparr>r_status := st, r_channel_refund_no := Some rid, r_response_payload := Some payload, r_updated_at := now\<rparr>)
        (t_refunds t)\<rparr>"

lemma quiet_refund_writes:
  assumes "quiet e" "txn_of w = InTxn s" "fits 64 rid"
  shows "\<exists>w'. refundTxn e S refund st rid result now w =
      (if st = ''REFUND_SUCCESS'' then settleRefund e refund st w' else (Some st, w')) \<and>
    txn_of w' = InTxn s \<and> events w' = events w \<and>
    tabs w' = refund_set now (r_refund_no refund) st rid (toJsonString S result) (tabs w)"
proof -
  let ?P = "\<lambda>r. r_refund_no r = r_refund_no refund" and ?rs = "t_refunds (tabs w)"
  let ?rs1 = "update_where ?P (\<lambda>r. r\<lparr>r_status := st, r_channel_refund_no := Some rid, r_updated_at := now\<rparr>) ?rs"
  let ?rs2 = "update_where ?P (\<lambda>r. r\<lparr>r_response_payload := Some (toJsonString S result), r_updated_at := now\<rparr>) ?rs1"
  obtain w1 where w1: "mapper e (set_refund_status now (r_refund_no refund) st rid) w = (Ok (length (filter ?P ?rs)), w1)"
    "tabs w1 = (tabs w)\<lparr>t_refunds := ?rs1\<rparr>" "txn_of w1 = InTxn s" "events w1 = events w"
    using quiet_mapper_runs [OF assms(1), of w "set_refund_status now (r_refund_no refund) st rid"] assms(2,3)
    by (auto simp: set_refund_status_def update_refunds_def)
  obtain w2 where w2: "mapper e (set_refund_payload now (r_refund_no refund) (toJsonString S result)) w1 =
      (Ok (length (filter ?P ?rs1)), w2)" "tabs w2 = (tabs w)\<lparr>t_refunds := ?rs2\<rparr>" "txn_of w2 = InTxn s"
    "events w2 = events w1"
    using quiet_mapper_runs [OF assms(1), of w1 "set_refund_payload now (r_refund_no refund) (toJsonString S result)"] w1(2,3)
    by (auto simp: set_refund_payload_def update_refunds_def)
  have "tabs w2 = refund_set now (r_refund_no refund) st rid (toJsonString S result) (tabs w)"
    by (simp add: w2(2) refund_set_def update_where_def)
  with w1 w2 show ?thesis by (intro exI [of _ w2]) (simp add: refundTxn_def)
qed

text \<open>Settling a refund of a payment whose refund the ledger already knows.\<close>

lemma quiet_settle_known:
  assumes "quiet e" "txn_of w = InTxn s" "wf_tables s"
    and "t_orders (tabs w) = t_orders s" "t_ledger (tabs w) = t_ledger s" "refund \<in> set (t_refunds s)"
    and "r_order_no refund \<noteq> []" "r_payment_no refund \<noteq> []"
    and l: "l \<in> set (t_ledger s)" "l_order_no l = r_order_no refund" "l_entry_type l = ''REFUND''"
      "l_payment_no l = Some (r_payment_no refund)"
    and sums: "\<And>xs. numericSum e xs \<noteq> None"
  shows "\<exists>w'. settleRefund e refund st w = (Some st, w') \<and> txn_of w' = InTxn s \<and>
    t_refunds (tabs w') = t_refunds (tabs w) \<and> t_ledger (tabs w') = t_ledger s"
proof -
  let ?on = "r_order_no refund" and ?w1 = "next_tick w"
  have "?on \<in> o_order_no ` set (t_orders s)" using assms(3,6) by (auto simp: wf_tables_def)
  then obtain order where order: "order \<in> set (t_orders s)" "o_order_no order = ?on" by auto
  have f: "find_one e (select_orders (\<lambda>r. o_order_no r = ?on)) w = (Ok order, ?w1)"
    using assms(1-4) order keyed_filter_key [of o_order_no "t_orders s" order]
    by (intro quiet_find_one) (simp_all add: select_orders_def wf_tables_def)
  let ?rows = "take 1 (filter (\<lambda>r. l_order_no r = ?on \<and> l_entry_type r = ''REFUND'' \<and>
      l_payment_no r = Some (r_payment_no refund)) (t_ledger s))"
  have rows: "?rows \<noteq> []" using l by (auto simp: filter_empty_conv)
  have "mapper e (reads (find_ledger ?on ''REFUND'' (Some (r_payment_no refund)))) ?w1 = (Ok ?rows, next_tick ?w1)"
    using assms(1,2,5) by (intro quiet_read) (simp_all add: find_ledger_def)
  then have lk: "ledgerLookup e (o_user_id order) ?on (r_payment_no refund) ''REFUND'' (r_amount refund) ?w1 = (False, next_tick ?w1)"
    using assms(7,8) rows by (simp add: ledgerLookup_def)
  obtain sm where "refund_sum e ?on (tabs w) = Inr sm"
    using sums [of "settled_refunds ?on (tabs w)"] by (auto simp: refund_sum_def)
  then have x: "exec e (reads (refund_sum e ?on)) (next_tick ?w1) = (Inr sm, next_tick (next_tick ?w1))"
    using assms(1,2) by (intro quiet_exec_read) simp_all
  have cover: "\<exists>w'. coverOrder e ?on order st sm v = (Some st, w') \<and> txn_of w' = txn_of v \<and>
      t_refunds (tabs w') = t_refunds (tabs v) \<and> t_ledger (tabs w') = t_ledger (tabs v)" if "txn_of v \<noteq> Aborted" for v
    using quiet_mapper [OF assms(1) that, of "refunded_order ?on"]
    by (auto simp: coverOrder_def Let_def refunded_order_def update_orders_def)
  show ?thesis using f lk x cover [of "next_tick (next_tick ?w1)"] assms(2,5)
    by (auto simp: settleRefund_def Let_def)
qed

text \<open>
  C38: the ledger keeps only the first of several partial refunds of a payment. The refund
  door settles a refund, but if the ledger already holds a \<open>REFUND\<close> entry of the same order
  and payment, from an earlier partial refund, the new amount is not entered: the refund
  row becomes \<open>REFUND_SUCCESS\<close> and the ledger stays as it was.
\<close>

theorem second_refund_not_in_ledger:
  assumes "quiet e" "txn_of w = NoTxn" "wf_tables (tabs w)" "hasDb S"
    and refund: "refund \<in> set (t_refunds (tabs w))" "r_status refund \<noteq> ''REFUND_SUCCESS''"
      "r_order_no refund \<noteq> []" "r_payment_no refund \<noteq> []"
    and entry: "l \<in> set (t_ledger (tabs w))" "l_order_no l = r_order_no refund" "l_entry_type l = ''REFUND''"
      "l_payment_no l = Some (r_payment_no refund)"
    and answer: "jstr result ''status'' [] = Some ''SUCCESS''" "jstr result ''refund_id'' [] = Some rid" "fits 64 rid"
    and sums: "\<And>xs. numericSum e xs \<noteq> None"
  shows "\<exists>w'. syncRefundStatusFromWechat e S (r_refund_no refund) result w = (Some ''REFUND_SUCCESS'', w') \<and>
     (\<exists>r \<in> set (t_refunds (tabs w')). r_refund_no r = r_refund_no refund \<and> r_amount r = r_amount refund \<and>
        r_status r = ''REFUND_SUCCESS'') \<and>
     t_ledger (tabs w') = t_ledger (tabs w)"
proof -
  let ?st = "''REFUND_SUCCESS''" and ?on = "r_order_no refund" and ?pn = "r_payment_no refund"
  let ?w1 = "next_tick w" and ?now = "dbClock e (Suc (tick w))"
  have map: "mapRefundStatus ''SUCCESS'' = ?st" by (simp add: mapRefundStatus_def)
  have f: "find_one e (select_refunds (\<lambda>r. r_refund_no r = r_refund_no refund)) w = (Ok refund, ?w1)"
    using assms(1-3) refund(1)
    by (intro quiet_find_one) (simp_all add: select_refunds_def wf_tables_def keyed_filter_key)
  let ?w2 = "(next_tick ?w1)\<lparr>txn_of := InTxn (tabs w)\<rparr>"
  have b: "begin_txn e ?w1 = Some ?w2" using quiet_begin [OF assms(1), of ?w1] assms(2) by simp
  from quiet_refund_writes [OF assms(1), of ?w2 "tabs w" rid S refund ?st result ?now] answer(3)
  obtain w3 where w3: "refundTxn e S refund ?st rid result ?now ?w2 = settleRefund e refund ?st w3"
    "txn_of w3 = InTxn (tabs w)"
    "tabs w3 = refund_set ?now (r_refund_no refund) ?st rid (toJsonString S result) (tabs w)" by auto
  obtain w4 where w4: "settleRefund e refund ?st w3 = (Some ?st, w4)" "txn_of w4 = InTxn (tabs w)"
    "t_refunds (tabs w4) = t_refunds (tabs w3)" "t_ledger (tabs w4) = t_ledger (tabs w)"
    using quiet_settle_known [OF assms(1) w3(2), of refund l ?st] assms(3) refund entry sums
    by (auto simp: w3(3) refund_set_def)
  have "refund\<lparr>r_status := ?st, r_channel_refund_no := Some rid, r_response_payload := Some (toJsonString S result),
      r_updated_at := ?now\<rparr> \<in> set (t_refunds (tabs w4))"
    using refund(1) by (force simp: w4(3) w3(3) refund_set_def set_update_where)
  then have "\<exists>r \<in> set (t_refunds (tabs w4)). r_refund_no r = r_refund_no refund \<and> r_amount r = r_amount refund \<and>
      r_status r = ?st"
    by (rule rev_bexI) simp
  moreover have "syncRefundStatusFromWechat e S (r_refund_no refund) result w = (Some ?st, end_txn e w4)"
    using answer(1,2) assms(4) refund(2) f b w3(1) w4(1)
    by (simp add: syncRefundStatusFromWechat_def syncRefundRow_def map Let_def next_tick_def)
  ultimately show ?thesis using quiet_end [OF assms(1) w4(2)] w4(4)
    by (intro exI [of _ "end_txn e w4"]) simp
qed

section \<open>Concrete runs\<close>

text \<open>
  An order of ten yuan with a settled refund of four and one of three under way, an
  environment that sums as the database does, and a channel that accepts refunds.
\<close>

definition refund_tables :: tables where
  "refund_tables = no_rows\<lparr>
     t_orders := [paying_order\<lparr>o_amount := ''10.00'', o_status := ''PAID''\<rparr>],
     t_payments := [open_payment\<lparr>p_amount := ''10.00'', p_status := ''SUCCESS''\<rparr>],
     t_refunds :=
       [\<lparr>r_refund_no = ''R1'', r_order_no = ''ORD-000001'', r_payment_no = ''P1'', r_status = ''REFUND_SUCCESS'',
         r_amount = ''4.00'', r_channel_refund_no = Some ''W1'', r_response_payload = None, r_created_at = 0,
         r_updated_at = 0\<rparr>,
        \<lparr>r_refund_no = ''R2'', r_order_no = ''ORD-000001'', r_payment_no = ''P1'', r_status = ''REFUNDING'',
         r_amount = ''3.00'', r_channel_refund_no = None, r_response_payload = None, r_created_at = 0,
         r_updated_at = 0\<rparr>],
     t_ledger := [\<lparr>l_user_id = 7, l_order_no = ''ORD-000001'', l_payment_no = Some ''P1'', l_entry_type = ''REFUND'',
         l_amount = ''4.00'', l_created_at = 0\<rparr>]\<rparr>"

definition summing :: env where
  "summing = calm\<lparr>numericSum := \<lambda>xs. Some (yuanString (sum_list (map fen_of xs)))\<rparr>"

definition accepted :: json where
  "accepted = JObject [(''refund_id'', JString ''W3''), (''status'', JString ''PROCESSING'')]"

definition refund_sys :: sys where
  "refund_sys = plain_sys\<lparr>findChannel := \<lambda>_. Some (silent_channel\<lparr>ch_refund := \<lambda>_ _. Some (accepted, [])\<rparr>)\<rparr>"

definition sample_refund :: refund_request where
  "sample_refund = \<lparr>rf_orderNo = ''ORD-000001'', rf_paymentNo = [], rf_refundNo = ''R3'', rf_amount = ''3.0'',
     rf_reason = [], rf_notifyUrl = [], rf_fundsAccount = []\<rparr>"

definition refund_run :: "reply option \<times> world" where
  "refund_run = the (createRefund summing refund_sys sample_refund ''k'' (fresh refund_tables))"

lemma refund_runs:
  "createRefund summing refund_sys sample_refund ''k'' (fresh refund_tables) = Some (fst refund_run, snd refund_run)"
proof -
  have "createRefund summing refund_sys sample_refund ''k'' (fresh refund_tables) \<noteq> None" by code_simp
  then show ?thesis by (auto simp: refund_run_def)
qed

lemma summing_facts [simp]: "quiet summing" "others summing = (\<lambda>_ t. t)" "stable I summing"
  by (simp_all add: summing_def quiet_def calm_def stable_def)

lemma exact_summing: "exact_sums summing"
proof -
  have "parseAmountToFen (yuanString (sum_list (map fen_of xs))) = Some (sum_list (map fen_of xs))"
    if "sum_list (map fen_of xs) < 2 ^ 62" for xs
    using that sum_list_nonneg [of "map fen_of xs"] fen_of_nonneg by (intro yuanString_parses) auto
  then show ?thesis by (simp add: exact_sums_def summing_def)
qed

lemma refund_tables_wf: "wf_tables refund_tables"
  by (simp add: wf_tables_def refund_tables_def no_rows_def keyed_def paying_order_def open_payment_def income_of_def)

lemma fresh_holds [simp]: "holds I (fresh t) = I t"
  by (simp add: holds_def)

theorem createRefund_frame_witness:
  "refund_frame (set (t_refunds refund_tables)) (set (t_orders refund_tables)) (t_payments refund_tables)
     (t_ledger refund_tables) (tabs (snd refund_run)) \<and> length (t_refunds (tabs (snd refund_run))) = 3"
proof -
  have "length (t_refunds (tabs (snd refund_run))) = 3" by code_simp
  then show ?thesis using createRefund_frame [OF refund_runs, of refund_tables] by simp
qed


theorem createRefund_returns_witness:
  "\<exists>r. createRefund summing refund_sys sample_refund ''k'' (fresh refund_tables) = Some r"
  by (rule createRefund_returns) (simp_all add: payments_named_def refund_tables_def open_payment_def)

theorem second_refund_not_in_ledger_witness:
  "\<exists>w'. syncRefundStatusFromWechat summing refund_sys ''R2'' (JObject [(''status'', JString ''SUCCESS'')])
       (fresh refund_tables) = (Some ''REFUND_SUCCESS'', w') \<and>
     (\<exists>r \<in> set (t_refunds (tabs w')). r_refund_no r = ''R2'' \<and> r_amount r = ''3.00'' \<and> r_status r = ''REFUND_SUCCESS'') \<and>
     t_ledger (tabs w') = t_ledger refund_tables"
proof -
  let ?r = "t_refunds refund_tables ! 1" and ?l = "t_ledger refund_tables ! 0"
  have "hasDb refund_sys" "fits 64 []" by (simp_all add: refund_sys_def plain_sys_def fits_def utf8CodePointLength_def)
  then show ?thesis
    using second_refund_not_in_ledger [where refund = ?r and l = ?l and e = summing and w = "fresh refund_tables"
        and S = refund_sys and result = "JObject [(''status'', JString ''SUCCESS'')]" and rid = "[]"]
    by (simp add: refund_tables_wf) (simp add: refund_tables_def summing_def jstr_def)
qed

end
