(* ===== verification/Pay_Callback.thy ===== *)
theory Pay_Callback
  imports Pay_Sync Pay_Refund
begin

text \<open>
  \<open>services/CallbackService.cc\<close>: the WeChat notifications of payments and refunds. A handler
  checks the delivery (signature, age, envelope, decryption, merchant), takes the nonce,
  reserves the notification's id with a token of its own, settles in a transaction, and
  answers the channel. A handler is a function from a world to the replies it hands to its
  callback and the world after it: none when an accessor throws or a null transaction is
  dereferenced, and possibly more than one.

  The WeChat client (signature check, decryption, merchant ids), MD5 and the answer of the
  Redis \<open>SET .. NX\<close> are parameters.
\<close>

section \<open>Outside code and replies\<close>

record wechat_client =
  verifyCallback :: "string \<Rightarrow> string \<Rightarrow> string \<Rightarrow> string \<Rightarrow> string \<Rightarrow> bool"
  decryptResource :: "string \<Rightarrow> string \<Rightarrow> string \<Rightarrow> string + string"
  getAppId :: string
  getMchId :: string

text \<open>
  The answer to \<open>SET key 1 NX EX 360\<close> at a moment: \<open>Some True\<close> for nil, \<open>Some False\<close> for any
  other result, \<open>None\<close> for a \<open>RedisException\<close>.
\<close>

record callback_sys =
  wechatClient :: "wechat_client option"
  redisSetNx :: "(nat \<Rightarrow> string \<Rightarrow> bool option) option"
  getMd5 :: "string \<Rightarrow> string"

record delivery =
  d_body :: string
  d_signature :: string
  d_timestamp :: string
  d_nonce :: string
  d_serialNo :: string

definition failed :: "string \<Rightarrow> ecode \<Rightarrow> reply" where
  "failed message error = (jobject [(''code'', JString ''FAIL''), (''message'', JString message)], error)"

definition okReply :: reply where
  "okReply = (jobject [(''code'', JString ''SUCCESS''), (''message'', JString ''OK'')], NoError)"

definition refuse :: "string \<Rightarrow> reply" where
  "refuse message = failed message (SystemError 1400)"

definition internal :: "string \<Rightarrow> reply" where
  "internal cause = failed ''internal error'' (PayError 1400 cause)"

definition callbackMapperFailure :: reply where
  "callbackMapperFailure = internal ''db mapper unavailable''"

definition stillInProgress :: reply where
  "stillInProgress = failed ''callback still in progress'' (PayError 1400 ''callback still in progress'')"

text \<open>The lambda \<open>respond\<close>: an empty error text hands the result on as a success.\<close>

definition respond :: "json \<Rightarrow> string \<Rightarrow> reply" where
  "respond result errorMsg = (if errorMsg \<noteq> [] then refuse errorMsg else (result, NoError))"

section \<open>Freshness and replay\<close>

definition is_space :: "char \<Rightarrow> bool" where
  "is_space c \<longleftrightarrow> c = CHR '' '' \<or> byte c \<in> {9..13}"

text \<open>\<open>std::stoll\<close>: leading space, a sign, the longest run of digits; \<open>None\<close> when it throws.\<close>

definition stoll :: "string \<Rightarrow> int option" where
  "stoll s =
     (let s1 = dropWhile is_space s;
          neg = (take 1 s1 = ''-'');
          s2 = (if take 1 s1 = ''-'' \<or> take 1 s1 = ''+'' then drop 1 s1 else s1);
          digits = takeWhile is_digit s2;
          v = (if neg then - int (dec_value digits) else int (dec_value digits))
      in if digits = [] \<or> \<not> is_int64 v then None else Some v)"

text \<open>\<open>None\<close> for a fresh time stamp, else the error text. The subtraction is one of \<open>int64_t\<close>.\<close>

definition isTimestampFresh :: "int \<Rightarrow> string \<Rightarrow> string option" where
  "isTimestampFresh nowSec timestamp =
     (case stoll timestamp of
        None \<Rightarrow> Some ''invalid timestamp''
      | Some cbTime \<Rightarrow>
          if 300 < \<bar>add_int64 nowSec (- cbTime)\<bar> then Some ''timestamp out of acceptable window'' else None)"

definition checkNonce :: "callback_sys \<Rightarrow> string \<Rightarrow> nat \<Rightarrow> bool" where
  "checkNonce C nonce now =
     (case redisSetNx C of
        None \<Rightarrow> True
      | Some redis \<Rightarrow>
          if nonce = [] then True
          else (case redis now (''cb:nonce:'' @ nonce) of None \<Rightarrow> True | Some isNil \<Rightarrow> \<not> isNil))"

section \<open>Reading a delivery\<close>

text \<open>
  The checks before any statement: \<open>None\<close> when a JSON accessor throws, \<open>Some (Inl reply)\<close>
  when the delivery is refused.
\<close>

definition text_field :: "json \<Rightarrow> string \<Rightarrow> (string \<Rightarrow> (reply + 'a) option) \<Rightarrow> (reply + 'a) option" where
  "text_field j k f = (case jstr j k [] of None \<Rightarrow> None | Some s \<Rightarrow> f s)"

definition require :: "bool \<Rightarrow> string \<Rightarrow> (reply + 'a) option \<Rightarrow> (reply + 'a) option" where
  "require ok message rest = (if ok then rest else Some (Inl (refuse message)))"

definition verifySignature :: "callback_sys \<Rightarrow> delivery \<Rightarrow> bool" where
  "verifySignature C d =
     (case wechatClient C of
        None \<Rightarrow> False
      | Some wc \<Rightarrow> verifyCallback wc (d_timestamp d) (d_nonce d) (d_body d) (d_signature d) (d_serialNo d))"

text \<open>
  The decryption of the resource and the merchant check, the same in both handlers: the
  plaintext and its JSON value.
\<close>

definition openResource :: "sys \<Rightarrow> wechat_client \<Rightarrow> string \<Rightarrow> string \<Rightarrow> string \<Rightarrow>
    (string \<Rightarrow> json \<Rightarrow> (reply + 'a) option) \<Rightarrow> (reply + 'a) option" where
  "openResource S wc ciphertext nonceStr associatedData f =
     (case decryptResource wc ciphertext nonceStr associatedData of
        Inl decryptError \<Rightarrow> Some (Inl (respond (fst (failed decryptError NoError)) decryptError))
      | Inr plaintext \<Rightarrow>
          (case parseJson S plaintext of
             (parsed, plainJson) \<Rightarrow>
               require parsed ''invalid resource json''
                 (text_field plainJson ''appid'' (\<lambda>appId. text_field plainJson ''mchid'' (\<lambda>mchId.
                    require (appId = [] \<or> appId = getAppId wc) ''appid mismatch''
                      (require (mchId = [] \<or> mchId = getMchId wc) ''mchid mismatch''
                         (f plaintext plainJson)))))))"

text \<open>The encrypted resource; \<open>noun\<close> is \<open>transaction\<close> or \<open>refund\<close>.\<close>

definition readResource :: "sys \<Rightarrow> wechat_client \<Rightarrow> string \<Rightarrow> json \<Rightarrow>
    (string \<Rightarrow> json \<Rightarrow> (reply + 'a) option) \<Rightarrow> (reply + 'a) option" where
  "readResource S wc noun resource f =
     text_field resource ''algorithm'' (\<lambda>algorithm.
       require (algorithm = ''AEAD_AES_256_GCM'') ''unsupported resource algorithm''
         (text_field resource ''ciphertext'' (\<lambda>ciphertext.
            text_field resource ''nonce'' (\<lambda>nonceStr.
              text_field resource ''associated_data'' (\<lambda>associatedData.
                require (ciphertext \<noteq> [] \<and> nonceStr \<noteq> []) ''invalid resource''
                  (require (associatedData = noun) (''invalid '' @ noun @ '' associated_data'')
                     (openResource S wc ciphertext nonceStr associatedData f)))))))"

text \<open>The envelope; \<open>eventPrefix\<close> is the prefix of the event types the handler takes.\<close>

definition readEnvelope :: "sys \<Rightarrow> wechat_client \<Rightarrow> string \<Rightarrow> string \<Rightarrow> json \<Rightarrow>
    (string \<Rightarrow> json \<Rightarrow> (reply + 'a) option) \<Rightarrow> (reply + 'a) option" where
  "readEnvelope S wc eventPrefix noun notifyJson f =
     text_field notifyJson ''event_type'' (\<lambda>eventType.
       require (eventType \<noteq> []) ''missing event_type''
         (require (starts_with eventPrefix eventType) (''invalid '' @ noun @ '' event_type'')
            (case isMember notifyJson ''resource'' of
               None \<Rightarrow> None
             | Some present \<Rightarrow>
                 require present ''missing resource''
                   (text_field notifyJson ''resource_type'' (\<lambda>resourceType.
                      require (resourceType = ''encrypt-resource'') ''unsupported resource_type''
                        (case jget notifyJson ''resource'' JNull of
                           None \<Rightarrow> None
                         | Some resource \<Rightarrow> readResource S wc noun resource f))))))"

definition openNotification ::
  "callback_sys \<Rightarrow> sys \<Rightarrow> string \<Rightarrow> string \<Rightarrow> int \<Rightarrow> delivery \<Rightarrow>
     (json \<Rightarrow> string \<Rightarrow> json \<Rightarrow> (reply + 'a) option) \<Rightarrow> (reply + 'a) option" where
  "openNotification C S eventPrefix noun nowSec d f =
     (case wechatClient C of
        None \<Rightarrow> Some (Inl (refuse ''wechat client not ready''))
      | Some wc \<Rightarrow>
          require (verifySignature C d) ''signature verification failed''
            (case isTimestampFresh nowSec (d_timestamp d) of
               Some tsError \<Rightarrow> Some (Inl (refuse tsError))
             | None \<Rightarrow>
                 (case parseJson S (d_body d) of
                    (parsed, notifyJson) \<Rightarrow>
                      require parsed ''invalid json'' (readEnvelope S wc eventPrefix noun notifyJson (f notifyJson)))))"

record notice =
  n_key :: string
  n_plaintext :: string
  n_plain :: json
  n_number :: string
  n_channelId :: string
  n_state :: string

text \<open>The fields of a transaction notification: order number, transaction id and trade state.\<close>

definition paymentNotice :: "json \<Rightarrow> string \<Rightarrow> json \<Rightarrow> (reply + notice) option" where
  "paymentNotice notifyJson plaintext plainJson =
     text_field plainJson ''out_trade_no'' (\<lambda>orderNo.
       text_field plainJson ''transaction_id'' (\<lambda>transactionId.
         text_field plainJson ''trade_state'' (\<lambda>tradeState.
           require (orderNo \<noteq> [] \<and> tradeState \<noteq> []) ''missing out_trade_no/trade_state''
             (require (tradeState \<in> {''SUCCESS'', ''USERPAYING'', ''NOTPAY'', ''CLOSED'', ''REVOKED'', ''REFUND''})
                ''invalid trade_state''
                (require (\<not> (tradeState = ''SUCCESS'' \<and> transactionId = [])) ''missing transaction_id''
                   (text_field notifyJson ''id'' (\<lambda>ident.
                      Some (Inr \<lparr>n_key = (if ident = [] then orderNo @ '':'' @ tradeState else ident),
                                 n_plaintext = plaintext, n_plain = plainJson, n_number = orderNo,
                                 n_channelId = transactionId, n_state = tradeState\<rparr>))))))))"

text \<open>The fields of a refund notification: refund number, refund id and refund status.\<close>

definition refundNotice :: "json \<Rightarrow> string \<Rightarrow> json \<Rightarrow> (reply + notice) option" where
  "refundNotice notifyJson plaintext plainJson =
     text_field plainJson ''out_refund_no'' (\<lambda>refundNo.
       text_field plainJson ''refund_status'' (\<lambda>refundStatusRaw.
         text_field plainJson ''refund_id'' (\<lambda>refundId.
           require (refundNo \<noteq> [] \<and> refundStatusRaw \<noteq> []) ''missing refund_no/refund_status''
             (require (\<not> (refundStatusRaw = ''SUCCESS'' \<and> refundId = [])) ''missing refund_id''
                (text_field notifyJson ''id'' (\<lambda>ident.
                   Some (Inr \<lparr>n_key = (if ident = [] then refundNo @ '':'' @ refundStatusRaw else ident),
                              n_plaintext = plaintext, n_plain = plainJson, n_number = refundNo,
                              n_channelId = refundId, n_state = refundStatusRaw\<rparr>)))))))"

section \<open>The reservation\<close>

text \<open>\<open>INSERT .. (.., NULL, owner_token, expire_at) ON CONFLICT DO NOTHING RETURNING\<close>.\<close>

definition reserve_owned :: "string \<Rightarrow> string \<Rightarrow> string \<Rightarrow> int \<Rightarrow> tables \<Rightarrow> pg_error + (nat \<times> tables)" where
  "reserve_owned key hash token expiresAt t =
     (if \<not> (fits 128 key \<and> fits 64 hash \<and> fits 64 token) then Inl TooLong
      else if key \<in> i_key ` set (t_idem t) then Inr (0, t)
      else Inr (1, t\<lparr>t_idem := t_idem t @
             [\<lparr>i_key = key, i_hash = hash, i_snapshot = None, i_expire_at = Some expiresAt, i_owner_token = Some token\<rparr>]\<rparr>))"

definition drop_stmt :: "string \<Rightarrow> tables \<Rightarrow> pg_error + (nat \<times> tables)" where
  "drop_stmt key t =
     (let P = (\<lambda>r. i_key r = key \<and> i_snapshot r = None)
      in Inr (length (filter P (t_idem t)), t\<lparr>t_idem := delete_where P (t_idem t)\<rparr>))"

definition finalize_stmt :: "string \<Rightarrow> string \<Rightarrow> string \<Rightarrow> tables \<Rightarrow> pg_error + (nat \<times> tables)" where
  "finalize_stmt key token snapshot t =
     (let P = (\<lambda>r. i_key r = key \<and> i_owner_token r = Some token)
      in Inr (length (filter P (t_idem t)),
              t\<lparr>t_idem := update_where P (\<lambda>r. r\<lparr>i_snapshot := Some snapshot\<rparr>) (t_idem t)\<rparr>))"

definition select_idem :: "string \<Rightarrow> tables \<Rightarrow> pg_error + idem_row list" where
  "select_idem key t = Inr (filter (\<lambda>r. i_key r = key) (t_idem t))"

definition dropUnfinalizedReservation :: "env \<Rightarrow> string \<Rightarrow> world \<Rightarrow> world" where
  "dropUnfinalizedReservation e key w = snd (mapper e (drop_stmt key) w)"

definition newReservationToken :: "sys \<Rightarrow> nat \<Rightarrow> string" where
  "newReservationToken S now = filter (\<lambda>c. c \<noteq> CHR ''-'') (getUuid S now)"

definition callbackRow :: "env \<Rightarrow> delivery \<Rightarrow> string \<Rightarrow> world \<Rightarrow> callback_row" where
  "callbackRow e d paymentNo w =
     \<lparr>c_payment_no = paymentNo, c_raw_body = d_body d, c_signature = d_signature d,
      c_serial_no = d_serialNo d, c_verified = True, c_processed = True, c_received_at = clock e (tick w)\<rparr>"

text \<open>A delivery of a notification that is already finalized: only the audit row.\<close>

definition recordDuplicate :: "env \<Rightarrow> delivery \<Rightarrow> string \<Rightarrow> world \<Rightarrow> reply list \<times> world" where
  "recordDuplicate e d orderNo w =
     (case mapper e (reads (latest_payment orderNo)) w of
        (Ok None, w1) \<Rightarrow> ([internal ''db transaction unavailable''], w1)
      | (Ok (Some payment), w1) \<Rightarrow>
          (case mapper e (insert_callback (callbackRow e d (p_payment_no payment) w1)) w1 of
             (Ok _, w2) \<Rightarrow> ([okReply], w2)
           | (DbErr _, w2) \<Rightarrow> ([internal ''db transaction unavailable''], w2)
           | (Threw _, w2) \<Rightarrow> ([callbackMapperFailure], w2))
      | (DbErr _, w1) \<Rightarrow> ([internal ''db transaction unavailable''], w1)
      | (Threw _, w1) \<Rightarrow> ([callbackMapperFailure], w1))"

text \<open>The lookup of the key and its reservation; \<open>known\<close> handles a finalized key, \<open>process\<close> a won one.\<close>

definition week :: int where
  "week = 7 * 24 * 60 * 60 * 1000000"

definition reserveNotice ::
  "env \<Rightarrow> callback_sys \<Rightarrow> sys \<Rightarrow> delivery \<Rightarrow> string \<Rightarrow> (string \<Rightarrow> world \<Rightarrow> reply list \<times> world) \<Rightarrow>
     world \<Rightarrow> reply list \<times> world" where
  "reserveNotice e C S d key process w =
     (let token = newReservationToken S (tick w)
      in case exec e (reserve_owned key (getMd5 C (d_body d)) token (clock e (tick w) + week)) w of
           (Inl _, w1) \<Rightarrow> ([internal ''idempotency insert failed''], w1)
         | (Inr affected, w1) \<Rightarrow> if affected = 0 then ([stillInProgress], w1) else process token w1)"

definition withNotice ::
  "env \<Rightarrow> callback_sys \<Rightarrow> sys \<Rightarrow> delivery \<Rightarrow> string \<Rightarrow> (world \<Rightarrow> reply list \<times> world) \<Rightarrow>
     (string \<Rightarrow> world \<Rightarrow> reply list \<times> world) \<Rightarrow> world \<Rightarrow> reply list \<times> world" where
  "withNotice e C S d key known process w =
     (case mapper e (reads (select_idem key)) w of
        (Ok [existing], w1) \<Rightarrow>
          if i_snapshot existing = None then ([stillInProgress], dropUnfinalizedReservation e key w1)
          else known w1
      | (Ok _, w1) \<Rightarrow> reserveNotice e C S d key process w1
      | (DbErr _, w1) \<Rightarrow> ([internal ''idempotency lookup failed''], w1)
      | (Threw _, w1) \<Rightarrow> ([callbackMapperFailure], w1))"

section \<open>Settling a payment notification\<close>

text \<open>The ledger entry of this file: inserted without a lookup, every outcome only logged.\<close>

definition callbackLedgerRow :: "env \<Rightarrow> order_row \<Rightarrow> string \<Rightarrow> string \<Rightarrow> string \<Rightarrow> world \<Rightarrow> ledger_row" where
  "callbackLedgerRow e order paymentNo entryType amount w =
     \<lparr>l_user_id = o_user_id order, l_order_no = o_order_no order, l_payment_no = Some paymentNo,
      l_entry_type = entryType, l_amount = amount, l_created_at = clock e (tick w)\<rparr>"

definition badAmount :: "string \<Rightarrow> reply" where
  "badAmount message = failed message (PayError 400 ''invalid amount in callback'')"

text \<open>
  The gates on the notified amount, currency, payer total and transaction id: \<open>None\<close> when an
  accessor throws, \<open>Some None\<close> when all pass.
\<close>

definition noticeProblem :: "notice \<Rightarrow> payment_row \<Rightarrow> order_row \<Rightarrow> reply option option" where
  "noticeProblem n payment order =
     (case jget (n_plain n) ''amount'' JNull of
        None \<Rightarrow> None
      | Some amountJson \<Rightarrow>
          (case (jstr amountJson ''currency'' [], Option.bind (jget amountJson ''total'' (JInt 0)) asInt64,
                 Option.bind (jget amountJson ''payer_total'' (JInt 0)) asInt64, isMember amountJson ''payer_total'') of
             (Some notifyCurrency, Some notifyTotalFen, payer, hasPayer) \<Rightarrow>
               (case parseAmountToFen (p_amount payment) of
                  None \<Rightarrow> Some (Some (badAmount ''invalid amount in callback''))
                | Some orderTotalFen \<Rightarrow>
                    if notifyTotalFen \<le> 0 then Some (Some (badAmount ''invalid amount in callback''))
                    else if notifyCurrency \<noteq> [] \<and> notifyCurrency \<noteq> o_currency order
                    then Some (Some (badAmount ''currency mismatch''))
                    else if notifyTotalFen \<noteq> orderTotalFen then Some (Some (badAmount ''amount mismatch''))
                    else
                      (case (payer, hasPayer) of
                         (Some payerTotalFen, Some present) \<Rightarrow>
                           if present \<and> notifyTotalFen < payerTotalFen
                           then Some (Some (badAmount ''invalid payer_total in callback''))
                           else
                             (let bookedTxn = (case p_channel_trade_no payment of None \<Rightarrow> [] | Some s \<Rightarrow> s)
                              in if bookedTxn \<noteq> [] \<and> n_channelId n \<noteq> [] \<and> bookedTxn \<noteq> n_channelId n
                                 then Some (Some (failed ''transaction_id mismatch''
                                                    (PayError 400 ''transaction_id mismatch'')))
                                 else Some None)
                       | _ \<Rightarrow> None))
           | _ \<Rightarrow> None))"

text \<open>The order status a refund claim is booked with; a failed sum leaves the claim and aborts.\<close>

definition resolveNotified :: "env \<Rightarrow> string \<Rightarrow> order_row \<Rightarrow> world \<Rightarrow> string \<times> world" where
  "resolveNotified e orderStatus order w =
     (if orderStatus = ''REFUNDED''
      then (case exec e (reads (refund_sum e (o_order_no order))) w of
              (Inl _, w1) \<Rightarrow> (orderStatus, w1)
            | (Inr sumText, w1) \<Rightarrow>
                (orderStatusAfterRefundCoverage orderStatus (o_amount order)
                   (case parseAmountToFen sumText of None \<Rightarrow> 0 | Some fen \<Rightarrow> fen), w1))
      else (orderStatus, w))"

text \<open>The finalize inside the transaction and the explicit \<open>COMMIT\<close> after it.\<close>

definition exec_commit :: "env \<Rightarrow> world \<Rightarrow> string option \<times> world" where
  "exec_commit e w = (if txn_of w = Aborted then (Some ''transaction aborted'', next_tick w) else commit_txn e w)"

definition finalizeAndCommit :: "env \<Rightarrow> string \<Rightarrow> string \<Rightarrow> string \<Rightarrow> world \<Rightarrow> reply list \<times> world" where
  "finalizeAndCommit e key token snapshot w =
     (case exec e (finalize_stmt key token snapshot) w of
        (Inl _, w1) \<Rightarrow> ([internal ''db idempotency error''], rollback w1)
      | (Inr rows, w1) \<Rightarrow>
          if rows = 0 then ([internal ''idempotency reservation lost''], rollback w1)
          else (case exec_commit e w1 of
                  (None, w2) \<Rightarrow> ([okReply], w2)
                | (Some _, w2) \<Rightarrow> ([internal ''db commit error''], rollback w2)))"

definition commitThenFinalize :: "env \<Rightarrow> string \<Rightarrow> string \<Rightarrow> string \<Rightarrow> world \<Rightarrow> reply list \<times> world" where
  "commitThenFinalize e key token snapshot w =
     (case exec_commit e w of
        (Some _, w1) \<Rightarrow> ([failed ''Failed to commit transaction'' (PayError 1400 ''db transaction unavailable'')], w1)
      | (None, w1) \<Rightarrow> ([okReply], snd (exec e (finalize_stmt key token snapshot) w1)))"

definition writeNotifiedOrder ::
  "env \<Rightarrow> order_row \<Rightarrow> string \<Rightarrow> string \<Rightarrow> string \<Rightarrow> string \<Rightarrow> string \<Rightarrow> world \<Rightarrow> reply list \<times> world" where
  "writeNotifiedOrder e order orderStatus paymentNo key token plaintext w =
     (case mapper e (set_order_status (o_order_no order) orderStatus) w of
        (Ok _, w1) \<Rightarrow>
          if orderStatus = ''PAID'' \<or> orderStatus = ''REFUNDED''
          then finalizeAndCommit e key token plaintext
                 (snd (mapper e (insert_ledger (callbackLedgerRow e order paymentNo ''PAYMENT'' (o_amount order) w1)) w1))
          else commitThenFinalize e key token plaintext w1
      | (DbErr what, w1) \<Rightarrow>
          ([failed (''db error: '' @ what) (PayError 1400 ''db transaction unavailable'')], w1)
      | (Threw _, w1) \<Rightarrow> ([callbackMapperFailure], rollback w1))"

text \<open>A row that a concurrent transaction advanced: roll back, keep the audit row, acknowledge.\<close>

definition acknowledgeAdvanced :: "env \<Rightarrow> delivery \<Rightarrow> string \<Rightarrow> world \<Rightarrow> reply list \<times> world" where
  "acknowledgeAdvanced e d paymentNo w =
     (let w1 = end_txn e (rollback w)
      in ([okReply], snd (mapper e (insert_callback (callbackRow e d paymentNo w1)) w1)))"

definition settleNotified ::
  "env \<Rightarrow> delivery \<Rightarrow> notice \<Rightarrow> string \<Rightarrow> payment_row \<Rightarrow> order_row \<Rightarrow> world \<Rightarrow> reply list \<times> world" where
  "settleNotified e d n token payment order w =
     (case mapTradeState (n_state n) of
        (claimed, paymentStatus) \<Rightarrow>
          (case resolveNotified e claimed order w of
             (orderStatus, w1) \<Rightarrow>
               (case mapper e (insert_callback (callbackRow e d (p_payment_no payment) w1)) w1 of
                  (Ok _, w2) \<Rightarrow>
                    (case exec e (cas_payment paymentStatus (n_channelId n) (n_plaintext n) (p_payment_no payment)) w2 of
                       (Inl _, w3) \<Rightarrow> ([internal ''db transaction unavailable''], w3)
                     | (Inr rows, w3) \<Rightarrow>
                         if rows = 0 then acknowledgeAdvanced e d (p_payment_no payment) w3
                         else writeNotifiedOrder e order orderStatus (p_payment_no payment) (n_key n) token
                                (n_plaintext n) w3)
                | (DbErr _, w2) \<Rightarrow> ([internal ''db transaction unavailable''], w2)
                | (Threw _, w2) \<Rightarrow> ([callbackMapperFailure], rollback w2))))"

definition paymentTxn :: "env \<Rightarrow> delivery \<Rightarrow> notice \<Rightarrow> string \<Rightarrow> world \<Rightarrow> reply list \<times> world" where
  "paymentTxn e d n token w =
     (case mapper e (reads (latest_payment (n_number n))) w of
        (Ok None, w1) \<Rightarrow> ([failed ''payment not found'' (SystemError 1404)], rollback w1)
      | (Ok (Some payment), w1) \<Rightarrow>
          if p_status payment \<in> {''SUCCESS'', ''REFUNDED''} then ([okReply], rollback w1)
          else
            (case exec e (reads (select_orders (\<lambda>r. o_order_no r = p_order_no payment))) w1 of
               (Inr [order], w2) \<Rightarrow>
                 (case noticeProblem n payment order of
                    None \<Rightarrow> ([], w2)
                  | Some (Some problem) \<Rightarrow> ([problem], rollback w2)
                  | Some None \<Rightarrow> settleNotified e d n token payment order w2)
             | (_, w2) \<Rightarrow> ([internal ''db transaction unavailable''], w2))
      | (DbErr _, w1) \<Rightarrow> ([internal ''db transaction unavailable''], w1)
      | (Threw _, w1) \<Rightarrow> ([callbackMapperFailure], rollback w1))"

definition in_txn ::
  "env \<Rightarrow> (world \<Rightarrow> reply list \<times> world) \<Rightarrow> world \<Rightarrow> reply list \<times> world" where
  "in_txn e body w =
     (case begin_txn e w of
        None \<Rightarrow> ([], next_tick w)
      | Some w1 \<Rightarrow> (case body w1 of (replies, w2) \<Rightarrow> (replies, end_txn e w2)))"

definition nowSeconds :: "env \<Rightarrow> world \<Rightarrow> int" where
  "nowSeconds e w = clock e (tick w) div 1000000"

definition handlePaymentCallback ::
  "env \<Rightarrow> callback_sys \<Rightarrow> sys \<Rightarrow> delivery \<Rightarrow> world \<Rightarrow> reply list \<times> world" where
  "handlePaymentCallback e C S d w =
     (case openNotification C S ''TRANSACTION.'' ''transaction'' (nowSeconds e w) d paymentNotice of
        None \<Rightarrow> ([], w)
      | Some (Inl refusal) \<Rightarrow> ([refusal], w)
      | Some (Inr n) \<Rightarrow>
          if \<not> checkNonce C (d_nonce d) (tick w) then ([refuse ''replay detected''], w)
          else withNotice e C S d (n_key n) (recordDuplicate e d (n_number n))
                 (\<lambda>token. in_txn e (paymentTxn e d n token)) w)"

section \<open>Settling a refund notification\<close>

definition cas_refund :: "int \<Rightarrow> string \<Rightarrow> string \<Rightarrow> string \<Rightarrow> tables \<Rightarrow> pg_error + (nat \<times> tables)" where
  "cas_refund now status refundId rn t =
     (if list_ex (open_refund rn) (t_refunds t) \<and> \<not> fits 64 refundId then Inl TooLong
      else update_refunds (open_refund rn)
             (\<lambda>r. r\<lparr>r_status := status, r_channel_refund_no := Some refundId, r_updated_at := now\<rparr>) t)"

text \<open>
  After the compare-and-set the handler does not wait for one statement before it queues the
  next: the update of the payload and the ledger entry (or the audit row) are submitted
  together, and each result submits what follows from it. A transaction runs its statements
  in the order they were submitted, and a statement submitted to a transaction that was
  rolled back ends in its error callback. \<open>task\<close> is a submitted statement, whose mapper, if it
  has one, is already built.
\<close>

datatype task =
    Payload
  | LedgerInsert ledger_row
  | CoverageSum
  | AuditInsert callback_row
  | OrderWrite
  | FinalizeKey
  | CommitTxn

fun task_weight :: "task \<Rightarrow> nat" where
  "task_weight Payload = 3"
| "task_weight (LedgerInsert _) = 4"
| "task_weight CoverageSum = 2"
| "task_weight (AuditInsert _) = 3"
| "task_weight OrderWrite = 1"
| "task_weight FinalizeKey = 2"
| "task_weight CommitTxn = 1"

record refund_job =
  j_delivery :: delivery
  j_notice :: notice
  j_token :: string
  j_refund :: refund_row
  j_order :: order_row
  j_status :: string

text \<open>Building a mapper: \<open>Some\<close> when its constructor throws.\<close>

definition build :: "env \<Rightarrow> world \<Rightarrow> bool \<times> world" where
  "build e w = (ctorFault e (tick w) = None, next_tick w)"

definition giveUp :: "reply \<Rightarrow> world \<Rightarrow> reply list \<times> task list \<times> world" where
  "giveUp rep w = ([rep], [], rollback w)"

definition insertCallbackAndFinish :: "env \<Rightarrow> refund_job \<Rightarrow> world \<Rightarrow> reply list \<times> task list \<times> world" where
  "insertCallbackAndFinish e j w =
     (let row = callbackRow e (j_delivery j) (r_payment_no (j_refund j)) w
      in case build e w of
           (True, w1) \<Rightarrow> ([], [AuditInsert row], w1)
         | (False, w1) \<Rightarrow> giveUp callbackMapperFailure w1)"

definition coverageResult :: "env \<Rightarrow> refund_job \<Rightarrow> string \<Rightarrow> world \<Rightarrow> reply list \<times> task list \<times> world" where
  "coverageResult e j sumText w =
     (case parseAmountToFen sumText of
        None \<Rightarrow> giveUp (internal ''db transaction unavailable'') w
      | Some settledFen \<Rightarrow>
          if \<not> refundsCoverOrderAmount settledFen (case parseAmountToFen (o_amount (j_order j)) of None \<Rightarrow> 0 | Some fen \<Rightarrow> fen)
          then ([], [], w)
          else (case build e w of
                  (True, w1) \<Rightarrow> ([], [OrderWrite], w1)
                | (False, w1) \<Rightarrow> giveUp callbackMapperFailure w1))"

text \<open>The statements and their callbacks: replies, statements they submit, and the world.\<close>

definition writePayload :: "env \<Rightarrow> refund_job \<Rightarrow> world \<Rightarrow> reply list \<times> task list \<times> world" where
  "writePayload e j w =
     (case exec e (set_refund_payload (dbClock e (tick w)) (r_refund_no (j_refund j)) (n_plaintext (j_notice j))) w of
        (Inl _, w1) \<Rightarrow> giveUp (internal ''db transaction unavailable'') w1
      | (Inr _, w1) \<Rightarrow> ([], if j_status j = ''REFUND_SUCCESS'' then [CoverageSum] else [], w1))"

definition sumRefunds :: "env \<Rightarrow> refund_job \<Rightarrow> world \<Rightarrow> reply list \<times> task list \<times> world" where
  "sumRefunds e j w =
     (case exec e (reads (refund_sum e (r_order_no (j_refund j)))) w of
        (Inl _, w1) \<Rightarrow> giveUp (internal ''db transaction unavailable'') w1
      | (Inr sumText, w1) \<Rightarrow> coverageResult e j sumText w1)"

definition writeRefunded :: "env \<Rightarrow> refund_job \<Rightarrow> world \<Rightarrow> reply list \<times> task list \<times> world" where
  "writeRefunded e j w =
     (case exec e (refunded_order (r_order_no (j_refund j))) w of
        (Inl _, w1) \<Rightarrow> giveUp (internal ''db transaction unavailable'') w1
      | (Inr _, w1) \<Rightarrow> ([], [], w1))"

definition writeAudit :: "env \<Rightarrow> callback_row \<Rightarrow> world \<Rightarrow> reply list \<times> task list \<times> world" where
  "writeAudit e row w =
     (case exec e (insert_callback row) w of
        (Inl _, w1) \<Rightarrow> giveUp (internal ''db transaction unavailable'') w1
      | (Inr _, w1) \<Rightarrow> ([], [FinalizeKey], w1))"

definition finalizeRefund :: "env \<Rightarrow> refund_job \<Rightarrow> world \<Rightarrow> reply list \<times> task list \<times> world" where
  "finalizeRefund e j w =
     (case exec e (finalize_stmt (n_key (j_notice j)) (j_token j) (n_plaintext (j_notice j))) w of
        (Inl _, w1) \<Rightarrow> giveUp (internal ''db idempotency error'') w1
      | (Inr rows, w1) \<Rightarrow>
          if rows = 0 then giveUp (internal ''idempotency reservation lost'') w1 else ([], [CommitTxn], w1))"

definition commitRefundNotice :: "env \<Rightarrow> world \<Rightarrow> reply list \<times> task list \<times> world" where
  "commitRefundNotice e w =
     (case exec_commit e w of
        (None, w1) \<Rightarrow> ([okReply], [], w1)
      | (Some what, w1) \<Rightarrow> giveUp (failed (''db error: '' @ what) (PayError 1400 ''db commit error'')) w1)"

lemmas task_steps [simp] = writePayload_def sumRefunds_def writeRefunded_def writeAudit_def finalizeRefund_def
  commitRefundNotice_def

fun perform :: "env \<Rightarrow> refund_job \<Rightarrow> task \<Rightarrow> world \<Rightarrow> reply list \<times> task list \<times> world" where
  "perform e j Payload w = writePayload e j w"
| "perform e j (LedgerInsert row) w = insertCallbackAndFinish e j (snd (exec e (insert_ledger row) w))"
| "perform e j CoverageSum w = sumRefunds e j w"
| "perform e j (AuditInsert row) w = writeAudit e row w"
| "perform e j OrderWrite w = writeRefunded e j w"
| "perform e j FinalizeKey w = finalizeRefund e j w"
| "perform e j CommitTxn w = commitRefundNotice e w"

lemma perform_weight:
  "perform e j t w = (replies, queued, w') \<Longrightarrow> sum_list (map task_weight queued) < task_weight t"
  by (cases t) (auto simp: giveUp_def insertCallbackAndFinish_def coverageResult_def Let_def
      split: prod.splits sum.splits option.splits if_splits bool.splits)

function run_tasks :: "env \<Rightarrow> refund_job \<Rightarrow> task list \<Rightarrow> world \<Rightarrow> reply list \<times> world" where
  "run_tasks e j [] w = ([], w)"
| "run_tasks e j (t # ts) w =
     (case perform e j t w of
        (replies, queued, w1) \<Rightarrow>
          (case run_tasks e j (ts @ queued) w1 of (later, w2) \<Rightarrow> (replies @ later, w2)))"
  by pat_completeness auto
termination
  by (relation "measure (\<lambda>(e, j, ts, w). sum_list (map task_weight ts))")
    (auto dest: perform_weight [OF sym])

text \<open>What is submitted right behind the payload update, before it has run.\<close>

definition submitLedger :: "env \<Rightarrow> refund_job \<Rightarrow> world \<Rightarrow> reply list \<times> task list \<times> world" where
  "submitLedger e j w =
     (if j_status j \<noteq> ''REFUND_SUCCESS'' then insertCallbackAndFinish e j w
      else
        (let row = callbackLedgerRow e (j_order j) (r_payment_no (j_refund j)) ''REFUND'' (r_amount (j_refund j)) w
         in case build e w of
              (True, w1) \<Rightarrow> ([], [LedgerInsert row], w1)
            | (False, w1) \<Rightarrow> insertCallbackAndFinish e j w1))"

definition startTasks :: "env \<Rightarrow> refund_job \<Rightarrow> world \<Rightarrow> reply list \<times> world" where
  "startTasks e j w =
     (case build e w of
        (False, w1) \<Rightarrow> ([callbackMapperFailure], rollback w1)
      | (True, w1) \<Rightarrow>
          (case submitLedger e j w1 of
             (replies, queued, w2) \<Rightarrow>
               (case run_tasks e j (Payload # queued) w2 of (later, w3) \<Rightarrow> (replies @ later, w3))))"

definition refundNoticeTxn :: "env \<Rightarrow> refund_job \<Rightarrow> world \<Rightarrow> reply list \<times> world" where
  "refundNoticeTxn e j w =
     (case exec e (cas_refund (dbClock e (tick w)) (j_status j) (n_channelId (j_notice j)) (r_refund_no (j_refund j))) w of
        (Inl _, w1) \<Rightarrow> ([internal ''db transaction unavailable''], rollback w1)
      | (Inr rows, w1) \<Rightarrow>
          if rows = 0 then acknowledgeAdvanced e (j_delivery j) (r_payment_no (j_refund j)) w1
          else startTasks e j w1)"

definition refundRefusal :: "string \<Rightarrow> reply" where
  "refundRefusal message = failed message (PayError 1400 ''db transaction unavailable'')"

text \<open>The amount gate on the refund row; the currency is compared after the order is read.\<close>

definition refundNoticeAmount :: "notice \<Rightarrow> refund_row \<Rightarrow> (reply + string) option" where
  "refundNoticeAmount n refund =
     (case jget (n_plain n) ''amount'' JNull of
        None \<Rightarrow> None
      | Some amountJson \<Rightarrow>
          (case (jstr amountJson ''currency'' [], Option.bind (jget amountJson ''refund'' (JInt 0)) asInt64) of
             (Some notifyCurrency, Some notifyRefundFen) \<Rightarrow>
               (case parseAmountToFen (r_amount refund) of
                  None \<Rightarrow> Some (Inl (refundRefusal ''invalid refund amount in callback''))
                | Some refundTotalFen \<Rightarrow>
                    if notifyRefundFen \<le> 0 then Some (Inl (refundRefusal ''invalid refund amount in callback''))
                    else if notifyRefundFen \<noteq> refundTotalFen then Some (Inl (refundRefusal ''refund amount mismatch''))
                    else Some (Inr notifyCurrency))
           | _ \<Rightarrow> None))"

definition refundOrderNotice ::
  "env \<Rightarrow> delivery \<Rightarrow> notice \<Rightarrow> string \<Rightarrow> string \<Rightarrow> refund_row \<Rightarrow> string \<Rightarrow> world \<Rightarrow> reply list \<times> world" where
  "refundOrderNotice e d n token status refund notifyCurrency w =
     (case find_one e (select_orders (\<lambda>r. o_order_no r = r_order_no refund)) w of
        (Ok order, w1) \<Rightarrow>
          if notifyCurrency \<noteq> [] \<and> notifyCurrency \<noteq> o_currency order
          then ([refundRefusal ''refund currency mismatch''], w1)
          else in_txn e (refundNoticeTxn e \<lparr>j_delivery = d, j_notice = n, j_token = token, j_refund = refund,
                 j_order = order, j_status = status\<rparr>) w1
      | (DbErr _, w1) \<Rightarrow> ([failed ''order not found'' (SystemError 1404)], w1)
      | (Threw _, w1) \<Rightarrow> ([callbackMapperFailure], w1))"

definition processRefundNotice :: "env \<Rightarrow> delivery \<Rightarrow> notice \<Rightarrow> string \<Rightarrow> world \<Rightarrow> reply list \<times> world" where
  "processRefundNotice e d n token w =
     (let status = mapRefundStatus (n_state n)
      in if status = [] then ([refundRefusal ''invalid refund status''], w)
         else
           (case find_one e (select_refunds (\<lambda>r. r_refund_no r = n_number n)) w of
              (Ok refund, w1) \<Rightarrow>
                if r_status refund = ''REFUND_SUCCESS'' then ([okReply], w1)
                else
                  (case refundNoticeAmount n refund of
                     None \<Rightarrow> ([], w1)
                   | Some (Inl problem) \<Rightarrow> ([problem], w1)
                   | Some (Inr notifyCurrency) \<Rightarrow> refundOrderNotice e d n token status refund notifyCurrency w1)
            | (DbErr _, w1) \<Rightarrow> ([failed ''refund not found'' (SystemError 1404)], w1)
            | (Threw _, w1) \<Rightarrow> ([callbackMapperFailure], w1)))"

text \<open>A finalized refund notification: the audit row goes to the payment of the notified order.\<close>

definition recordDuplicateRefund :: "env \<Rightarrow> delivery \<Rightarrow> notice \<Rightarrow> world \<Rightarrow> reply list \<times> world" where
  "recordDuplicateRefund e d n w =
     (case jstr (n_plain n) ''out_trade_no'' [] of
        None \<Rightarrow> ([], w)
      | Some tradeOrderNo \<Rightarrow>
          if tradeOrderNo = []
          then ([failed ''missing out_trade_no'' (PayError 1400 ''missing out_trade_no'')], w)
          else recordDuplicate e d tradeOrderNo w)"

definition handleRefundCallback ::
  "env \<Rightarrow> callback_sys \<Rightarrow> sys \<Rightarrow> delivery \<Rightarrow> world \<Rightarrow> reply list \<times> world" where
  "handleRefundCallback e C S d w =
     (case openNotification C S ''REFUND.'' ''refund'' (nowSeconds e w) d refundNotice of
        None \<Rightarrow> ([], w)
      | Some (Inl refusal) \<Rightarrow> ([refusal], w)
      | Some (Inr n) \<Rightarrow>
          if \<not> checkNonce C (d_nonce d) (tick w) then ([refuse ''replay detected''], w)
          else withNotice e C S d (n_key n) (recordDuplicateRefund e d n) (processRefundNotice e d n) w)"

end
