(* ===== verification/Pay_Callback_Laws.thy ===== *)
theory Pay_Callback_Laws
  imports Pay_Callback Pay_Refund_Laws
begin

text \<open>
  The invariants of the notification handlers: what every statement of theirs keeps, a
  delivery keeps, whatever fails in between.
\<close>

section \<open>Invariants of the handlers\<close>

locale notice_inv = settle: settle_inv I + door: refund_door_inv I for I +
  assumes owned_keeps: "I t \<Longrightarrow> reserve_owned k h tok x t = Inr (n, t') \<Longrightarrow> I t'"
    and drop_keeps: "I t \<Longrightarrow> drop_stmt k t = Inr (n, t') \<Longrightarrow> I t'"
    and finalize_keeps: "I t \<Longrightarrow> finalize_stmt k tok s t = Inr (n, t') \<Longrightarrow> I t'"
    and callback_keeps: "I t \<Longrightarrow> insert_callback r t = Inr (u, t') \<Longrightarrow> I t'"
    and cas_refund_keeps: "I t \<Longrightarrow> cas_refund now st rid rn t = Inr (n, t') \<Longrightarrow> I t'"
begin

sublocale own: stmt_inv I "reserve_owned k h tok x" for k h tok x
  by unfold_locales (rule owned_keeps)

sublocale dropped: stmt_inv I "drop_stmt k" for k
  by unfold_locales (rule drop_keeps)

sublocale final: stmt_inv I "finalize_stmt k tok s" for k tok s
  by unfold_locales (rule finalize_keeps)

sublocale callb: stmt_inv I "insert_callback r" for r
  by unfold_locales (rule callback_keeps)

sublocale casr: stmt_inv I "cas_refund now st rid rn" for now st rid rn
  by unfold_locales (rule cas_refund_keeps)

lemmas read_holds = read_stmt.mapper_holdsD [where I = I] read_stmt.exec_holdsD [where I = I]

lemma commit_holds: "exec_commit e w = (r, w') \<Longrightarrow> holds I w \<Longrightarrow> holds I w'"
  by (auto simp: exec_commit_def dest: holds_commitD [where I = I] split: if_splits)

lemma duplicate_holds:
  "recordDuplicate e d on w = (r, w') \<Longrightarrow> stable I e \<Longrightarrow> holds I w \<Longrightarrow> holds I w'"
  by (auto simp: recordDuplicate_def dest!: read_holds callb.mapper_holdsD
      split: prod.splits dbres.splits option.splits)

lemma advanced_holds:
  "acknowledgeAdvanced e d pn w = (r, w') \<Longrightarrow> stable I e \<Longrightarrow> holds I w \<Longrightarrow> holds I w'"
  by (auto simp: acknowledgeAdvanced_def Let_def intro!: callb.mapper_holds holds_end_txn holds_rollback)

lemma finalize_commit_holds:
  "finalizeAndCommit e k tok s w = (r, w') \<Longrightarrow> stable I e \<Longrightarrow> holds I w \<Longrightarrow> holds I w'"
  by (auto simp: finalizeAndCommit_def intro!: holds_rollback dest!: final.exec_holdsD commit_holds
      split: prod.splits sum.splits option.splits if_splits)

lemma commit_finalize_holds:
  "commitThenFinalize e k tok s w = (r, w') \<Longrightarrow> stable I e \<Longrightarrow> holds I w \<Longrightarrow> holds I w'"
  by (auto simp: commitThenFinalize_def intro!: final.exec_holds dest!: commit_holds
      split: prod.splits option.splits)

lemma write_order_holds:
  assumes "writeNotifiedOrder e order st pn k tok s w = (r, w')" "stable I e" "holds I w"
  shows "holds I w'"
proof -
  have "holds I (snd (mapper e (insert_ledger row) v))" if "holds I v" for row v
    using settle.ledg.mapper_holds [OF assms(2) that] .
  then show ?thesis using assms
    by (auto simp: writeNotifiedOrder_def intro!: holds_rollback dest!: settle.ostat.mapper_holdsD
        dest: finalize_commit_holds commit_finalize_holds split: prod.splits dbres.splits if_splits)
qed

lemma resolve_holds:
  "resolveNotified e st order w = (r, w') \<Longrightarrow> stable I e \<Longrightarrow> holds I w \<Longrightarrow> holds I w'"
  by (auto simp: resolveNotified_def dest!: read_holds split: if_splits prod.splits sum.splits)

lemma settle_notified_holds:
  "settleNotified e d n tok p order w = (r, w') \<Longrightarrow> stable I e \<Longrightarrow> holds I w \<Longrightarrow> holds I w'"
  by (auto simp: settleNotified_def intro!: holds_rollback dest!: resolve_holds callb.mapper_holdsD
      settle.cas.exec_holdsD dest: advanced_holds write_order_holds split: prod.splits dbres.splits sum.splits if_splits)

lemma payment_txn_holds:
  "paymentTxn e d n tok w = (r, w') \<Longrightarrow> stable I e \<Longrightarrow> holds I w \<Longrightarrow> holds I w'"
  by (auto simp: paymentTxn_def intro!: holds_rollback dest!: read_holds dest: settle_notified_holds
      split: prod.splits dbres.splits option.splits if_splits sum.splits list.splits)

lemma in_txn_holds:
  assumes "in_txn e body w = (r, w')" "stable I e" "holds I w"
    and "\<And>v r v'. body v = (r, v') \<Longrightarrow> holds I v \<Longrightarrow> holds I v'"
  shows "holds I w'"
  using assms by (auto simp: in_txn_def intro!: holds_end_txn dest: holds_beginD [where I = I]
      split: option.splits prod.splits)

lemma with_notice_holds:
  assumes "withNotice e C S d k known process w = (r, w')" "stable I e" "holds I w"
    and "\<And>v r v'. known v = (r, v') \<Longrightarrow> holds I v \<Longrightarrow> holds I v'"
    and "\<And>tok v r v'. process tok v = (r, v') \<Longrightarrow> holds I v \<Longrightarrow> holds I v'"
  shows "holds I w'"
proof -
  have "holds I v'" if "reserveNotice e C S d k process v = (r, v')" "holds I v" for v r v'
    using that assms(2,5) by (auto simp: reserveNotice_def Let_def dest!: own.exec_holdsD
        split: prod.splits sum.splits if_splits)
  with assms show ?thesis
    by (auto simp: withNotice_def dropUnfinalizedReservation_def intro!: dropped.mapper_holds dest!: read_holds
        split: prod.splits dbres.splits list.splits if_splits)
qed

lemma payment_callback_holds:
  assumes "stable I e" "holds I w"
  shows "holds I (snd (handlePaymentCallback e C S d w))"
proof -
  have "holds I (snd (withNotice e C S d k (recordDuplicate e d on) (\<lambda>tok. in_txn e (paymentTxn e d n tok)) w))" for k on n
    by (rule with_notice_holds [OF prod.collapse [symmetric] assms])
      (auto dest: duplicate_holds [OF _ assms(1)] in_txn_holds [OF _ assms(1) _ payment_txn_holds [OF _ assms(1)]])
  with assms show ?thesis
    by (auto simp: handlePaymentCallback_def split: option.splits sum.splits)
qed

lemma give_up_holds: "giveUp rep w = (r, ts, w') \<Longrightarrow> holds I w \<Longrightarrow> holds I w'"
  by (auto simp: giveUp_def intro: holds_rollback)

lemma finish_holds: "insertCallbackAndFinish e j w = (r, ts, w') \<Longrightarrow> holds I w \<Longrightarrow> holds I w'"
  by (auto simp: insertCallbackAndFinish_def build_def Let_def dest: give_up_holds split: bool.splits)

lemma coverage_holds: "coverageResult e j s w = (r, ts, w') \<Longrightarrow> holds I w \<Longrightarrow> holds I w'"
  by (auto simp: coverageResult_def build_def dest: give_up_holds split: bool.splits option.splits if_splits)

lemma perform_holds:
  assumes "perform e j t w = (r, ts, w')" "stable I e" "holds I w"
  shows "holds I w'"
proof (cases t)
  case (LedgerInsert row)
  with assms finish_holds settle.ledg.exec_holds [OF assms(2,3)] show ?thesis by simp
next
  case CommitTxn
  with assms show ?thesis by (auto dest!: commit_holds dest: give_up_holds split: prod.splits option.splits)
qed (use assms in \<open>auto dest!: door.setpl.exec_holdsD read_holds callb.exec_holdsD door.cover.exec_holdsD
    final.exec_holdsD dest: give_up_holds coverage_holds split: prod.splits sum.splits if_splits\<close>)

lemma run_tasks_holds:
  "run_tasks e j ts w = (r, w') \<Longrightarrow> stable I e \<Longrightarrow> holds I w \<Longrightarrow> holds I w'"
proof (induction e j ts w arbitrary: r w' rule: run_tasks.induct)
  case (2 e j t ts w)
  obtain r1 queued w1 where p: "perform e j t w = (r1, queued, w1)" by (metis prod_cases3)
  obtain r2 w2 where q: "run_tasks e j (ts @ queued) w1 = (r2, w2)" by fastforce
  have "holds I w1" using perform_holds [OF p] 2(3,4) by blast
  with 2(1) [OF p [symmetric] refl q] 2(2,3) p q show ?case by simp
qed simp

lemma submit_holds: "submitLedger e j w = (r, ts, w') \<Longrightarrow> holds I w \<Longrightarrow> holds I w'"
  by (auto simp: submitLedger_def build_def Let_def dest: finish_holds split: if_splits bool.splits)

lemma start_tasks_holds:
  assumes "startTasks e j w = (r, w')" "stable I e" "holds I w"
  shows "holds I w'"
proof -
  obtain r1 ts w1 where s: "submitLedger e j (next_tick w) = (r1, ts, w1)" by (metis prod_cases3)
  obtain r2 w2 where q: "run_tasks e j (Payload # ts) w1 = (r2, w2)" by fastforce
  have "holds I w2" by (rule run_tasks_holds [OF q assms(2) submit_holds [OF s]]) (simp add: assms(3))
  with assms s q show ?thesis
    by (auto simp: startTasks_def build_def intro!: holds_rollback simp del: run_tasks.simps split: if_splits bool.splits)
qed

lemma refund_txn_holds:
  "refundNoticeTxn e j w = (r, w') \<Longrightarrow> stable I e \<Longrightarrow> holds I w \<Longrightarrow> holds I w'"
  by (auto simp: refundNoticeTxn_def intro!: holds_rollback dest!: casr.exec_holdsD
      dest: advanced_holds start_tasks_holds split: prod.splits sum.splits if_splits)

lemma process_refund_holds:
  assumes "processRefundNotice e d n tok w = (r, w')" "stable I e" "holds I w"
  shows "holds I w'"
proof -
  have "holds I v'" if "refundOrderNotice e d n tok st refund cur v = (r, v')" "holds I v" for st refund cur v r v'
    using that assms(2)
    by (auto simp: refundOrderNotice_def dest!: find_one_holdsD [where I = I]
        dest: in_txn_holds [OF _ assms(2) _ refund_txn_holds [OF _ assms(2)]]
        split: prod.splits dbres.splits if_splits)
  with assms show ?thesis
    by (auto simp: processRefundNotice_def Let_def dest!: find_one_holdsD [where I = I]
        split: prod.splits dbres.splits option.splits sum.splits if_splits)
qed

lemma refund_callback_holds:
  assumes "stable I e" "holds I w"
  shows "holds I (snd (handleRefundCallback e C S d w))"
proof -
  have known: "holds I v'" if "recordDuplicateRefund e d n v = (r, v')" "holds I v" for n v r v'
    using that assms(1)
    by (auto simp: recordDuplicateRefund_def dest: duplicate_holds split: option.splits if_splits)
  have "holds I (snd (withNotice e C S d k (recordDuplicateRefund e d n) (processRefundNotice e d n) w))" for k n
    by (rule with_notice_holds [OF prod.collapse [symmetric] assms])
      (auto dest: known process_refund_holds [OF _ assms(1)])
  with assms show ?thesis
    by (auto simp: handleRefundCallback_def split: option.splits sum.splits)
qed

end

lemmas notice_stmts = reserve_owned_def drop_stmt_def finalize_stmt_def insert_callback_def cas_refund_def Let_def

lemma wf_cas_refund: "wf_tables t \<Longrightarrow> cas_refund now st rid rn t = Inr (n, t') \<Longrightarrow> wf_tables t'"
  by (auto simp: cas_refund_def split: if_splits elim!: wf_update_refunds [rotated])

lemma wf_idem_stmts:
  assumes "wf_tables t"
  shows "reserve_owned k h tok x t = Inr (n, t') \<Longrightarrow> wf_tables t'"
    and "drop_stmt k t = Inr (n, t') \<Longrightarrow> wf_tables t'"
    and "finalize_stmt k tok s t = Inr (n, t') \<Longrightarrow> wf_tables t'"
proof -
  have wf: "wf_tables (t\<lparr>t_idem := rs\<rparr>)" if "keyed i_key rs" for rs
    using assms that by (simp add: wf_tables_def)
  have k: "keyed i_key (t_idem t)" using assms by (simp add: wf_tables_def)
  show "reserve_owned k h tok x t = Inr (n, t') \<Longrightarrow> wf_tables t'"
    "drop_stmt k t = Inr (n, t') \<Longrightarrow> wf_tables t'" "finalize_stmt k tok s t = Inr (n, t') \<Longrightarrow> wf_tables t'"
    using assms k by (auto simp: notice_stmts keyed_append keyed_delete_where keyed_update_where intro!: wf split: if_splits)
qed

interpretation wf_notice: notice_inv wf_tables
  by unfold_locales (fact wf_idem_stmts wf_insert_callback wf_cas_refund)+

interpretation settled_notice: notice_inv "books_kept ps {}" for ps
  by unfold_locales
    (auto simp: books_kept_def notice_stmts insert_ledger_def refund_stmts refunded_order_def update_refunds_def
      update_orders_def open_attempt_def intro!: kept_update split: if_splits option.splits)

end
