(* ===== verification/Pay_Notice.thy ===== *)
theory Pay_Notice
  imports Pay_Callback_Laws
begin

text \<open>
  What the handlers of \<open>CallbackService.cc\<close> promise the channel and the books: what a delivery
  must be to touch anything, that an acknowledged payment is booked, and that a
  notification settles its payment once.
\<close>

section \<open>What is let through\<close>

lemma stoll_int64: "stoll s = Some v \<Longrightarrow> is_int64 v"
  by (auto simp: stoll_def Let_def split: if_splits)

lemma fresh_window:
  assumes "isTimestampFresh now ts = None" "0 \<le> now" "now < 2 ^ 62"
  shows "\<exists>v. stoll ts = Some v \<and> \<bar>now - v\<bar> \<le> 300"
proof -
  from assms(1) obtain v where v: "stoll ts = Some v" "\<bar>add_int64 now (- v)\<bar> \<le> 300"
    by (auto simp: isTimestampFresh_def split: option.splits if_splits)
  from stoll_int64 [OF v(1)] have r: "- (2 ^ 63) \<le> v" "v < 2 ^ 63" by (simp_all add: int64_defs)
  have "now - v < 2 ^ 63"
  proof (rule ccontr)
    assume "\<not> now - v < 2 ^ 63"
    then have "(now - v - 2 ^ 63) mod 2 ^ 64 = now - v - 2 ^ 63"
      using r assms(3) by (intro mod_pos_pos_trivial) simp_all
    then have "(now - v + 2 ^ 63) mod 2 ^ 64 = now - v - 2 ^ 63"
      using mod_add_self2 [of "now - v - 2 ^ 63" "2 ^ 64"] by (simp add: add.commute)
    with v(2) assms(3) r show False by (simp add: add_int64_def)
  qed
  then have "add_int64 now (- v) = now - v" using r assms(2) by (simp add: add_int64_def)
  with v show ?thesis by simp
qed

lemma requireD: "require c m x = Some (Inr y) \<Longrightarrow> c \<and> x = Some (Inr y)"
  by (simp add: require_def split: if_splits)

lemma text_fieldD: "text_field j k f = Some (Inr y) \<Longrightarrow> \<exists>s. jstr j k [] = Some s \<and> f s = Some (Inr y)"
  by (simp add: text_field_def split: option.splits)

lemma openResource_passed:
  assumes "openResource S wc ct ns ad f = Some (Inr x)"
  shows "\<exists>plaintext plain. decryptResource wc ct ns ad = Inr plaintext \<and> parseJson S plaintext = (True, plain) \<and>
    f plaintext plain = Some (Inr x)"
  using assms by (auto simp: openResource_def split: sum.splits prod.splits dest!: requireD text_fieldD)

lemma openNotification_passed:
  assumes "openNotification C S pre noun now d f = Some (Inr x)"
  shows "verifySignature C d \<and> isTimestampFresh now (d_timestamp d) = None \<and>
    (\<exists>wc ct ns plaintext notify plain. wechatClient C = Some wc \<and> decryptResource wc ct ns noun = Inr plaintext \<and>
       f notify plaintext plain = Some (Inr x))"
  using assms
  by (auto simp: openNotification_def readEnvelope_def readResource_def split: option.splits prod.splits
      dest!: requireD text_fieldD openResource_passed) blast

lemma handled_only_if_passed:
  assumes "snd (handlePaymentCallback e C S d w) \<noteq> w"
  shows "\<exists>n. openNotification C S ''TRANSACTION.'' ''transaction'' (nowSeconds e w) d paymentNotice = Some (Inr n) \<and>
    checkNonce C (d_nonce d) (tick w)"
  using assms by (auto simp: handlePaymentCallback_def split: option.splits sum.splits if_splits)

lemma refund_handled_only_if_passed:
  assumes "snd (handleRefundCallback e C S d w) \<noteq> w"
  shows "\<exists>n. openNotification C S ''REFUND.'' ''refund'' (nowSeconds e w) d refundNotice = Some (Inr n) \<and>
    checkNonce C (d_nonce d) (tick w)"
  using assms by (auto simp: handleRefundCallback_def split: option.splits sum.splits if_splits)

section \<open>The transaction of a payment notification\<close>

lemma exec_ok_in_txn:
  assumes "exec e f w = (Inr a, w')" "txn_of w = InTxn s"
  shows "f (tabs w) = Inr (a, tabs w') \<and> txn_of w' = InTxn s"
  using assms by (auto simp: exec_def Let_def settle_others_def split: option.splits sum.splits prod.splits)

lemma first_read:
  assumes "mapper e (reads q) w = (Ok a, w')" "txn_of w = NoTxn"
  shows "q (others e (tick w) (tabs w)) = Inr a \<and> tabs w' = others e (tick w) (tabs w) \<and> txn_of w' = NoTxn"
  using assms
  by (auto simp: mapper_def exec_def Let_def settle_others_def reads_def abort_def
      split: option.splits sum.splits prod.splits)

lemma ok_is_not_failure [simp]:
  "okReply \<noteq> failed m ec" "okReply \<noteq> internal c" "okReply \<noteq> callbackMapperFailure" "okReply \<noteq> stillInProgress"
  "okReply \<noteq> refuse m" "okReply \<noteq> badAmount m"
  by (simp_all add: okReply_def failed_def internal_def callbackMapperFailure_def stillInProgress_def refuse_def
      badAmount_def jobject_def less_char_def)

definition settled_for :: "string \<Rightarrow> tables \<Rightarrow> bool" where
  "settled_for on t \<longleftrightarrow> (\<exists>p \<in> set (t_payments t). p_order_no p = on \<and> p_status p \<in> {''SUCCESS'', ''REFUNDED''})"

lemma settled_for_stmts:
  "set_order_status on' st t = Inr (n, t') \<Longrightarrow> settled_for on t' = settled_for on t"
  "insert_ledger row t = Inr (u, t') \<Longrightarrow> settled_for on t' = settled_for on t"
  "finalize_stmt k tok snap t = Inr (n, t') \<Longrightarrow> settled_for on t' = settled_for on t"
  by (auto simp: settled_for_def set_order_status_def update_orders_def insert_ledger_def finalize_stmt_def Let_def
      split: if_splits)

lemma finalize_ack:
  assumes "finalizeAndCommit e k tok snap w = (rs, w')" "okReply \<in> set rs"
    and "txn_of w = InTxn s \<and> settled_for on (tabs w) \<or> txn_of w = Aborted"
  shows "txn_of w' = NoTxn \<and> settled_for on (tabs w')"
proof -
  obtain r w1 where f: "exec e (finalize_stmt k tok snap) w = (r, w1)" by fastforce
  have "txn_of w \<noteq> Aborted" using assms(1,2) f by (auto simp: finalizeAndCommit_def exec_def Let_def split: sum.splits)
  with assms(3) have t: "txn_of w = InTxn s" "settled_for on (tabs w)" by auto
  from assms(1,2) f obtain n where r: "r = Inr n" "n \<noteq> 0" by (cases r) (auto simp: finalizeAndCommit_def split: if_splits)
  from exec_ok_in_txn [OF f [unfolded r(1)] t(1)] settled_for_stmts(3) t(2)
  have w1: "txn_of w1 = InTxn s" "settled_for on (tabs w1)" by blast+
  obtain c w2 where c: "exec_commit e w1 = (c, w2)" by fastforce
  then have "c = None" "w' = w2" using assms(1,2) f r by (auto simp: finalizeAndCommit_def split: option.splits)
  with c w1 commit_in_txn [of e w1 c w2 s] show ?thesis by (simp add: exec_commit_def)
qed

lemma write_order_ack:
  assumes "writeNotifiedOrder e order st pn k tok snap w = (rs, w')" "okReply \<in> set rs"
    and "txn_of w = InTxn s" "settled_for on (tabs w)" "st \<in> {''PAID'', ''REFUNDED''}"
  shows "txn_of w' = NoTxn \<and> settled_for on (tabs w')"
proof -
  obtain r w1 where o: "mapper e (set_order_status (o_order_no order) st) w = (r, w1)" by fastforce
  with assms(1,2) obtain n where r: "r = Ok n"
    by (cases r) (auto simp: writeNotifiedOrder_def)
  from mapper_in_txn [OF o assms(3)] r settled_for_stmts(1) assms(4)
  have w1: "txn_of w1 = InTxn s" "settled_for on (tabs w1)" by auto
  let ?row = "callbackLedgerRow e order pn ''PAYMENT'' (o_amount order) w1"
  obtain l w2 where l: "mapper e (insert_ledger ?row) w1 = (l, w2)" by fastforce
  from mapper_in_txn [OF l w1(1)] settled_for_stmts(2) w1(2)
  have "txn_of w2 = InTxn s \<and> settled_for on (tabs w2) \<or> txn_of w2 = Aborted"
    by (cases l) auto
  moreover have "finalizeAndCommit e k tok snap w2 = (rs, w')"
    using assms(1,5) o r l by (auto simp: writeNotifiedOrder_def)
  ultimately show ?thesis using finalize_ack assms(2) by blast
qed

lemma resolve_in_txn:
  assumes "resolveNotified e st order w = (st', w')" "txn_of w = InTxn s"
  shows "txn_of w' = InTxn s \<and> tabs w' = tabs w \<or> txn_of w' = Aborted"
    and "st \<in> {''PAID'', ''REFUNDED''} \<Longrightarrow> st' \<in> {''PAID'', ''REFUNDED''}"
proof -
  obtain x w1 where x: "exec e (reads (refund_sum e (o_order_no order))) w = (x, w1)" by fastforce
  show "txn_of w' = InTxn s \<and> tabs w' = tabs w \<or> txn_of w' = Aborted"
  proof (cases x)
    case (Inl a)
    with exec_in_txn [OF x assms(2)] assms x show ?thesis by (auto simp: resolveNotified_def split: if_splits)
  next
    case (Inr b)
    from exec_ok_in_txn [OF x [unfolded Inr] assms(2)] have "txn_of w1 = InTxn s" "tabs w1 = tabs w"
      by (auto simp: reads_def split: sum.splits)
    with assms x Inr show ?thesis by (auto simp: resolveNotified_def split: if_splits)
  qed
  show "st' \<in> {''PAID'', ''REFUNDED''}" if "st \<in> {''PAID'', ''REFUNDED''}"
    using assms(1) that x
    by (auto simp: resolveNotified_def orderStatusAfterRefundCoverage_def resolveRefundedOrderStatus_def Let_def
        split: if_splits sum.splits)
qed

lemma insert_callback_frame:
  "insert_callback row t = Inr (u, t') \<Longrightarrow> t_payments t' = t_payments t \<and> t_orders t' = t_orders t \<and> t_ledger t' = t_ledger t"
  by (auto simp: insert_callback_def split: if_splits)

lemma cas_settles:
  assumes "cas_payment ''SUCCESS'' tx payload pn t = Inr (rows, t')" "p \<in> set (t_payments t)" "open_attempt pn p"
  shows "rows \<noteq> 0" "settled_for (p_order_no p) t'"
proof -
  let ?f = "\<lambda>r. r\<lparr>p_status := ''SUCCESS'', p_channel_trade_no := Some tx, p_response_payload := Some payload\<rparr>"
  have u: "rows = length (filter (open_attempt pn) (t_payments t))"
    "t_payments t' = update_where (open_attempt pn) ?f (t_payments t)"
    using assms(1) by (auto simp: cas_payment_def update_payments_def split: if_splits)
  show "rows \<noteq> 0" using u(1) assms(2,3) by (auto simp: filter_empty_conv)
  have "?f p \<in> set (t_payments t')" using u(2) assms(2,3) by (force simp: set_update_where)
  then show "settled_for (p_order_no p) t'" unfolding settled_for_def by (rule rev_bexI) simp
qed

lemma settle_notified_ack:
  assumes "settleNotified e d n tok p order w = (rs, w')" "okReply \<in> set rs" "txn_of w = InTxn s"
    and "p \<in> set (t_payments (tabs w))" "p_status p \<in> {''INIT'', ''PROCESSING''}" "p_order_no p = on"
    and "n_state n \<in> {''SUCCESS'', ''REFUND''}"
  shows "txn_of w' = NoTxn \<and> settled_for on (tabs w')"
proof -
  obtain ost where m: "mapTradeState (n_state n) = (ost, ''SUCCESS'')" "ost \<in> {''PAID'', ''REFUNDED''}"
    using assms(7) by (auto simp: mapTradeState_def)
  obtain st w1 where r: "resolveNotified e ost order w = (st, w1)" by fastforce
  let ?row = "callbackRow e d (p_payment_no p) w1"
  obtain c w2 where c: "mapper e (insert_callback ?row) w1 = (c, w2)" by fastforce
  from assms(1,2) m(1) r c have "c = Ok ()" by (cases c) (auto simp: settleNotified_def)
  moreover have "txn_of w1 \<noteq> Aborted"
    using c \<open>c = Ok ()\<close> by (auto simp: mapper_def exec_def Let_def split: option.splits if_splits)
  ultimately have w1: "txn_of w1 = InTxn s" "tabs w1 = tabs w" "st \<in> {''PAID'', ''REFUNDED''}"
    using resolve_in_txn [OF r assms(3)] m(2) by auto
  have "insert_callback ?row (tabs w1) = Inr ((), tabs w2)" "txn_of w2 = InTxn s"
    using mapper_in_txn [OF c w1(1)] \<open>c = Ok ()\<close> by auto
  then have w2: "t_payments (tabs w2) = t_payments (tabs w)" "txn_of w2 = InTxn s"
    using w1(2) insert_callback_frame by auto
  obtain x w3 where x: "exec e (cas_payment ''SUCCESS'' (n_channelId n) (n_plaintext n) (p_payment_no p)) w2 = (x, w3)" by fastforce
  from assms(1,2) m(1) r c x \<open>c = Ok ()\<close> obtain rows where x2: "x = Inr rows"
    by (cases x) (auto simp: settleNotified_def)
  from exec_ok_in_txn [OF x [unfolded x2] w2(2)]
  have cas: "cas_payment ''SUCCESS'' (n_channelId n) (n_plaintext n) (p_payment_no p) (tabs w2) = Inr (rows, tabs w3)"
    "txn_of w3 = InTxn s" by auto
  have "p \<in> set (t_payments (tabs w2))" "open_attempt (p_payment_no p) p"
    using assms(4,5) w2(1) by (simp_all add: open_attempt_def)
  from cas_settles [OF cas(1) this] assms(6) have "rows \<noteq> 0" and "settled_for on (tabs w3)" by simp_all
  then show ?thesis
    using write_order_ack [of e order st "p_payment_no p" "n_key n" tok "n_plaintext n" w3 rs w' s on]
      assms(1,2) m(1) r c x x2 \<open>c = Ok ()\<close> cas(2) w1(3) by (auto simp: settleNotified_def)
qed

lemma problem_not_ok: "noticeProblem n p order = Some (Some problem) \<Longrightarrow> okReply \<noteq> problem"
  by (auto simp: noticeProblem_def Let_def split: option.splits if_splits)

lemma payment_txn_ack:
  assumes "paymentTxn e d n tok w = (rs, w')" "okReply \<in> set rs" "txn_of w = InTxn s" "tabs w = s"
    and "n_state n \<in> {''SUCCESS'', ''REFUND''}"
  shows "settled_for (n_number n) (tabs (end_txn e w'))"
proof -
  obtain r w1 where m: "mapper e (reads (latest_payment (n_number n))) w = (r, w1)" by fastforce
  from assms(1,2) m obtain p where r: "r = Ok (Some p)" by (cases r) (auto simp: paymentTxn_def split: option.splits)
  from mapper_in_txn [OF m assms(3)] r assms(4)
  have w1: "txn_of w1 = InTxn s" "tabs w1 = s" "latest_payment (n_number n) s = Inr (Some p)"
    by (auto simp: reads_def split: sum.splits)
  then have p: "p \<in> set (t_payments s)" "p_order_no p = n_number n"
    "p_status p \<in> {''INIT'', ''PROCESSING'', ''SUCCESS'', ''REFUNDED''}"
    by (auto simp: latest_payment_def carries_money_def dest!: latest_by_in)
  show ?thesis
  proof (cases "p_status p \<in> {''SUCCESS'', ''REFUNDED''}")
    case True
    then have "w' = rollback w1" using assms(1) m r by (auto simp: paymentTxn_def)
    with end_rollback [of w1 s e] w1(1) have "tabs (end_txn e w') = s" by simp
    with p(1,2) True show ?thesis by (auto simp: settled_for_def)
  next
    case False
    obtain x w2 where x: "exec e (reads (select_orders (\<lambda>r. o_order_no r = p_order_no p))) w1 = (x, w2)" by fastforce
    from assms(1,2) m r False x obtain order where x2: "x = Inr [order]"
      by (auto simp: paymentTxn_def split: sum.splits list.splits)
    from exec_ok_in_txn [OF x [unfolded x2] w1(1)] w1(2)
    have w2: "txn_of w2 = InTxn s" "tabs w2 = s" by (auto simp: reads_def split: sum.splits)
    have "noticeProblem n p order = Some None"
      using assms(1,2) m r False x x2 problem_not_ok by (auto simp: paymentTxn_def split: option.splits)
    then have "settleNotified e d n tok p order w2 = (rs, w')"
      using assms(1) m r False x x2 by (auto simp: paymentTxn_def)
    from settle_notified_ack [OF this assms(2) w2(1) _ _ p(2) assms(5)] p False w2(2)
    have "txn_of w' = NoTxn" "settled_for (n_number n) (tabs w')" by auto
    then show ?thesis by (simp add: end_txn_def commit_txn_def Let_def)
  qed
qed

text \<open>
  C40: an acknowledged payment is booked. Take any environment: any statement may fail, any
  other request may write in between. If a delivery of a notification that says the trade
  was paid (or paid and refunded) is answered with success, then either the notification was
  already finalized when it was looked up, or a payment of its order is settled in the tables
  the handler leaves. The channel stops its retries only then.
\<close>

theorem acknowledged_is_booked:
  assumes "openNotification C S ''TRANSACTION.'' ''transaction'' (nowSeconds e w) d paymentNotice = Some (Inr n)"
    and "n_state n \<in> {''SUCCESS'', ''REFUND''}" "txn_of w = NoTxn"
    and "handlePaymentCallback e C S d w = (rs, w')" "okReply \<in> set rs"
  shows "(\<exists>r \<in> set (t_idem (others e (tick w) (tabs w))). i_key r = n_key n \<and> i_snapshot r \<noteq> None) \<or>
     (\<exists>p \<in> set (t_payments (tabs w')). p_order_no p = n_number n \<and> p_status p \<in> {''SUCCESS'', ''REFUNDED''})"
proof -
  let ?process = "\<lambda>token. in_txn e (paymentTxn e d n token)"
  have h: "withNotice e C S d (n_key n) (recordDuplicate e d (n_number n)) ?process w = (rs, w')"
    using assms(1,4,5) by (auto simp: handlePaymentCallback_def split: if_splits)
  obtain x w1 where x: "mapper e (reads (select_idem (n_key n))) w = (x, w1)" by fastforce
  have booked: "settled_for (n_number n) (tabs w')" if r: "reserveNotice e C S d (n_key n) ?process w1 = (rs, w')"
    and "txn_of w1 = NoTxn"
  proof -
    obtain token rows w2 where w2: "in_txn e (paymentTxn e d n token) w2 = (rs, w')" "txn_of w2 = NoTxn"
      using r assms(5) \<open>txn_of w1 = NoTxn\<close>
      by (auto simp: reserveNotice_def exec_def Let_def settle_others_def abort_def
          split: prod.splits sum.splits if_splits option.splits)
    then obtain w3 where w3: "begin_txn e w2 = Some w3" using assms(5) by (auto simp: in_txn_def split: option.splits)
    obtain rs' w4 where w4: "paymentTxn e d n token w3 = (rs', w4)" by fastforce
    with w2(1) w3 have "rs' = rs" "w' = end_txn e w4" by (simp_all add: in_txn_def)
    with payment_txn_ack [OF w4, of "tabs w3"] begin_txn_opens [OF w3 w2(2)] assms(2,5) show ?thesis by simp
  qed
  show ?thesis
  proof (cases x)
    case (Ok rows)
    from first_read [OF x [unfolded Ok] assms(3)] have rows: "txn_of w1 = NoTxn"
      "rows = filter (\<lambda>r. i_key r = n_key n) (t_idem (others e (tick w) (tabs w)))" by (auto simp: select_idem_def)
    show ?thesis
    proof (cases "\<exists>r. rows = [r]")
      case True
      then obtain r where r: "rows = [r]" ..
      then have "r \<in> set (t_idem (others e (tick w) (tabs w)))" "i_key r = n_key n"
        using rows(2) by (auto dest!: filter_eq_ConsD)
      moreover have "i_snapshot r \<noteq> None" using h x Ok r assms(5) by (auto simp: withNotice_def split: if_splits)
      ultimately show ?thesis by blast
    next
      case False
      then have "reserveNotice e C S d (n_key n) ?process w1 = (rs, w')"
        using h x Ok by (auto simp: withNotice_def split: list.splits)
      with booked rows(1) show ?thesis by (auto simp: settled_for_def)
    qed
  qed (use h x assms(5) in \<open>auto simp: withNotice_def\<close>)
qed

section \<open>The amount gate\<close>

lemma end_txn_same:
  "txn_of w \<in> {InTxn s, Aborted} \<Longrightarrow> tabs w = s \<Longrightarrow> tabs (end_txn e w) = s"
  by (auto simp: end_txn_def commit_txn_def Let_def split: option.splits)

lemma payment_txn_gate:
  assumes "paymentTxn e d n tok w = (rs, w')" "txn_of w = InTxn s" "tabs w = s"
    and "\<And>p order. latest_payment (n_number n) s = Inr (Some p) \<Longrightarrow> noticeProblem n p order \<noteq> Some None"
  shows "tabs (end_txn e w') = s"
proof -
  have undone: "tabs (end_txn e (rollback v)) = s" if "txn_of v \<in> {InTxn s, Aborted}" "tabs v = s" for v
    using that end_rollback [of v s e] by auto
  obtain r w1 where m: "mapper e (reads (latest_payment (n_number n))) w = (r, w1)" by fastforce
  have w1: "txn_of w1 \<in> {InTxn s, Aborted}" "tabs w1 = s" "r = Ok x \<Longrightarrow> txn_of w1 = InTxn s \<and> latest_payment (n_number n) s = Inr x" for x
    using mapper_in_txn [OF m assms(2)] assms(3) by (cases r; auto simp: reads_def split: sum.splits)+
  show ?thesis
  proof (cases "\<exists>p. r = Ok (Some p) \<and> p_status p \<notin> {''SUCCESS'', ''REFUNDED''}")
    case False
    then have "w' = w1 \<or> w' = rollback w1" using assms(1) m by (auto simp: paymentTxn_def split: dbres.splits option.splits if_splits)
    with undone [OF w1(1,2)] end_txn_same [OF w1(1,2)] show ?thesis by blast
  next
    case True
    then obtain p where p: "r = Ok (Some p)" "p_status p \<notin> {''SUCCESS'', ''REFUNDED''}" by blast
    obtain x w2 where x: "exec e (reads (select_orders (\<lambda>r. o_order_no r = p_order_no p))) w1 = (x, w2)" by fastforce
    have w2: "txn_of w2 \<in> {InTxn s, Aborted}" "tabs w2 = s"
      using exec_in_txn [OF x, of s] exec_ok_in_txn [of e _ w1 _ w2 s] x w1(2) w1(3) [OF p(1)]
      by (cases x; force simp: reads_def split: sum.splits)+
    have "w' = w2 \<or> w' = rollback w2" using assms(1,4) m p x w1(3) [OF p(1)]
      by (auto simp: paymentTxn_def split: sum.splits list.splits option.splits if_splits)
    with undone [OF w2] end_txn_same [OF w2] show ?thesis by blast
  qed
qed

text \<open>Statements outside a transaction, with nobody else writing, that leave the payments alone.\<close>

definition pays_kept :: "(tables \<Rightarrow> pg_error + ('a \<times> tables)) \<Rightarrow> bool" where
  "pays_kept f \<longleftrightarrow> (\<forall>t a t'. f t = Inr (a, t') \<longrightarrow> t_payments t' = t_payments t)"

lemma pays_kept_stmts [simp]:
  "pays_kept (reads q)" "pays_kept (reserve_owned k h tok x)" "pays_kept (drop_stmt k)" "pays_kept (insert_callback row)"
  by (auto simp: pays_kept_def reads_def notice_stmts split: sum.splits if_splits)

lemma outside_frame:
  assumes "others e = (\<lambda>_ t. t)" "txn_of w = NoTxn" "pays_kept f"
  shows "exec e f w = (r, w') \<Longrightarrow> t_payments (tabs w') = t_payments (tabs w) \<and> txn_of w' = NoTxn"
    and "mapper e f w = (q, w') \<Longrightarrow> t_payments (tabs w') = t_payments (tabs w) \<and> txn_of w' = NoTxn"
  using assms
  by (auto simp: pays_kept_def mapper_def exec_def Let_def settle_others_def abort_def
      split: option.splits sum.splits prod.splits)

lemma duplicate_frame:
  assumes "recordDuplicate e d on w = (rs, w')" "others e = (\<lambda>_ t. t)" "txn_of w = NoTxn"
  shows "t_payments (tabs w') = t_payments (tabs w)"
proof -
  obtain r w1 where m: "mapper e (reads (latest_payment on)) w = (r, w1)" by fastforce
  note w1 = outside_frame(2) [OF assms(2,3) pays_kept_stmts(1) m]
  have "t_payments (tabs w2) = t_payments (tabs w1)" if "mapper e (insert_callback row) w1 = (q, w2)" for row q w2
    using outside_frame(2) [OF assms(2) conjunct2 [OF w1] pays_kept_stmts(4) that] by simp
  with assms m w1 show ?thesis
    by (auto simp: recordDuplicate_def split: dbres.splits option.splits prod.splits)
qed

lemma payments_changed:
  assumes "others e = (\<lambda>_ t. t)" "txn_of w = NoTxn"
    and "withNotice e C S d k (recordDuplicate e d on) (\<lambda>token. in_txn e (paymentTxn e d n token)) w = (rs, w')"
    and "t_payments (tabs w') \<noteq> t_payments (tabs w)"
  shows "\<exists>p order. p \<in> set (t_payments (tabs w)) \<and> p_order_no p = n_number n \<and> noticeProblem n p order = Some None"
proof -
  let ?process = "\<lambda>token. in_txn e (paymentTxn e d n token)"
  obtain x w1 where x: "mapper e (reads (select_idem k)) w = (x, w1)" by fastforce
  note w1 = outside_frame(2) [OF assms(1,2) pays_kept_stmts(1) x]
  have "t_payments (tabs (dropUnfinalizedReservation e k w1)) = t_payments (tabs w1)"
    using outside_frame(2) [OF assms(1) conjunct2 [OF w1] pays_kept_stmts(3) prod.collapse [symmetric]]
    by (simp add: dropUnfinalizedReservation_def)
  with assms(3,4) x w1 duplicate_frame [OF _ assms(1), of d on w1 rs w']
  have r: "reserveNotice e C S d k ?process w1 = (rs, w')"
    by (auto simp: withNotice_def split: dbres.splits list.splits if_splits)
  let ?tok = "newReservationToken S (tick w1)"
  obtain y w2 where y: "exec e (reserve_owned k (getMd5 C (d_body d)) ?tok (clock e (tick w1) + week)) w1 = (y, w2)" by fastforce
  note w2 = outside_frame(1) [OF assms(1) conjunct2 [OF w1] pays_kept_stmts(2) y]
  with r y w1 assms(4) have p: "in_txn e (paymentTxn e d n ?tok) w2 = (rs, w')"
    by (auto simp: reserveNotice_def Let_def split: sum.splits if_splits)
  with assms(4) w1 w2 obtain w3 where w3: "begin_txn e w2 = Some w3"
    by (auto simp: in_txn_def split: option.splits)
  note opened = begin_txn_opens [OF w3 conjunct2 [OF w2]]
  obtain rs' w4 where w4: "paymentTxn e d n ?tok w3 = (rs', w4)" by fastforce
  have "\<exists>q order. latest_payment (n_number n) (tabs w3) = Inr (Some q) \<and> noticeProblem n q order = Some None"
  proof (rule ccontr)
    assume "\<not> ?thesis"
    then have "tabs (end_txn e w4) = tabs w3" using payment_txn_gate [OF w4, of "tabs w3"] opened by auto
    with p w3 w4 opened assms(1,4) w1 w2 show False by (simp add: in_txn_def)
  qed
  then obtain q order where q: "latest_payment (n_number n) (tabs w3) = Inr (Some q)" "noticeProblem n q order = Some None"
    by blast
  with latest_in [OF q(1)] opened assms(1) w1 w2 show ?thesis by auto
qed

lemma passed_amount:
  assumes "noticeProblem n p order = Some None"
  shows "\<exists>amount fen. jget (n_plain n) ''amount'' JNull = Some amount \<and>
    Option.bind (jget amount ''total'' (JInt 0)) asInt64 = Some fen \<and> 0 < fen \<and> parseAmountToFen (p_amount p) = Some fen"
  using assms by (auto simp: noticeProblem_def split: option.splits if_splits prod.splits)


section \<open>A notification settles once\<close>

lemma quiet_exec_runs:
  assumes "quiet e" "txn_of w \<noteq> Aborted" "f (tabs w) = Inr (a, t)"
  shows "\<exists>w'. exec e f w = (Inr a, w') \<and> tabs w' = t \<and> txn_of w' = txn_of w"
  using quiet_exec [where f = f, OF assms] by simp

lemma quiet_finalize:
  assumes "quiet e" "txn_of w = InTxn s" "finalize_stmt k tok snap (tabs w) = Inr (Suc m, t)"
  shows "\<exists>w'. finalizeAndCommit e k tok snap w = ([okReply], w') \<and> tabs w' = t \<and> txn_of w' = NoTxn"
proof -
  from quiet_exec_runs [where f = "finalize_stmt k tok snap", OF assms(1) _ assms(3)] assms(2)
  obtain w1 where w1: "exec e (finalize_stmt k tok snap) w = (Inr (Suc m), w1)" "tabs w1 = t" "txn_of w1 = InTxn s" by auto
  from quiet_commit [OF assms(1) w1(3)] w1 show ?thesis by (simp add: finalizeAndCommit_def exec_commit_def)
qed

text \<open>The tables after the write of a paid order: order, income entry and finalized key.\<close>

lemma quiet_write_notified:
  assumes "quiet e" "txn_of w = InTxn s" "keyed o_order_no (t_orders (tabs w))" "order \<in> set (t_orders (tabs w))"
    and "\<not> list_ex (income_of pn) (t_ledger (tabs w))" "ledger_fits (income_row order pn 0)"
    and "pn \<in> p_payment_no ` set (t_payments (tabs w))"
    and "\<And>t. t_idem t = t_idem (tabs w) \<Longrightarrow> finalize_stmt k tok snap t = Inr (Suc m, t\<lparr>t_idem := idem\<rparr>)"
  shows "\<exists>w' now. writeNotifiedOrder e order ''PAID'' pn k tok snap w = ([okReply], w') \<and> txn_of w' = NoTxn \<and>
     tabs w' = (order_written order ''PAID'' (tabs w))\<lparr>t_ledger := t_ledger (tabs w) @ [income_row order pn now], t_idem := idem\<rparr>"
proof -
  let ?t = "order_written order ''PAID'' (tabs w)"
  have "\<exists>n. set_order_status (o_order_no order) ''PAID'' (tabs w) = Inr (n, ?t)"
    using update_where_key [OF assms(3,4)] by (simp add: set_order_status_def update_orders_def order_written_def)
  then obtain n where n: "set_order_status (o_order_no order) ''PAID'' (tabs w) = Inr (n, ?t)" ..
  from quiet_mapper_runs [where f = "set_order_status (o_order_no order) ''PAID''", OF assms(1) _ n] assms(2)
  obtain w1 where w1: "mapper e (set_order_status (o_order_no order) ''PAID'') w = (Ok n, w1)" "tabs w1 = ?t" "txn_of w1 = InTxn s"
    by auto
  let ?row = "callbackLedgerRow e order pn ''PAYMENT'' (o_amount order) w1"
  have row: "?row = income_row order pn (clock e (tick w1))" by (simp add: callbackLedgerRow_def income_row_def)
  let ?t2 = "?t\<lparr>t_ledger := t_ledger (tabs w) @ [?row]\<rparr>"
  have "o_order_no order \<in> o_order_no ` set (t_orders ?t)"
    using assms(4) keys_update_where [of o_order_no "\<lambda>r. r\<lparr>o_status := ''PAID''\<rparr>" "\<lambda>r. r = order" "t_orders (tabs w)"]
    by (auto simp: order_written_def)
  then have "insert_ledger ?row (tabs w1) = Inr ((), ?t2)"
    using assms(5-7) w1(2) unfolding row
    by (auto simp: insert_ledger_def income_row_def income_of_def ledger_fits_def order_written_def)
  from quiet_mapper_runs [where f = "insert_ledger ?row", OF assms(1) _ this] w1(3)
  obtain w2 where w2: "mapper e (insert_ledger ?row) w1 = (Ok (), w2)" "tabs w2 = ?t2" "txn_of w2 = InTxn s" by auto
  have "finalize_stmt k tok snap (tabs w2) = Inr (Suc m, ?t2\<lparr>t_idem := idem\<rparr>)"
    using assms(8) [of "tabs w2"] w2(2) by (simp add: order_written_def)
  from quiet_finalize [OF assms(1) w2(3) this] w1(1) w2(1) row show ?thesis
    by (auto simp: writeNotifiedOrder_def)
qed

definition notified :: "payment_row \<Rightarrow> order_row \<Rightarrow> notice \<Rightarrow> callback_row \<Rightarrow> ledger_row \<Rightarrow> idem_row \<Rightarrow> tables \<Rightarrow> tables" where
  "notified p order n crow lrow irow t =
     (order_written order ''PAID'' (payment_settled p ''SUCCESS'' (n_channelId n) (n_plaintext n) t))
       \<lparr>t_callbacks := t_callbacks t @ [crow], t_ledger := t_ledger t @ [lrow],
        t_idem := t_idem t @ [irow\<lparr>i_snapshot := Some (n_plaintext n)\<rparr>]\<rparr>"

lemma quiet_settle_notified:
  assumes "quiet e" "txn_of w = InTxn s" "n_state n = ''SUCCESS''"
    and "keyed o_order_no (t_orders (tabs w))" "order \<in> set (t_orders (tabs w))"
    and "keyed p_payment_no (t_payments (tabs w))" "p \<in> set (t_payments (tabs w))" "p_status p \<in> {''INIT'', ''PROCESSING''}"
    and "\<not> list_ex (income_of (p_payment_no p)) (t_ledger (tabs w))" "ledger_fits (income_row order (p_payment_no p) 0)"
    and "callback_fits (callbackRow e d (p_payment_no p) w)" "fits 64 (n_channelId n)"
    and "t_idem (tabs w) = rows @ [irow]" "n_key n \<notin> i_key ` set rows" "i_key irow = n_key n" "i_owner_token irow = Some tok"
  shows "\<exists>w' now. settleNotified e d n tok p order w = ([okReply], w') \<and> txn_of w' = NoTxn \<and>
     tabs w' = notified p order n (callbackRow e d (p_payment_no p) w) (income_row order (p_payment_no p) now) irow
       ((tabs w)\<lparr>t_idem := rows\<rparr>)"
proof -
  let ?row = "callbackRow e d (p_payment_no p) w" and ?pn = "p_payment_no p"
  let ?t1 = "(tabs w)\<lparr>t_callbacks := t_callbacks (tabs w) @ [?row]\<rparr>"
  have "insert_callback ?row (tabs w) = Inr ((), ?t1)"
    using assms(7,11) by (auto simp: insert_callback_def callbackRow_def)
  from quiet_mapper_runs [where f = "insert_callback ?row", OF assms(1) _ this] assms(2)
  obtain w1 where w1: "mapper e (insert_callback ?row) w = (Ok (), w1)" "tabs w1 = ?t1" "txn_of w1 = InTxn s" by auto
  let ?t2 = "payment_settled p ''SUCCESS'' (n_channelId n) (n_plaintext n) ?t1"
  from quiet_cas [OF assms(1), of w1 p "n_channelId n" "''SUCCESS''" "n_plaintext n"] w1(2,3) assms(6-8,12)
  obtain k w2 where w2: "k > 0" "exec e (cas_payment ''SUCCESS'' (n_channelId n) (n_plaintext n) ?pn) w1 = (Inr k, w2)"
    "tabs w2 = ?t2" "txn_of w2 = InTxn s" by auto
  have keys: "?pn \<in> p_payment_no ` set (t_payments ?t2)"
    using assms(7) by (force simp: payment_settled_def set_update_where)
  let ?P = "\<lambda>r. i_key r = n_key n \<and> i_owner_token r = Some tok"
  have rows: "\<not> ?P r" if "r \<in> set rows" for r using that assms(14) by (metis imageI)
  then have f: "filter ?P rows = []" "update_where ?P g rows = rows" for g
    by (simp_all add: filter_empty_conv update_where_id)
  have fin: "finalize_stmt (n_key n) tok (n_plaintext n) t =
      Inr (Suc 0, t\<lparr>t_idem := rows @ [irow\<lparr>i_snapshot := Some (n_plaintext n)\<rparr>]\<rparr>)" if "t_idem t = rows @ [irow]" for t
    using that f assms(15,16) by (simp add: finalize_stmt_def update_where_def)
  have idem: "t_idem (tabs w2) = rows @ [irow]" using w2(3) assms(13) by (simp add: payment_settled_def)
  have "\<exists>w' now. writeNotifiedOrder e order ''PAID'' ?pn (n_key n) tok (n_plaintext n) w2 = ([okReply], w') \<and> txn_of w' = NoTxn \<and>
     tabs w' = (order_written order ''PAID'' (tabs w2))\<lparr>t_ledger := t_ledger (tabs w2) @ [income_row order ?pn now],
       t_idem := rows @ [irow\<lparr>i_snapshot := Some (n_plaintext n)\<rparr>]\<rparr>"
    by (rule quiet_write_notified [OF assms(1) w2(4)])
      (use assms(4,5,9,10) w2(3) keys fin idem in \<open>simp_all add: payment_settled_def\<close>)
  then obtain w' now where w': "writeNotifiedOrder e order ''PAID'' ?pn (n_key n) tok (n_plaintext n) w2 = ([okReply], w')"
    "txn_of w' = NoTxn" "tabs w' = (order_written order ''PAID'' (tabs w2))\<lparr>t_ledger := t_ledger (tabs w2) @ [income_row order ?pn now],
       t_idem := rows @ [irow\<lparr>i_snapshot := Some (n_plaintext n)\<rparr>]\<rparr>" by blast
  have "settleNotified e d n tok p order w = ([okReply], w')"
    using w1(1) w2(1,2) w'(1) assms(3) by (simp add: settleNotified_def mapTradeState_def resolveNotified_def)
  moreover have "tabs w' = notified p order n ?row (income_row order ?pn now) irow ((tabs w)\<lparr>t_idem := rows\<rparr>)"
    using w'(3) w2(3) by (simp add: notified_def payment_settled_def order_written_def)
  ultimately show ?thesis using w'(2) by blast
qed

lemma callback_fits_any: "callback_fits (callbackRow e d pn v) = callback_fits (callbackRow e d pn w)"
  by (simp add: callback_fits_def callbackRow_def)

lemma quiet_payment_txn:
  assumes "quiet e" "txn_of w = NoTxn" "n_state n = ''SUCCESS''" "noticeProblem n p order = Some None"
    and "wf_tables (tabs w)" "latest_payment (n_number n) (tabs w) = Inr (Some p)" "p_status p \<in> {''INIT'', ''PROCESSING''}"
    and "order \<in> set (t_orders (tabs w))" "o_order_no order = n_number n"
    and "\<not> list_ex (income_of (p_payment_no p)) (t_ledger (tabs w))" "ledger_fits (income_row order (p_payment_no p) 0)"
    and "callback_fits (callbackRow e d (p_payment_no p) w)" "fits 64 (n_channelId n)"
    and "t_idem (tabs w) = rows @ [irow]" "n_key n \<notin> i_key ` set rows" "i_key irow = n_key n" "i_owner_token irow = Some tok"
  shows "\<exists>w' v now. in_txn e (paymentTxn e d n tok) w = ([okReply], w') \<and> txn_of w' = NoTxn \<and>
     tabs w' = notified p order n (callbackRow e d (p_payment_no p) v) (income_row order (p_payment_no p) now) irow
       ((tabs w)\<lparr>t_idem := rows\<rparr>)"
proof -
  let ?w1 = "(next_tick w)\<lparr>txn_of := InTxn (tabs w)\<rparr>" and ?q = "latest_payment (n_number n)"
  let ?qo = "select_orders (\<lambda>r. o_order_no r = p_order_no p)"
  have k: "keyed o_order_no (t_orders (tabs w))" "keyed p_payment_no (t_payments (tabs w))"
    using assms(5) by (simp_all add: wf_tables_def)
  note p = latest_in [OF assms(6)]
  from quiet_read [where q = ?q, OF assms(1), of ?w1] assms(6)
  have m: "mapper e (reads ?q) ?w1 = (Ok (Some p), next_tick ?w1)" by simp
  have "?qo (tabs w) = Inr [order]"
    using keyed_filter_key [OF k(1) assms(8)] p assms(9) by (simp add: select_orders_def)
  with quiet_exec_read [where q = ?qo, OF assms(1), of "next_tick ?w1"]
  have x: "exec e (reads ?qo) (next_tick ?w1) = (Inr [order], next_tick (next_tick ?w1))" by simp
  let ?w2 = "next_tick (next_tick ?w1)"
  have "\<exists>w' now. settleNotified e d n tok p order ?w2 = ([okReply], w') \<and> txn_of w' = NoTxn \<and>
     tabs w' = notified p order n (callbackRow e d (p_payment_no p) ?w2) (income_row order (p_payment_no p) now) irow
       ((tabs ?w2)\<lparr>t_idem := rows\<rparr>)"
    by (rule quiet_settle_notified [OF assms(1)])
      (use assms k p callback_fits_any [of e d "p_payment_no p" w ?w2] in simp_all)
  then obtain w' now where w': "settleNotified e d n tok p order ?w2 = ([okReply], w')" "txn_of w' = NoTxn"
    "tabs w' = notified p order n (callbackRow e d (p_payment_no p) ?w2) (income_row order (p_payment_no p) now) irow
       ((tabs w)\<lparr>t_idem := rows\<rparr>)" by auto
  have "paymentTxn e d n tok ?w1 = ([okReply], w')"
    using m x w'(1) assms(4,7) by (auto simp: paymentTxn_def)
  then have "in_txn e (paymentTxn e d n tok) w = ([okReply], end_txn e w')"
    using quiet_begin [OF assms(1,2)] by (simp add: in_txn_def)
  moreover have "tabs (end_txn e w') = tabs w'" "txn_of (end_txn e w') = NoTxn"
    using w'(2) by (simp_all add: end_txn_def commit_txn_def Let_def)
  ultimately show ?thesis using w'(3) by metis
qed

lemma quiet_duplicate:
  assumes "quiet e" "txn_of w = NoTxn" "i_snapshot r \<noteq> None" "filter (\<lambda>r. i_key r = k) (t_idem (tabs w)) = [r]"
    and "latest_payment on (tabs w) = Inr (Some p)" "callback_fits (callbackRow e d (p_payment_no p) w)"
  shows "\<exists>w' v. withNotice e C S d k (recordDuplicate e d on) process w = ([okReply], w') \<and>
     tabs w' = (tabs w)\<lparr>t_callbacks := t_callbacks (tabs w) @ [callbackRow e d (p_payment_no p) v]\<rparr>"
proof -
  let ?w1 = "next_tick w" and ?w2 = "next_tick (next_tick w)"
  let ?row = "callbackRow e d (p_payment_no p) ?w2"
  have "mapper e (reads (select_idem k)) w = (Ok [r], ?w1)"
    using quiet_read [where q = "select_idem k", OF assms(1)] assms(2,4) by (simp add: select_idem_def)
  moreover have "mapper e (reads (latest_payment on)) ?w1 = (Ok (Some p), ?w2)"
    using quiet_read [where q = "latest_payment on", OF assms(1), of ?w1] assms(2,5) by simp
  moreover have "insert_callback ?row (tabs ?w2) =
      Inr ((), (tabs w)\<lparr>t_callbacks := t_callbacks (tabs w) @ [?row]\<rparr>)"
    using latest_in [OF assms(5)] assms(6) callback_fits_any [of e d "p_payment_no p" w ?w2]
    by (auto simp: insert_callback_def callbackRow_def)
  from quiet_mapper_runs [where f = "insert_callback ?row", OF assms(1) _ this] assms(2)
  obtain w3 where "mapper e (insert_callback ?row) ?w2 = (Ok (), w3)"
    "tabs w3 = (tabs w)\<lparr>t_callbacks := t_callbacks (tabs w) @ [?row]\<rparr>" by auto
  ultimately show ?thesis using assms(3) by (auto simp: withNotice_def recordDuplicate_def)
qed

lemma latest_by_map:
  "(\<And>r. col (f r) = col r) \<Longrightarrow> latest_by col (map f xs) = map_option f (latest_by col xs)"
  by (induction xs) (auto split: option.splits)

text \<open>Settling keeps the row the latest one of its order.\<close>

lemma latest_settled:
  assumes "latest_payment on t = Inr (Some p)"
  shows "\<exists>q. latest_payment on (payment_settled p ''SUCCESS'' tx payload t) = Inr (Some q) \<and> p_payment_no q = p_payment_no p"
proof -
  let ?f = "\<lambda>r. if r = p then r\<lparr>p_status := ''SUCCESS'', p_channel_trade_no := Some tx, p_response_payload := Some payload\<rparr> else r"
  have c: "carries_money on (?f r) = carries_money on r" for r
    using assms by (auto simp: carries_money_def latest_payment_def dest: latest_by_in)
  have "latest_payment on (payment_settled p ''SUCCESS'' tx payload t) =
      Inr (latest_by p_created_at (map ?f (filter (carries_money on) (t_payments t))))"
    by (simp add: latest_payment_def payment_settled_def update_where_def filter_map o_def c)
  also have "\<dots> = Inr (map_option ?f (latest_by p_created_at (filter (carries_money on) (t_payments t))))"
    by (subst latest_by_map) simp_all
  finally show ?thesis using assms by (simp add: latest_payment_def)
qed

lemma reserveNotice_won:
  assumes "quiet e" "txn_of w = NoTxn" "k \<notin> i_key ` set (t_idem (tabs w))" "fits 128 k" "fits 64 (getMd5 C (d_body d))"
    and "fits 64 (newReservationToken S (tick (next_tick w)))"
  shows "\<exists>w' expires tok. withNotice e C S d k known process w = process tok w' \<and> txn_of w' = NoTxn \<and>
    tabs w' = (tabs w)\<lparr>t_idem := t_idem (tabs w) @ [\<lparr>i_key = k, i_hash = getMd5 C (d_body d), i_snapshot = None,
      i_expire_at = Some expires, i_owner_token = Some tok\<rparr>]\<rparr>"
proof -
  let ?w1 = "next_tick w"
  let ?tok = "newReservationToken S (tick ?w1)" and ?x = "clock e (tick ?w1) + week"
  let ?t = "(tabs w)\<lparr>t_idem := t_idem (tabs w) @ [\<lparr>i_key = k, i_hash = getMd5 C (d_body d), i_snapshot = None,
      i_expire_at = Some ?x, i_owner_token = Some ?tok\<rparr>]\<rparr>"
  have "select_idem k (tabs w) = Inr []" using assms(3) by (auto simp: select_idem_def filter_empty_conv)
  with quiet_read [where q = "select_idem k", OF assms(1)] assms(2)
  have m: "mapper e (reads (select_idem k)) w = (Ok [], ?w1)" by simp
  have r: "reserve_owned k (getMd5 C (d_body d)) ?tok ?x (tabs ?w1) = Inr (1, ?t)"
    using assms(3-6) by (simp add: reserve_owned_def)
  from quiet_exec_runs [where f = "reserve_owned k (getMd5 C (d_body d)) ?tok ?x", OF assms(1) _ r] assms(2)
  obtain w' where w': "exec e (reserve_owned k (getMd5 C (d_body d)) ?tok ?x) ?w1 = (Inr 1, w')" "tabs w' = ?t" "txn_of w' = NoTxn"
    by auto
  then have "withNotice e C S d k known process w = process ?tok w'"
    using m by (simp add: withNotice_def reserveNotice_def Let_def)
  with w' show ?thesis by blast
qed

text \<open>
  C39: a payment notification settles once. When nothing fails and nobody else writes, the
  first delivery of a paid notification that passes the gates is answered with success and
  leaves exactly this: the payment settled with the channel's transaction id, the order
  paid, one income entry, one audit row, and the key finalized under the delivery's token.
  A later delivery of the same notification is answered with success too and adds only
  its audit row.
\<close>

theorem payment_notification_settles_once:
  assumes "quiet e" "txn_of w = NoTxn" "wf_tables (tabs w)"
    and "openNotification C S ''TRANSACTION.'' ''transaction'' (nowSeconds e w) d paymentNotice = Some (Inr n)"
      "checkNonce C (d_nonce d) (tick w)"
    and "n_state n = ''SUCCESS''" "noticeProblem n p order = Some None"
    and "latest_payment (n_number n) (tabs w) = Inr (Some p)" "p_status p \<in> {''INIT'', ''PROCESSING''}"
      "order \<in> set (t_orders (tabs w))" "o_order_no order = n_number n"
    and "\<not> list_ex (income_of (p_payment_no p)) (t_ledger (tabs w))" "ledger_fits (income_row order (p_payment_no p) 0)"
      "callback_fits (callbackRow e d (p_payment_no p) w)" "fits 64 (n_channelId n)"
    and "n_key n \<notin> i_key ` set (t_idem (tabs w))" "fits 128 (n_key n)" "fits 64 (getMd5 C (d_body d))"
      "\<forall>now. fits 64 (newReservationToken S now)"
  shows "\<exists>w' v now expires token. handlePaymentCallback e C S d w = ([okReply], w') \<and> txn_of w' = NoTxn \<and>
     tabs w' = notified p order n (callbackRow e d (p_payment_no p) v) (income_row order (p_payment_no p) now)
       \<lparr>i_key = n_key n, i_hash = getMd5 C (d_body d), i_snapshot = None, i_expire_at = Some expires,
        i_owner_token = Some token\<rparr> (tabs w) \<and>
     (\<forall>d2 n2. openNotification C S ''TRANSACTION.'' ''transaction'' (nowSeconds e w') d2 paymentNotice = Some (Inr n2) \<and>
        checkNonce C (d_nonce d2) (tick w') \<and> n_key n2 = n_key n \<and> n_number n2 = n_number n \<and>
        callback_fits (callbackRow e d2 (p_payment_no p) w') \<longrightarrow>
        (\<exists>w2 v2. handlePaymentCallback e C S d2 w' = ([okReply], w2) \<and>
           tabs w2 = (tabs w')\<lparr>t_callbacks := t_callbacks (tabs w') @ [callbackRow e d2 (p_payment_no p) v2]\<rparr>))"
proof -
  let ?pn = "p_payment_no p" and ?h = "getMd5 C (d_body d)"
  let ?process = "\<lambda>token. in_txn e (paymentTxn e d n token)" and ?known = "recordDuplicate e d (n_number n)"
  obtain w1 expires token where w1: "withNotice e C S d (n_key n) ?known ?process w = ?process token w1" "txn_of w1 = NoTxn"
    "tabs w1 = (tabs w)\<lparr>t_idem := t_idem (tabs w) @ [\<lparr>i_key = n_key n, i_hash = ?h, i_snapshot = None,
      i_expire_at = Some expires, i_owner_token = Some token\<rparr>]\<rparr>"
    using reserveNotice_won [OF assms(1,2,16-18), of S ?known ?process] assms(19) by blast
  let ?irow = "\<lparr>i_key = n_key n, i_hash = ?h, i_snapshot = None, i_expire_at = Some expires, i_owner_token = Some token\<rparr>"
  have wf: "wf_tables (tabs w1)" using assms(3,16) w1(3) by (simp add: wf_tables_def keyed_append)
  have same: "latest_payment (n_number n) (tabs w1) = latest_payment (n_number n) (tabs w)"
    using w1(3) by (simp add: latest_payment_def)
  have "\<exists>w' v now. in_txn e (paymentTxn e d n token) w1 = ([okReply], w') \<and> txn_of w' = NoTxn \<and>
     tabs w' = notified p order n (callbackRow e d ?pn v) (income_row order ?pn now) ?irow ((tabs w1)\<lparr>t_idem := t_idem (tabs w)\<rparr>)"
    by (rule quiet_payment_txn [OF assms(1) w1(2)])
      (use assms wf same w1(3) callback_fits_any [of e d ?pn w w1] in simp_all)
  then obtain w' v now where w': "?process token w1 = ([okReply], w')" "txn_of w' = NoTxn"
    "tabs w' = notified p order n (callbackRow e d ?pn v) (income_row order ?pn now) ?irow (tabs w)"
    using w1(3) by auto
  have first: "handlePaymentCallback e C S d w = ([okReply], w')"
    using assms(4,5) w1(1) w'(1) by (simp add: handlePaymentCallback_def)
  obtain q where q: "latest_payment (n_number n) (tabs w') = Inr (Some q)" "p_payment_no q = ?pn"
    using latest_settled [OF assms(8), of "n_channelId n" "n_plaintext n"] w'(3)
    by (auto simp: notified_def order_written_def latest_payment_def payment_settled_def)
  have key: "filter (\<lambda>r. i_key r = n_key n) (t_idem (tabs w')) = [?irow\<lparr>i_snapshot := Some (n_plaintext n)\<rparr>]"
    using assms(16) w'(3) by (auto simp: notified_def filter_empty_conv) (metis imageI)
  have again: "\<exists>w2 v2. handlePaymentCallback e C S d2 w' = ([okReply], w2) \<and>
     tabs w2 = (tabs w')\<lparr>t_callbacks := t_callbacks (tabs w') @ [callbackRow e d2 ?pn v2]\<rparr>"
    if "openNotification C S ''TRANSACTION.'' ''transaction'' (nowSeconds e w') d2 paymentNotice = Some (Inr n2)"
      "checkNonce C (d_nonce d2) (tick w')" "n_key n2 = n_key n" "n_number n2 = n_number n"
      "callback_fits (callbackRow e d2 ?pn w')" for d2 n2
    using quiet_duplicate [OF assms(1) w'(2) _ key q(1), of d2 C S "\<lambda>token. in_txn e (paymentTxn e d2 n2 token)"] q(2) that
    by (simp add: handlePaymentCallback_def)
  show ?thesis
    by (rule exI [of _ w'], rule exI [of _ v], rule exI [of _ now], rule exI [of _ expires], rule exI [of _ token])
      (use first w'(2,3) again in blast)
qed

end
