(* ===== verification/Pay_Notice_Runs.thy ===== *)
theory Pay_Notice_Runs
  imports Pay_Notice
begin

text \<open>
  Concrete deliveries: the witnesses of the properties of the notification handlers, how
  often they answer, and an order that a notification takes back from \<open>PAID\<close>.
\<close>

section \<open>A sample delivery\<close>

definition sample_wechat :: wechat_client where
  "sample_wechat = \<lparr>verifyCallback = \<lambda>_ _ _ signature _. signature = ''sig'',
     decryptResource = \<lambda>_ _ _. Inr ''plain'', getAppId = ''app'', getMchId = ''mch''\<rparr>"

definition sample_callbacks :: callback_sys where
  "sample_callbacks = \<lparr>wechatClient = Some sample_wechat, redisSetNx = None, getMd5 = \<lambda>_. ''md5''\<rparr>"

definition envelope :: "string \<Rightarrow> string \<Rightarrow> json" where
  "envelope eventType noun =
     jobject [(''event_type'', JString eventType), (''id'', JString ''N1''), (''resource_type'', JString ''encrypt-resource''),
       (''resource'', jobject [(''algorithm'', JString ''AEAD_AES_256_GCM''), (''ciphertext'', JString ''c''),
          (''nonce'', JString ''n''), (''associated_data'', JString noun)])]"

definition notify_sys :: "json \<Rightarrow> json \<Rightarrow> sys" where
  "notify_sys notify plain = plain_sys\<lparr>getUuid := \<lambda>_. ''u-1'', parseJson := \<lambda>s. if s = ''body'' then (True, notify)
     else if s = ''plain'' then (True, plain) else (False, JNull)\<rparr>"

definition trade :: "string \<Rightarrow> json" where
  "trade state = jobject [(''out_trade_no'', JString ''ORD-000001''), (''transaction_id'', JString ''T1''),
     (''trade_state'', JString state), (''amount'', jobject [(''total'', JInt 150), (''currency'', JString ''CNY'')])]"

definition trade_sys :: "string \<Rightarrow> sys" where
  "trade_sys state = notify_sys (envelope ''TRANSACTION.SUCCESS'' ''transaction'') (trade state)"

definition refund_sys0 :: sys where
  "refund_sys0 = notify_sys (envelope ''REFUND.SUCCESS'' ''refund'')
     (jobject [(''out_refund_no'', JString ''R1''), (''out_trade_no'', JString ''ORD-000001''), (''refund_id'', JString ''W1''),
        (''refund_status'', JString ''SUCCESS''), (''amount'', jobject [(''refund'', JInt 150), (''currency'', JString ''CNY'')])])"

definition sample_delivery :: delivery where
  "sample_delivery = \<lparr>d_body = ''body'', d_signature = ''sig'', d_timestamp = ''12'', d_nonce = ''x'', d_serialNo = ''s''\<rparr>"

definition refunding_tables :: tables where
  "refunding_tables = no_rows\<lparr>t_orders := [paying_order\<lparr>o_status := ''PAID''\<rparr>],
     t_payments := [open_payment\<lparr>p_status := ''SUCCESS''\<rparr>],
     t_refunds := [\<lparr>r_refund_no = ''R1'', r_order_no = ''ORD-000001'', r_payment_no = ''P1'', r_status = ''REFUNDING'',
        r_amount = ''1.50'', r_channel_refund_no = None, r_response_payload = None, r_created_at = 0, r_updated_at = 0\<rparr>]\<rparr>"

definition summed :: env where
  "summed = calm\<lparr>numericSum := \<lambda>_. Some ''1.50''\<rparr>"

definition fault_at :: "nat \<Rightarrow> env" where
  "fault_at k = summed\<lparr>dbFault := \<lambda>n. if n = k then Some ''lost'' else None\<rparr>"

section \<open>How often a handler answers\<close>

definition one_answer :: "(reply list \<times> world) \<Rightarrow> bool" where
  "one_answer r \<longleftrightarrow> length (fst r) \<le> 1"

lemma one_answer_simps [simp]: "one_answer ([], w)" "one_answer ([r], w)"
  by (simp_all add: one_answer_def)

lemma one_answer_steps [simp]:
  "one_answer (recordDuplicate e d on w)" "one_answer (finalizeAndCommit e k tok snap w)"
  "one_answer (commitThenFinalize e k tok snap w)" "one_answer (acknowledgeAdvanced e d pn w)"
  by (auto simp: recordDuplicate_def finalizeAndCommit_def commitThenFinalize_def acknowledgeAdvanced_def Let_def
      split: prod.splits dbres.splits option.splits sum.splits)

lemma one_answer_payment: "one_answer (paymentTxn e d n tok w)"
proof -
  have w: "one_answer (writeNotifiedOrder e order st pn k tok snap v)" for order st pn k snap v
    by (auto simp: writeNotifiedOrder_def split: prod.splits dbres.splits)
  have "one_answer (settleNotified e d n tok p order v)" for p order v
    using w by (auto simp: settleNotified_def split: prod.splits dbres.splits sum.splits)
  then show ?thesis
    by (auto simp: paymentTxn_def split: prod.splits dbres.splits option.splits sum.splits list.splits)
qed

lemma answers_in_txn: "(\<And>v. length (fst (body v)) \<le> n) \<Longrightarrow> length (fst (in_txn e body w)) \<le> n"
  by (auto simp: in_txn_def split: option.splits prod.splits) (metis fst_conv)

lemma answers_with_notice:
  assumes "\<And>v. length (fst (known v)) \<le> n" "\<And>tok v. length (fst (process tok v)) \<le> n" "1 \<le> n"
  shows "length (fst (withNotice e C S d k known process w)) \<le> n"
  using assms by (auto simp: withNotice_def reserveNotice_def Let_def split: prod.splits dbres.splits list.splits sum.splits)

lemma perform_answers: "perform e j t w = (replies, queued, w') \<Longrightarrow> length replies + length queued \<le> 1"
  by (cases t) (auto simp: giveUp_def insertCallbackAndFinish_def coverageResult_def Let_def
      split: prod.splits sum.splits option.splits if_splits bool.splits)

lemma run_tasks_answers: "length (fst (run_tasks e j ts w)) \<le> length ts"
proof (induction e j ts w rule: run_tasks.induct)
  case (2 e j t ts w)
  obtain r queued w1 where p: "perform e j t w = (r, queued, w1)" by (metis prod_cases3)
  obtain r2 w2 where q: "run_tasks e j (ts @ queued) w1 = (r2, w2)" by fastforce
  from 2 [OF p [symmetric] refl] q perform_answers [OF p] show ?case by (simp add: p)
qed simp

lemma start_tasks_answers: "length (fst (startTasks e j w)) \<le> 2"
proof -
  obtain r ts w1 where s: "submitLedger e j (next_tick w) = (r, ts, w1)" by (metis prod_cases3)
  then have "length r + length ts \<le> 1"
    by (auto simp: submitLedger_def insertCallbackAndFinish_def giveUp_def build_def Let_def split: if_splits bool.splits)
  moreover have "length (fst (run_tasks e j (Payload # ts) w1)) \<le> Suc (length ts)"
    using run_tasks_answers [of e j "Payload # ts" w1] by simp
  ultimately show ?thesis using s
    by (auto simp: startTasks_def build_def simp del: run_tasks.simps split: prod.splits bool.splits)
qed

text \<open>
  C11: how often the channel is answered. The payment handler hands at most one reply to its
  callback, whatever fails. The refund handler hands over at most two, and two it can be:
  when the coverage sum fails after the audit row was queued, both error callbacks answer.
\<close>

theorem callback_reply_count:
  "length (fst (handlePaymentCallback e C S d w)) \<le> 1 \<and> length (fst (handleRefundCallback e C S d w)) \<le> 2 \<and>
   length (fst (handleRefundCallback (fault_at 9) sample_callbacks refund_sys0 sample_delivery (fresh refunding_tables))) = 2"
proof (intro conjI)
  have "length (fst (paymentTxn e d n tok v)) \<le> 1" for n tok v
    using one_answer_payment by (simp add: one_answer_def)
  moreover have "length (fst (recordDuplicate e d on v)) \<le> 1" for on v
    using one_answer_steps(1) by (simp only: one_answer_def)
  ultimately show "length (fst (handlePaymentCallback e C S d w)) \<le> 1"
    unfolding handlePaymentCallback_def
    by (auto intro!: answers_with_notice answers_in_txn simp del: One_nat_def split: option.splits sum.splits)
next
  have one: "length (fst (recordDuplicate e d on v)) \<le> 2" "length (fst (acknowledgeAdvanced e d pn v)) \<le> 2" for d on pn v
    using one_answer_steps(1) [of e d on v] one_answer_steps(4) [of e d pn v] by (simp_all add: one_answer_def)
  have known: "length (fst (recordDuplicateRefund e d n v)) \<le> 2" for n v
    using one(1) by (simp add: recordDuplicateRefund_def split: option.splits)
  have txn: "length (fst (refundNoticeTxn e j v)) \<le> 2" for j v
    using one(2) start_tasks_answers by (simp add: refundNoticeTxn_def split: prod.splits sum.splits)
  have "length (fst (refundOrderNotice e d n tok st r c v)) \<le> 2" for n tok st r c v
    using answers_in_txn [OF txn] by (auto simp: refundOrderNotice_def split: prod.splits dbres.splits)
  then have process: "length (fst (processRefundNotice e d n tok v)) \<le> 2" for n tok v
    by (auto simp: processRefundNotice_def Let_def split: prod.splits dbres.splits option.splits sum.splits)
  show "length (fst (handleRefundCallback e C S d w)) \<le> 2"
    unfolding handleRefundCallback_def
    by (auto intro!: answers_with_notice known process split: option.splits sum.splits)
  show "length (fst (handleRefundCallback (fault_at 9) sample_callbacks refund_sys0 sample_delivery (fresh refunding_tables))) = 2"
    by code_simp
qed

section \<open>A paid notification\<close>

definition sample_notice :: notice where
  "sample_notice = \<lparr>n_key = ''N1'', n_plaintext = ''plain'', n_plain = trade ''SUCCESS'', n_number = ''ORD-000001'',
     n_channelId = ''T1'', n_state = ''SUCCESS''\<rparr>"

lemma sample_opens:
  "openNotification sample_callbacks (trade_sys ''SUCCESS'') ''TRANSACTION.'' ''transaction''
     (nowSeconds calm (fresh paying_tables)) sample_delivery paymentNotice = Some (Inr sample_notice)"
  by code_simp

lemma sample_token: "\<forall>now. fits 64 (newReservationToken (trade_sys state) now)"
proof -
  have "newReservationToken (trade_sys state) now = ''u1''" for now
    by (simp add: newReservationToken_def trade_sys_def notify_sys_def)
  moreover have "fits 64 ''u1''" by code_simp
  ultimately show ?thesis by simp
qed

theorem acknowledged_is_booked_witness:
  "let w' = snd (handlePaymentCallback calm sample_callbacks (trade_sys ''SUCCESS'') sample_delivery (fresh paying_tables))
   in \<exists>p \<in> set (t_payments (tabs w')). p_order_no p = ''ORD-000001'' \<and> p_status p \<in> {''SUCCESS'', ''REFUNDED''}"
proof -
  have "okReply \<in> set (fst (handlePaymentCallback calm sample_callbacks (trade_sys ''SUCCESS'') sample_delivery (fresh paying_tables)))"
    by code_simp
  from acknowledged_is_booked [OF sample_opens _ _ surjective_pairing this] show ?thesis
    by (auto simp: sample_notice_def fresh_def calm_def paying_tables_def no_rows_def)
qed


theorem payment_notification_settles_once_witness:
  "let w' = snd (handlePaymentCallback calm sample_callbacks (trade_sys ''SUCCESS'') sample_delivery (fresh paying_tables));
       second = handlePaymentCallback calm sample_callbacks (trade_sys ''SUCCESS'') sample_delivery w'
   in fst second = [okReply] \<and> t_payments (tabs (snd second)) = t_payments (tabs w')"
proof -
  let ?w = "fresh paying_tables" and ?S = "trade_sys ''SUCCESS''"
  let ?w' = "snd (handlePaymentCallback calm sample_callbacks ?S sample_delivery ?w)"
  have again: "openNotification sample_callbacks ?S ''TRANSACTION.'' ''transaction'' (nowSeconds calm ?w') sample_delivery
     paymentNotice = Some (Inr sample_notice)" "callback_fits (callbackRow calm sample_delivery ''P1'' ?w')"
     "checkNonce sample_callbacks (d_nonce sample_delivery) (tick ?w')"
    by code_simp+
  have "\<exists>w' v now expires token. handlePaymentCallback calm sample_callbacks ?S sample_delivery ?w = ([okReply], w') \<and> txn_of w' = NoTxn \<and>
     tabs w' = notified open_payment paying_order sample_notice (callbackRow calm sample_delivery (p_payment_no open_payment) v)
       (income_row paying_order (p_payment_no open_payment) now)
       \<lparr>i_key = n_key sample_notice, i_hash = getMd5 sample_callbacks (d_body sample_delivery), i_snapshot = None,
        i_expire_at = Some expires, i_owner_token = Some token\<rparr> (tabs ?w) \<and>
     (\<forall>d2 n2. openNotification sample_callbacks ?S ''TRANSACTION.'' ''transaction'' (nowSeconds calm w') d2 paymentNotice = Some (Inr n2) \<and>
        checkNonce sample_callbacks (d_nonce d2) (tick w') \<and> n_key n2 = n_key sample_notice \<and> n_number n2 = n_number sample_notice \<and>
        callback_fits (callbackRow calm d2 (p_payment_no open_payment) w') \<longrightarrow>
        (\<exists>w2 v2. handlePaymentCallback calm sample_callbacks ?S d2 w' = ([okReply], w2) \<and>
           tabs w2 = (tabs w')\<lparr>t_callbacks := t_callbacks (tabs w') @ [callbackRow calm d2 (p_payment_no open_payment) v2]\<rparr>))"
    by (rule payment_notification_settles_once [OF quiet_calm]) (rule sample_opens | simp add: fresh_def wf_paying; fail | rule sample_token | code_simp)+
  then obtain w' where w': "?w' = w'"
     "\<forall>d2 n2. openNotification sample_callbacks ?S ''TRANSACTION.'' ''transaction'' (nowSeconds calm w') d2 paymentNotice = Some (Inr n2) \<and>
        checkNonce sample_callbacks (d_nonce d2) (tick w') \<and> n_key n2 = n_key sample_notice \<and> n_number n2 = n_number sample_notice \<and>
        callback_fits (callbackRow calm d2 (p_payment_no open_payment) w') \<longrightarrow>
        (\<exists>w2 v2. handlePaymentCallback calm sample_callbacks ?S d2 w' = ([okReply], w2) \<and>
           tabs w2 = (tabs w')\<lparr>t_callbacks := t_callbacks (tabs w') @ [callbackRow calm d2 (p_payment_no open_payment) v2]\<rparr>)"
    by auto
  have "p_payment_no open_payment = ''P1''" by (simp add: open_payment_def)
  with w'(2) [rule_format, of sample_delivery sample_notice] again show ?thesis
    unfolding w'(1) by (auto simp: Let_def)
qed

section \<open>An order taken back from PAID\<close>

text \<open>
  An order paid by its first attempt, with a second attempt still open: a notification that
  the trade was closed is booked on the second attempt, and the order goes from \<open>PAID\<close> to
  \<open>CLOSED\<close>. The reconcile doors leave a paid order alone.
\<close>

definition second_attempt :: tables where
  "second_attempt = no_rows\<lparr>t_orders := [paying_order\<lparr>o_status := ''PAID''\<rparr>],
     t_payments := [open_payment\<lparr>p_status := ''SUCCESS''\<rparr>, open_payment\<lparr>p_payment_no := ''P2'', p_created_at := 5\<rparr>]\<rparr>"

lemma notification_takes_back_paid_order:
  "let w' = snd (handlePaymentCallback calm sample_callbacks (trade_sys ''CLOSED'') sample_delivery (fresh second_attempt))
   in map o_status (t_orders (tabs w')) = [''CLOSED''] \<and> map p_status (t_payments (tabs w')) = [''SUCCESS'', ''FAIL'']"
  by code_simp

end
