(* ===== verification/Pay_Reconcile.thy ===== *)
theory Pay_Reconcile
  imports Pay_Query Pay_Callback_Laws
begin

text \<open>
  \<open>services/ReconciliationService.cc\<close>: the timer, its options, and the sweep over pending orders
  and refunds. \<open>reconcile\<close> submits its lookups and returns; the rows, the channel answers and
  the doors they go through come later, in any order. What is outstanding is a list of
  jobs, and a step runs one of them, wherever it stands in the list; between the statements
  of a job the environment acts, other jobs included.
\<close>

section \<open>The service\<close>

text \<open>
  The channels the service was built with, each with the answer of its \<open>isConfigured\<close>;
  \<open>rc_active\<close> are the timers of the service that run on their loop. A timer id is not zero.
\<close>

record reconciler =
  rc_channels :: "string \<Rightarrow> (channel \<times> bool) option"
  rc_hasDb :: bool
  rc_interval :: int
  rc_batch :: int
  rc_timer :: nat
  rc_loop :: bool
  rc_active :: "nat set"

definition newReconciler :: "(string \<Rightarrow> (channel \<times> bool) option) \<Rightarrow> bool \<Rightarrow> reconciler" where
  "newReconciler channels db =
     \<lparr>rc_channels = channels, rc_hasDb = db, rc_interval = 300, rc_batch = 50, rc_timer = 0, rc_loop = False, rc_active = {}\<rparr>"

definition rc_findChannel :: "reconciler \<Rightarrow> string \<Rightarrow> channel option" where
  "rc_findChannel R name = map_option fst (rc_channels R name)"

definition isConfigured :: "reconciler \<Rightarrow> string \<Rightarrow> bool" where
  "isConfigured R name = (case rc_channels R name of None \<Rightarrow> False | Some (_, configured) \<Rightarrow> configured)"

definition startReconcileTimer :: "nat \<Rightarrow> reconciler \<Rightarrow> reconciler" where
  "startReconcileTimer ident R = R\<lparr>rc_loop := True, rc_timer := ident, rc_active := insert ident (rc_active R)\<rparr>"

definition stopReconcileTimer :: "reconciler \<Rightarrow> reconciler" where
  "stopReconcileTimer R =
     (if rc_timer R \<noteq> 0 \<and> rc_loop R then R\<lparr>rc_active := rc_active R - {rc_timer R}, rc_timer := 0\<rparr> else R)"

definition setReconcileOptions :: "int \<Rightarrow> int \<Rightarrow> reconciler \<Rightarrow> reconciler" where
  "setReconcileOptions intervalSeconds batchSize R =
     (let R1 = (if 0 < intervalSeconds then R\<lparr>rc_interval := intervalSeconds\<rparr> else R)
      in if 0 < batchSize then R1\<lparr>rc_batch := batchSize\<rparr> else R1)"

section \<open>The sweep\<close>

datatype job =
    FindOrders string int
  | FindRefunds
  | PurgeKeys
  | AskOrder string string "int option"
  | AskRefund string

text \<open>What one sweep adds: a failure when its mapper cannot be built, else its lookup.\<close>

definition submit :: "env \<Rightarrow> job \<Rightarrow> nat \<times> job list \<times> world \<Rightarrow> nat \<times> job list \<times> world" where
  "submit e j = (\<lambda>(failedCount, js, w).
     case build e w of
       (True, w1) \<Rightarrow> (failedCount, js @ [j], w1)
     | (False, w1) \<Rightarrow> (Suc failedCount, js, w1))"

text \<open>\<open>syncPendingWeChatOrders\<close> and \<open>syncPendingAlipayOrders\<close>; the cutoff is five minutes ago.\<close>

definition syncPendingOrders :: "env \<Rightarrow> reconciler \<Rightarrow> string \<Rightarrow> nat \<times> job list \<times> world \<Rightarrow> nat \<times> job list \<times> world" where
  "syncPendingOrders e R name st =
     (if \<not> rc_hasDb R \<or> rc_findChannel R name = None then st
      else submit e (FindOrders name (clock e (tick (snd (snd st))) - 300000000)) st)"

definition syncPendingRefunds :: "env \<Rightarrow> reconciler \<Rightarrow> nat \<times> job list \<times> world \<Rightarrow> nat \<times> job list \<times> world" where
  "syncPendingRefunds e R st =
     (if \<not> rc_hasDb R \<or> rc_findChannel R ''wechat'' = None then st else submit e FindRefunds st)"

text \<open>The counts handed to the callback, the jobs left behind, and the world.\<close>

definition reconcile :: "env \<Rightarrow> reconciler \<Rightarrow> world \<Rightarrow> (nat \<times> nat) \<times> job list \<times> world" where
  "reconcile e R w =
     (let wx = isConfigured R ''wechat''; ali = isConfigured R ''alipay'';
          st1 = (if wx then syncPendingOrders e R ''wechat'' (0, [], w) else (0, [], w));
          st2 = (if ali then syncPendingOrders e R ''alipay'' st1 else st1);
          (failedCount, js, w1) = (if wx then syncPendingRefunds e R st2 else st2)
      in ((2 * of_bool wx + of_bool ali, failedCount), if rc_hasDb R then js @ [PurgeKeys] else js, w1))"

definition sweepable :: "string \<Rightarrow> int \<Rightarrow> order_row \<Rightarrow> bool" where
  "sweepable name cutoff r \<longleftrightarrow>
     o_status r \<in> {''PAYING'', ''CREATED''} \<and> o_channel r = name \<and> (o_status r = ''PAYING'' \<or> o_created_at r < cutoff)"

text \<open>
  \<open>ORDER BY updated_at DESC LIMIT n\<close>. The trigger stamps \<open>updated_at\<close> of an order; the tables
  do not keep it, and \<open>touched\<close> stands for it.
\<close>

definition select_pending_orders ::
  "(order_row \<Rightarrow> int) \<Rightarrow> string \<Rightarrow> int \<Rightarrow> int \<Rightarrow> tables \<Rightarrow> pg_error + order_row list" where
  "select_pending_orders touched name cutoff batch t =
     Inr (take (nat batch) (sort_key (\<lambda>r. - touched r) (filter (sweepable name cutoff) (t_orders t))))"

definition select_pending_refunds :: "int \<Rightarrow> tables \<Rightarrow> pg_error + refund_row list" where
  "select_pending_refunds batch t =
     Inr (take (nat batch) (sort_key (\<lambda>r. - r_updated_at r)
       (filter (\<lambda>r. r_status r \<in> {''REFUND_INIT'', ''REFUNDING''}) (t_refunds t))))"

text \<open>
  An expired trade that is still unpaid is closed on the channel. The door reads the whole
  answer first, and nothing follows when it throws.
\<close>

definition closesUnpaid :: "env \<Rightarrow> json \<Rightarrow> int option \<Rightarrow> world \<Rightarrow> bool" where
  "closesUnpaid e result expireAt w \<longleftrightarrow>
     jstr result ''trade_state'' [] = Some ''NOTPAY'' \<and> wechatAnswer result \<noteq> None \<and>
     (case expireAt of None \<Rightarrow> False | Some x \<Rightarrow> x < clock e (tick w))"

definition wechatSwept :: "env \<Rightarrow> sys \<Rightarrow> string \<Rightarrow> int option \<Rightarrow> json \<Rightarrow> world \<Rightarrow> world" where
  "wechatSwept e S orderNo expireAt result w =
     (let w1 = snd (syncOrderStatusFromWechat e S orderNo result w)
      in if closesUnpaid e result expireAt w
         then emit (ChannelCall ''wechat'' ''closeOrder'' (JString orderNo)) w1 else w1)"

definition askOrder :: "env \<Rightarrow> sys \<Rightarrow> reconciler \<Rightarrow> string \<Rightarrow> string \<Rightarrow> int option \<Rightarrow> world \<Rightarrow> world" where
  "askOrder e S R name orderNo expireAt w =
     (case rc_findChannel R name of
        None \<Rightarrow> w
      | Some ch \<Rightarrow>
          (let w1 = emit (ChannelCall name ''queryPayment'' (JString orderNo)) w
           in case ch_queryPayment ch (tick w1) orderNo of
                None \<Rightarrow> w1
              | Some (result, error) \<Rightarrow>
                  if error \<noteq> [] then w1
                  else if name = ''wechat'' then wechatSwept e S orderNo expireAt result w1
                  else snd (syncOrderStatusFromAlipay e S orderNo result w1)))"

definition askRefund :: "env \<Rightarrow> sys \<Rightarrow> reconciler \<Rightarrow> string \<Rightarrow> world \<Rightarrow> world" where
  "askRefund e S R refundNo w =
     (case rc_findChannel R ''wechat'' of
        None \<Rightarrow> w
      | Some ch \<Rightarrow>
          (let w1 = emit (ChannelCall ''wechat'' ''queryRefund'' (JString refundNo)) w
           in case ch_queryRefund ch (tick w1) refundNo of
                None \<Rightarrow> w1
              | Some (result, error) \<Rightarrow>
                  if error \<noteq> [] then w1 else snd (syncRefundStatusFromWechat e S refundNo result w1)))"

fun run_job :: "env \<Rightarrow> sys \<Rightarrow> reconciler \<Rightarrow> (nat \<Rightarrow> order_row \<Rightarrow> int) \<Rightarrow> job \<Rightarrow> world \<Rightarrow> job list \<times> world" where
  "run_job e S R touched (FindOrders name cutoff) w =
     (case exec e (reads (select_pending_orders (touched (tick w)) name cutoff (rc_batch R))) w of
        (Inr rows, w1) \<Rightarrow> (map (\<lambda>r. AskOrder name (o_order_no r) (o_expire_at r)) rows, w1)
      | (Inl _, w1) \<Rightarrow> ([], w1))"
| "run_job e S R touched FindRefunds w =
     (case exec e (reads (select_pending_refunds (rc_batch R))) w of
        (Inr rows, w1) \<Rightarrow> (map (AskRefund \<circ> r_refund_no) rows, w1)
      | (Inl _, w1) \<Rightarrow> ([], w1))"
| "run_job e S R touched PurgeKeys w = ([], snd (exec e (purge_stmt (dbClock e (tick w))) w))"
| "run_job e S R touched (AskOrder name orderNo expireAt) w = ([], askOrder e S R name orderNo expireAt w)"
| "run_job e S R touched (AskRefund refundNo) w = ([], askRefund e S R refundNo w)"

inductive sweep_step :: "env \<Rightarrow> sys \<Rightarrow> reconciler \<Rightarrow> (nat \<Rightarrow> order_row \<Rightarrow> int) \<Rightarrow> job list \<times> world \<Rightarrow> job list \<times> world \<Rightarrow> bool"
  for e S R touched where
  run: "run_job e S R touched j w = (new, w') \<Longrightarrow> sweep_step e S R touched (before @ j # after, w) (before @ after @ new, w')"

inductive_cases sweep_stepE: "sweep_step e S R touched (js, w) (js', w')"

section \<open>Invariants of the sweep\<close>

locale sweep_inv = settle: settle_inv I + door: refund_door_inv I for I +
  assumes purge_keeps: "I t \<Longrightarrow> purge_stmt now t = Inr (n, t') \<Longrightarrow> I t'"
begin

sublocale purged: stmt_inv I "purge_stmt now" for now
  by unfold_locales (rule purge_keeps)

lemma ask_order_holds: "stable I e \<Longrightarrow> holds I w \<Longrightarrow> holds I (askOrder e S R name on x w)"
  by (auto simp: askOrder_def wechatSwept_def Let_def intro!: settle.wechat_sync_holds settle.alipay_sync_holds
      split: option.splits)

lemma ask_refund_holds: "stable I e \<Longrightarrow> holds I w \<Longrightarrow> holds I (askRefund e S R rn w)"
  by (auto simp: askRefund_def Let_def intro!: door.sync_refund_holds split: option.splits)

lemma run_job_holds: "stable I e \<Longrightarrow> holds I w \<Longrightarrow> holds I (snd (run_job e S R touched j w))"
  by (cases j) (auto intro: ask_order_holds ask_refund_holds purged.exec_holds
      dest!: read_stmt.exec_holdsD [where I = I] split: prod.splits sum.splits)

lemma sweep_holds:
  assumes "(sweep_step e S R touched)\<^sup>*\<^sup>* (js, w) (js', w')" "stable I e" "holds I w"
  shows "holds I w'"
  using assms(1,3)
proof (induction rule: rtranclp_induct2)
  case (step js1 w1 js2 w2)
  then show ?case using run_job_holds [OF assms(2)] by (metis sweep_stepE snd_conv)
qed

end

section \<open>What the sweep sends\<close>

lemma txn_events [simp]:
  "events (rollback w) = events w" "events (end_txn e w) = events w" "begin_txn e w = Some w' \<Longrightarrow> events w' = events w"
  by (auto simp: rollback_def abort_def end_txn_def commit_txn_def begin_txn_def settle_others_def next_tick_def Let_def
      split: txn.splits option.splits if_splits)

lemma find_one_events: "find_one e q w = (r, w') \<Longrightarrow> events w' = events w"
  by (auto simp: find_one_def dest!: mapper_events split: prod.splits dbres.splits list.splits)

lemma stmt_events [simp]: "events (snd (mapper e f w)) = events w" "events (snd (exec e f w)) = events w"
  using mapper_events [OF prod.collapse [symmetric]] exec_events [OF prod.collapse [symmetric]] by blast+

lemmas quiet_events = mapper_events exec_events find_one_events txn_events(3)

lemma row_events [simp]: "events (insertRow e u on pn et am v) = events v"
  by (simp add: insertRow_def Let_def)

lemma ledger_events [simp]: "events (insertLedgerEntry e db u on pn et am w) = events w"
proof -
  let ?q = "find_ledger on et (if pn = [] then None else Some pn)"
  obtain r w1 where m: "mapper e (reads ?q) w = (r, w1)" by fastforce
  with mapper_events [OF m] show ?thesis
    by (cases r) (simp_all add: insertLedgerEntry_def Let_def)
qed

lemma write_order_events: "writeOrder e order st c pn w = (r, w') \<Longrightarrow> events w' = events w"
  by (auto simp: writeOrder_def dest!: quiet_events split: prod.splits dbres.splits if_splits)

lemma settle_order_events:
  "wechatSettleOrder e on st fen pn w = (r, w') \<Longrightarrow> events w' = events w"
  "alipaySettleOrder e on st fen pn w = (r, w') \<Longrightarrow> events w' = events w"
  by (auto simp: wechatSettleOrder_def alipaySettleOrder_def Let_def dest!: quiet_events write_order_events
      split: prod.splits dbres.splits if_splits list.splits)

lemma settle_payment_events:
  assumes "settlePayment e p ost pst tx pl f w = (r, w')" "\<And>v r v'. f v = (r, v') \<Longrightarrow> events v' = events v"
  shows "events w' = events w"
  using assms(1) by (auto simp: settlePayment_def dest!: quiet_events assms(2) split: prod.splits sum.splits if_splits)

lemma wechat_txn_events: "wechatTxn e p on ost pst tx pl w = (r, w') \<Longrightarrow> events w' = events w"
proof -
  have "settledRefundFen e on ost v = (fen, v') \<Longrightarrow> events v' = events v" for v fen v'
    by (auto simp: settledRefundFen_def dest!: quiet_events split: prod.splits sum.splits if_splits)
  then show "wechatTxn e p on ost pst tx pl w = (r, w') \<Longrightarrow> events w' = events w"
    by (auto simp: wechatTxn_def next_tick_def dest!: quiet_events settle_payment_events [OF _ settle_order_events(1)]
        split: prod.splits option.splits)
qed

lemma alipay_txn_events: "alipayTxn e p on ost pst tx pl fen w = (r, w') \<Longrightarrow> events w' = events w"
  by (auto simp: alipayTxn_def next_tick_def dest!: quiet_events settle_payment_events [OF _ settle_order_events(2)]
      split: prod.splits option.splits)

lemma door_events:
  "syncOrderStatusFromWechat e S on result w = (r, w') \<Longrightarrow> events w' = events w"
  "syncOrderStatusFromAlipay e S on result w = (r, w') \<Longrightarrow> events w' = events w"
  by (auto simp: syncOrderStatusFromWechat_def wechatSettle_def syncOrderStatusFromAlipay_def alipaySettle_def
      dest!: quiet_events wechat_txn_events alipay_txn_events
      split: prod.splits option.splits dbres.splits if_splits)

lemma refund_door_events: "syncRefundStatusFromWechat e S rn result w = (r, w') \<Longrightarrow> events w' = events w"
proof -
  have look: "ledgerLookup e u on pn et am v = (b, v') \<Longrightarrow> events v' = events v" for u on pn et am v b v'
    by (auto simp: ledgerLookup_def dest!: quiet_events split: prod.splits dbres.splits if_splits)
  have cover: "coverOrder e on order st s v = (r, v') \<Longrightarrow> events v' = events v" for on order st s v r v'
    by (auto simp: coverOrder_def Let_def dest!: quiet_events split: prod.splits dbres.splits if_splits)
  have settle: "settleRefund e refund st v = (r, v') \<Longrightarrow> events v' = events v" for refund st v r v'
    by (auto simp: settleRefund_def Let_def dest!: quiet_events look cover split: prod.splits dbres.splits if_splits sum.splits)
  have txn: "refundTxn e S refund st rid result now v = (r, v') \<Longrightarrow> events v' = events v" for refund st rid now v r v'
    by (auto simp: refundTxn_def dest!: quiet_events settle split: prod.splits dbres.splits if_splits)
  have "syncRefundRow e S rn result st rid v = (r, v') \<Longrightarrow> events v' = events v" for st rid v r v'
    by (auto simp: syncRefundRow_def next_tick_def dest!: quiet_events txn split: prod.splits dbres.splits if_splits option.splits)
  then show "syncRefundStatusFromWechat e S rn result w = (r, w') \<Longrightarrow> events w' = events w"
    by (auto simp: syncRefundStatusFromWechat_def Let_def split: option.splits if_splits)
qed

lemma door_snd_events [simp]:
  "events (snd (syncOrderStatusFromWechat e S on result w)) = events w"
  "events (snd (syncOrderStatusFromAlipay e S on result w)) = events w"
  "events (snd (syncRefundStatusFromWechat e S rn result w)) = events w"
  using door_events [OF prod.collapse [symmetric]] refund_door_events [OF prod.collapse [symmetric]] by blast+

definition call_of :: "string \<Rightarrow> string \<Rightarrow> event \<Rightarrow> bool" where
  "call_of c m ev = (case ev of ChannelCall c' m' _ \<Rightarrow> c' = c \<and> m' = m | RedisSetex _ _ \<Rightarrow> False)"

text \<open>How many calls of a method a job can still lead to, and how many steps.\<close>

fun quota :: "reconciler \<Rightarrow> string \<Rightarrow> string \<Rightarrow> job \<Rightarrow> nat" where
  "quota R c m (FindOrders name _) =
     (if m = ''queryPayment'' \<and> c = name \<or> m = ''closeOrder'' \<and> c = name \<and> c = ''wechat'' then nat (rc_batch R) else 0)"
| "quota R c m FindRefunds = (if m = ''queryRefund'' \<and> c = ''wechat'' then nat (rc_batch R) else 0)"
| "quota R c m PurgeKeys = 0"
| "quota R c m (AskOrder name _ _) =
     (if m = ''queryPayment'' \<and> c = name \<or> m = ''closeOrder'' \<and> c = name \<and> c = ''wechat'' then 1 else 0)"
| "quota R c m (AskRefund _) = (if m = ''queryRefund'' \<and> c = ''wechat'' then 1 else 0)"

fun job_cost :: "reconciler \<Rightarrow> job \<Rightarrow> nat" where
  "job_cost R (FindOrders _ _) = nat (rc_batch R) + 1"
| "job_cost R FindRefunds = nat (rc_batch R) + 1"
| "job_cost R _ = 1"

abbreviation total :: "('a \<Rightarrow> nat) \<Rightarrow> 'a list \<Rightarrow> nat" where
  "total f xs \<equiv> sum_list (map f xs)"

text \<open>The channel said of the order that it is unpaid, at a moment past the given deadline.\<close>

definition told_unpaid :: "env \<Rightarrow> reconciler \<Rightarrow> string \<Rightarrow> int \<Rightarrow> bool" where
  "told_unpaid e R on deadline \<longleftrightarrow>
     (\<exists>ch m result. rc_findChannel R ''wechat'' = Some ch \<and> ch_queryPayment ch m on = Some (result, []) \<and>
        jstr result ''trade_state'' [] = Some ''NOTPAY'' \<and> deadline < clock e m)"

lemma total_le: "(\<And>x. x \<in> set xs \<Longrightarrow> f x \<le> k) \<Longrightarrow> total f xs \<le> length xs * k"
  by (induction xs) (auto simp: add_mono)

lemma read_rows: "exec e (reads q) w = (Inr rows, w') \<Longrightarrow> q (tabs w') = Inr rows"
  by (auto simp: exec_def reads_def Let_def split: option.splits sum.splits if_splits)

lemma ask_order_calls:
  "\<exists>calls. events (askOrder e S R name on x w) = events w @ calls \<and>
     (\<forall>c m. length (filter (call_of c m) calls) \<le> quota R c m (AskOrder name on x)) \<and>
     (\<forall>on'. ChannelCall ''wechat'' ''closeOrder'' (JString on') \<in> set calls \<longrightarrow>
        name = ''wechat'' \<and> on' = on \<and> (\<exists>d. x = Some d \<and> told_unpaid e R on d))"
proof (cases "rc_findChannel R name")
  case (Some ch)
  let ?w1 = "emit (ChannelCall name ''queryPayment'' (JString on)) w"
  have one: "\<exists>calls. events v = events w @ calls \<and>
     (\<forall>c m. length (filter (call_of c m) calls) \<le> quota R c m (AskOrder name on x)) \<and>
     (\<forall>on'. ChannelCall ''wechat'' ''closeOrder'' (JString on') \<in> set calls \<longrightarrow>
        name = ''wechat'' \<and> on' = on \<and> (\<exists>d. x = Some d \<and> told_unpaid e R on d))" if "events v = events ?w1" for v
    using that by (intro exI [of _ "[ChannelCall name ''queryPayment'' (JString on)]"]) (auto simp: emit_def call_of_def)
  show ?thesis
  proof (cases "\<exists>result. ch_queryPayment ch (tick ?w1) on = Some (result, []) \<and> name = ''wechat'' \<and> closesUnpaid e result x ?w1")
    case True
    then obtain result where r: "ch_queryPayment ch (tick ?w1) on = Some (result, [])" "name = ''wechat''" "closesUnpaid e result x ?w1"
      by blast
    then obtain d where d: "x = Some d" "told_unpaid e R on d"
      using Some by (auto simp: closesUnpaid_def told_unpaid_def split: option.splits)
    have "events (askOrder e S R name on x w) =
        events w @ [ChannelCall name ''queryPayment'' (JString on), ChannelCall ''wechat'' ''closeOrder'' (JString on)]"
      using Some r by (simp add: askOrder_def wechatSwept_def Let_def emit_def)
    with r(2) d show ?thesis by (intro exI) (auto simp: call_of_def)
  next
    case False
    then have "events (askOrder e S R name on x w) = events ?w1"
      using Some by (auto simp: askOrder_def wechatSwept_def Let_def split: option.splits)
    then show ?thesis by (rule one)
  qed
qed (simp add: askOrder_def)

lemma ask_refund_calls:
  "\<exists>calls. events (askRefund e S R rn w) = events w @ calls \<and>
     (\<forall>c m. length (filter (call_of c m) calls) \<le> quota R c m (AskRefund rn)) \<and>
     (\<forall>on. ChannelCall ''wechat'' ''closeOrder'' on \<notin> set calls)"
proof -
  have "events (askRefund e S R rn w) \<in> {events w, events w @ [ChannelCall ''wechat'' ''queryRefund'' (JString rn)]}"
    by (auto simp: askRefund_def Let_def emit_def split: option.splits)
  then show ?thesis by (elim insertE) (auto simp: call_of_def)
qed

definition jobs_due :: "(string \<Rightarrow> int option \<Rightarrow> bool) \<Rightarrow> job list \<Rightarrow> bool" where
  "jobs_due due js \<longleftrightarrow> (\<forall>name on x. AskOrder name on x \<in> set js \<longrightarrow> due on x)"

lemma run_job_new:
  assumes "run_job e S R touched j w = (new, w')"
  shows "total (job_cost R) new < job_cost R j"
    and "\<forall>r \<in> set (t_orders (tabs w')). due (o_order_no r) (o_expire_at r) \<Longrightarrow> jobs_due due new"
proof -
  show "total (job_cost R) new < job_cost R j"
    using assms by (cases j) (auto simp: comp_def select_pending_orders_def select_pending_refunds_def sum_list_triv
        split: prod.splits sum.splits dest!: read_rows)
  show "jobs_due due new" if "\<forall>r \<in> set (t_orders (tabs w')). due (o_order_no r) (o_expire_at r)"
    using assms that by (cases j) (auto simp: jobs_due_def select_pending_orders_def split: prod.splits sum.splits
        dest!: read_rows in_set_takeD)
qed

lemma run_job_calls:
  assumes "run_job e S R touched j w = (new, w')"
  shows "\<exists>calls. events w' = events w @ calls \<and>
     (\<forall>c m. length (filter (call_of c m) calls) + total (quota R c m) new \<le> quota R c m j) \<and>
     (\<forall>on. ChannelCall ''wechat'' ''closeOrder'' (JString on) \<in> set calls \<longrightarrow>
        (\<exists>d. j = AskOrder ''wechat'' on (Some d) \<and> told_unpaid e R on d))"
proof (cases j)
  case (AskOrder name on x)
  then have n: "new = []" "w' = askOrder e S R name on x w" using assms by simp_all
  from ask_order_calls [of e S R name on x w] show ?thesis
    unfolding n AskOrder by (auto simp del: quota.simps)
next
  case (AskRefund rn)
  then have n: "new = []" "w' = askRefund e S R rn w" using assms by simp_all
  from ask_refund_calls [of e S R rn w] show ?thesis
    unfolding n AskRefund by (auto simp del: quota.simps)
next
  case (FindOrders name cutoff)
  have "total (quota R c m) new \<le> quota R c m j" for c m
    using assms FindOrders by (auto simp: comp_def select_pending_orders_def sum_list_triv split: prod.splits sum.splits dest!: read_rows)
  moreover have "events w' = events w"
    using assms FindOrders by (auto split: prod.splits sum.splits dest: exec_events)
  ultimately show ?thesis by (intro exI [of _ "[]"]) simp
next
  case FindRefunds
  have "total (quota R c m) new \<le> quota R c m j" for c m
    using assms FindRefunds by (auto simp: comp_def select_pending_refunds_def sum_list_triv split: prod.splits sum.splits dest!: read_rows)
  moreover have "events w' = events w"
    using assms FindRefunds by (auto split: prod.splits sum.splits dest: exec_events)
  ultimately show ?thesis by (intro exI [of _ "[]"]) simp
next
  case PurgeKeys
  with assms have "events w' = events w" "new = []" by auto
  then show ?thesis by simp
qed

lemma sweep_calls:
  assumes "(sweep_step e S R touched ^^ n) (js0, w0) (js, w)" "jobs_due due js0"
    and rows: "\<forall>ks v. (sweep_step e S R touched)\<^sup>*\<^sup>* (js0, w0) (ks, v) \<longrightarrow>
      (\<forall>r \<in> set (t_orders (tabs v)). due (o_order_no r) (o_expire_at r))"
  shows "n + total (job_cost R) js \<le> total (job_cost R) js0 \<and> jobs_due due js \<and>
    (\<exists>calls. events w = events w0 @ calls \<and>
       (\<forall>c m. length (filter (call_of c m) calls) + total (quota R c m) js \<le> total (quota R c m) js0) \<and>
       (\<forall>on. ChannelCall ''wechat'' ''closeOrder'' (JString on) \<in> set calls \<longrightarrow>
          (\<exists>d. due on (Some d) \<and> told_unpaid e R on d)))"
  using assms(1)
proof (induction n arbitrary: js w)
  case 0
  then show ?case using assms(2) by simp
next
  case (Suc n)
  then obtain js1 w1 where s: "(sweep_step e S R touched ^^ n) (js0, w0) (js1, w1)" "sweep_step e S R touched (js1, w1) (js, w)"
    by (metis relpowp_Suc_E surj_pair)
  from s(2) obtain j new before after where j: "run_job e S R touched j w1 = (new, w)"
    "js1 = before @ j # after" "js = before @ after @ new" by (blast elim: sweep_stepE)
  from Suc.IH [OF s(1)] obtain calls1 where ih: "n + total (job_cost R) js1 \<le> total (job_cost R) js0" "jobs_due due js1"
    "events w1 = events w0 @ calls1"
    "\<And>c m. length (filter (call_of c m) calls1) + total (quota R c m) js1 \<le> total (quota R c m) js0"
    "\<And>on. ChannelCall ''wechat'' ''closeOrder'' (JString on) \<in> set calls1 \<Longrightarrow> \<exists>d. due on (Some d) \<and> told_unpaid e R on d"
    by blast
  from run_job_calls [OF j(1)] obtain calls2 where c2: "events w = events w1 @ calls2"
    "\<And>c m. length (filter (call_of c m) calls2) + total (quota R c m) new \<le> quota R c m j"
    "\<And>on. ChannelCall ''wechat'' ''closeOrder'' (JString on) \<in> set calls2 \<Longrightarrow>
       \<exists>d. j = AskOrder ''wechat'' on (Some d) \<and> told_unpaid e R on d"
    by blast
  have "(sweep_step e S R touched)\<^sup>*\<^sup>* (js0, w0) (js, w)"
    using Suc.prems by (rule relpowp_imp_rtranclp)
  then have "jobs_due due new" using run_job_new(2) [OF j(1)] rows by blast
  with ih(2) have due: "jobs_due due js" unfolding j jobs_due_def by auto
  have cost: "Suc n + total (job_cost R) js \<le> total (job_cost R) js0"
    using ih(1) run_job_new(1) [OF j(1)] j by simp
  have calls: "length (filter (call_of c m) (calls1 @ calls2)) + total (quota R c m) js \<le> total (quota R c m) js0" for c m
    using ih(4) [of c m] c2(2) [of c m] unfolding j by simp
  have close: "\<exists>d. due on (Some d) \<and> told_unpaid e R on d"
    if "ChannelCall ''wechat'' ''closeOrder'' (JString on) \<in> set (calls1 @ calls2)" for on
    using that ih(2,5) c2(3) unfolding j(2) jobs_due_def by fastforce
  show ?case using cost due calls close ih(3) c2(1) by (intro conjI exI [of _ "calls1 @ calls2"]) auto
qed

lemma sweep_stuck: "(\<nexists>s. sweep_step e S R touched (js, w) s) \<longleftrightarrow> js = []"
proof (cases js)
  case (Cons j ks)
  have "\<exists>new w'. run_job e S R touched j w = (new, w')" by fastforce
  then obtain new w' where "run_job e S R touched j w = (new, w')" by blast
  from run [OF this, of "[]" ks] Cons show ?thesis by auto
qed (auto elim: sweep_step.cases)

lemma reconcile_jobs:
  assumes "reconcile e R w = ((ok, bad), js, w')"
  shows "total (job_cost R) js \<le> 3 * (nat (rc_batch R) + 1) + 1" "total (quota R c m) js \<le> nat (rc_batch R)"
    "jobs_due due js" "events w' = events w" "tabs w' = tabs w" "txn_of w' = txn_of w" "ok \<le> 3" "bad \<le> ok"
  using assms
  by (auto simp: reconcile_def syncPendingOrders_def syncPendingRefunds_def submit_def build_def Let_def jobs_due_def next_tick_def
      split: if_splits prod.splits bool.splits)

end
