(* ===== verification/Pay_Books.thy ===== *)
theory Pay_Books
  imports Pay_Qr Pay_Reconcile Pay_Notice_Runs "HOL-Library.Sublist"
begin

text \<open>
  The services together. A request runs one of the modelled flows to its end, in an
  environment in which other requests act between its statements; a history of the server
  is a sequence of such requests. Shown of every history: the schema invariant, and that the
  tables refine an append-only journal.
\<close>

section \<open>Histories\<close>

inductive served :: "env set \<Rightarrow> world \<Rightarrow> world \<Rightarrow> bool" for Es where
  create: "e \<in> Es \<Longrightarrow> served Es w (snd (createPayment e S rq key w))"
| qr: "e \<in> Es \<Longrightarrow> served Es w (snd (createQRPayment e S request w))"
| query: "e \<in> Es \<Longrightarrow> served Es w (snd (queryOrder e S on w))"
| wechat_door: "e \<in> Es \<Longrightarrow> served Es w (snd (syncOrderStatusFromWechat e S on result w))"
| alipay_door: "e \<in> Es \<Longrightarrow> served Es w (snd (syncOrderStatusFromAlipay e S on result w))"
| refund: "e \<in> Es \<Longrightarrow> createRefund e S rrq key w = Some (rep, w') \<Longrightarrow> served Es w w'"
| refund_query: "e \<in> Es \<Longrightarrow> served Es w (snd (queryRefund e S rn w))"
| payment_notice: "e \<in> Es \<Longrightarrow> served Es w (snd (handlePaymentCallback e C S d w))"
| refund_notice: "e \<in> Es \<Longrightarrow> served Es w (snd (handleRefundCallback e C S d w))"
| sweep: "e \<in> Es \<Longrightarrow> served Es w (snd (run_job e S R touched j w))"
| purge: "e \<in> Es \<Longrightarrow> served Es w (snd (purgeExpired e w))"

text \<open>What every service asks of an invariant of the tables, in one contract.\<close>

locale books_inv = books: refusal_inv I + notice: notice_inv I + sweep: sweep_inv I +
    refunding: refund_inv I "\<lambda>_. True" "\<lambda>_ _ _ _. True" for I
begin

lemma purge_holds: "stable I e \<Longrightarrow> holds I w \<Longrightarrow> holds I (snd (purgeExpired e w))"
  by (auto simp: purgeExpired_def dest!: sweep.purged.exec_holdsD split: prod.splits sum.splits)

lemma served_holds:
  assumes "served Es w w'" "\<forall>e \<in> Es. stable I e" "holds I w"
  shows "holds I w'"
  using assms
proof (induction rule: served.induct)
  case (refund e S rrq key w rep w')
  then show ?case using refunding.create_holds by blast
qed (auto intro: books.create_holds books.qr_holds notice.settle.query_order_holds notice.settle.wechat_sync_holds
    notice.settle.alipay_sync_holds notice.door.query_refund_holds notice.payment_callback_holds
    notice.refund_callback_holds sweep.run_job_holds purge_holds)

lemma history_holds:
  assumes "(served Es)\<^sup>*\<^sup>* w w'" "\<forall>e \<in> Es. stable I e" "holds I w"
  shows "holds I w'"
  using assms(1,3) by (induction rule: rtranclp_induct) (auto intro: served_holds [OF _ assms(2)])

end

interpretation wf_sweep: sweep_inv wf_tables
  by unfold_locales (rule purge.keeps)

interpretation wf_history: books_inv wf_tables
  by unfold_locales



section \<open>Settled payments\<close>



section \<open>The journal\<close>

text \<open>
  The abstract books: for every order, payment, refund and notification the terms it was
  entered with, and the ledger. The specification allows one thing only, to append.
\<close>

record journal =
  j_orders :: "(string \<times> int \<times> string \<times> string \<times> string \<times> string \<times> int option \<times> int) list"
  j_payments :: "(string \<times> string \<times> string \<times> int) list"
  j_refunds :: "(string \<times> string \<times> string \<times> string \<times> int) list"
  j_callbacks :: "(string \<times> string \<times> string \<times> string) list"
  j_ledger :: "ledger_row list"

definition order_terms :: "order_row \<Rightarrow> string \<times> int \<times> string \<times> string \<times> string \<times> string \<times> int option \<times> int" where
  "order_terms r = (o_order_no r, o_user_id r, o_amount r, o_currency r, o_channel r, o_title r, o_expire_at r, o_created_at r)"

definition payment_terms :: "payment_row \<Rightarrow> string \<times> string \<times> string \<times> int" where
  "payment_terms r = (p_payment_no r, p_order_no r, p_amount r, p_created_at r)"

definition refund_terms :: "refund_row \<Rightarrow> string \<times> string \<times> string \<times> string \<times> int" where
  "refund_terms r = (r_refund_no r, r_order_no r, r_payment_no r, r_amount r, r_created_at r)"

definition callback_terms :: "callback_row \<Rightarrow> string \<times> string \<times> string \<times> string" where
  "callback_terms r = (c_payment_no r, c_raw_body r, c_signature r, c_serial_no r)"

definition journal_of :: "tables \<Rightarrow> journal" where
  "journal_of t = \<lparr>j_orders = map order_terms (t_orders t), j_payments = map payment_terms (t_payments t),
     j_refunds = map refund_terms (t_refunds t), j_callbacks = map callback_terms (t_callbacks t),
     j_ledger = t_ledger t\<rparr>"

definition extends :: "journal \<Rightarrow> journal \<Rightarrow> bool" where
  "extends j j' \<longleftrightarrow>
     prefix (j_orders j) (j_orders j') \<and> prefix (j_payments j) (j_payments j') \<and>
     prefix (j_refunds j) (j_refunds j') \<and> prefix (j_callbacks j) (j_callbacks j') \<and> prefix (j_ledger j) (j_ledger j')"

definition grown :: "journal \<Rightarrow> tables \<Rightarrow> bool" where
  "grown j t \<longleftrightarrow> extends j (journal_of t)"

lemmas journal_terms = order_terms_def payment_terms_def refund_terms_def callback_terms_def

lemma terms_update [simp]:
  "(\<And>r. order_terms (f r) = order_terms r) \<Longrightarrow> map order_terms (update_where P f os) = map order_terms os"
  "(\<And>r. payment_terms (g r) = payment_terms r) \<Longrightarrow> map payment_terms (update_where Q g ps) = map payment_terms ps"
  "(\<And>r. refund_terms (h r) = refund_terms r) \<Longrightarrow> map refund_terms (update_where R h rs) = map refund_terms rs"
  by (simp_all add: map_key_update_where)

lemmas write_stmts = status_stmts refund_stmts refunded_order_def cas_payment_def set_order_status_def
  update_orders_def update_payments_def update_refunds_def insert_order_def insert_payment_def
  insert_refund_def insert_ledger_def idem_stmts notice_stmts

interpretation journal_history: books_inv "grown j" for j
proof (unfold_locales, goal_cases)
  case (26 e rq rn f tot w b w')
  show ?case
    by (rule booking_holds [where I = "grown j", OF _ 26(1-3)])
      (auto simp: grown_def extends_def journal_of_def insert_refund_def split: if_splits)
qed (auto simp: grown_def extends_def journal_of_def write_stmts journal_terms split: if_splits option.splits)

text \<open>
  C33: the tables refine an append-only journal. Over every history, with every fault and
  every interleaving in which the other requests only append too, no order, payment, refund,
  notification or ledger entry is ever removed or reordered, an entry keeps the terms it was
  booked with (numbers, owner, amounts, currency, channel, title, expiry, time), and a ledger
  entry is never changed at all.
\<close>

theorem history_refines_journal:
  assumes "(served Es)\<^sup>*\<^sup>* w w'" "txn_of w = NoTxn" "\<forall>e \<in> Es. stable (grown (journal_of (tabs w))) e"
  shows "extends (journal_of (tabs w)) (journal_of (tabs w'))"
proof -
  have "holds (grown (journal_of (tabs w))) w"
    using assms(2) by (simp add: holds_def grown_def extends_def)
  from journal_history.history_holds [OF assms(1,3) this] show ?thesis by (simp add: holds_def grown_def)
qed

theorem history_refines_journal_witness:
  "let w = fresh paying_tables; w' = snd (syncOrderStatusFromWechat calm plain_sys ''ORD-000001'' paid_answer w)
   in extends (journal_of (tabs w)) (journal_of (tabs w'))"
proof -
  let ?w = "fresh paying_tables"
  have "(served {calm})\<^sup>*\<^sup>* ?w (snd (syncOrderStatusFromWechat calm plain_sys ''ORD-000001'' paid_answer ?w))"
    by (rule r_into_rtranclp) (rule wechat_door, simp)
  from history_refines_journal [OF this] show ?thesis by (simp add: stable_def calm_def)
qed

section \<open>The sweep\<close>

lemma grown_order_terms:
  assumes "grown (journal_of t) t'" "wf_tables t'" "order \<in> set (t_orders t)" "r \<in> set (t_orders t')"
    and "o_order_no r = o_order_no order"
  shows "order_terms r = order_terms order"
proof -
  have "prefix (map order_terms (t_orders t)) (map order_terms (t_orders t'))"
    using assms(1) by (simp add: grown_def extends_def journal_of_def)
  then have "order_terms order \<in> order_terms ` set (t_orders t')"
    using assms(3) by (metis image_eqI list.set_map set_mono_prefix subsetD)
  then obtain r' where r': "r' \<in> set (t_orders t')" "order_terms r' = order_terms order" by auto
  then have "o_order_no r' = o_order_no r" using assms(5) by (simp add: order_terms_def)
  with r'(1) assms(2,4) have "r' = r" by (auto simp: wf_tables_def intro: keyed_unique)
  with r'(2) show ?thesis by simp
qed

text \<open>
  C5: a reconciliation sweep is bounded and closes only dead trades. Whatever fails, whatever
  the channels answer and in whatever order the outstanding work is done: after
  \<open>reconcile\<close> returns, at most \<open>3 * batch + 4\<close> steps follow, and no step is left only when
  nothing is outstanding. No method of a channel is called more often than the batch size
  allows. And an order that was in the tables is closed on the channel only if the channel
  said it was unpaid at a moment after the order's own deadline; an order without a
  deadline is never closed.
\<close>

theorem sweep_bounded:
  assumes "reconcile e R w = (counts, jobs, w0)" "(sweep_step e S R touched ^^ n) (jobs, w0) (js, w')"
    and "txn_of w = NoTxn" "wf_tables (tabs w)" "stable wf_tables e" "stable (grown (journal_of (tabs w))) e"
  shows "n \<le> 3 * nat (rc_batch R) + 4 \<and> ((\<nexists>s. sweep_step e S R touched (js, w') s) \<longleftrightarrow> js = []) \<and>
    (\<exists>calls. events w' = events w @ calls \<and> (\<forall>c m. length (filter (call_of c m) calls) \<le> nat (rc_batch R)) \<and>
       (\<forall>order \<in> set (t_orders (tabs w)). ChannelCall ''wechat'' ''closeOrder'' (JString (o_order_no order)) \<in> set calls \<longrightarrow>
          (\<exists>deadline. o_expire_at order = Some deadline \<and> told_unpaid e R (o_order_no order) deadline)))"
proof -
  let ?due = "\<lambda>on x. \<forall>order \<in> set (t_orders (tabs w)). o_order_no order = on \<longrightarrow> o_expire_at order = x"
  obtain ok bad where r: "reconcile e R w = ((ok, bad), jobs, w0)" using assms(1) by (cases counts) simp
  note start = reconcile_jobs [OF r]
  have h: "holds wf_tables w0" "holds (grown (journal_of (tabs w))) w0"
    using assms(3,4) start(5,6) by (simp_all add: holds_def grown_def extends_def)
  have row: "?due (o_order_no r) (o_expire_at r)"
    if "(sweep_step e S R touched)\<^sup>*\<^sup>* (jobs, w0) (ks, v)" "r \<in> set (t_orders (tabs v))" for ks v r
  proof -
    have "wf_tables (tabs v)" "grown (journal_of (tabs w)) (tabs v)"
      using wf_sweep.sweep_holds [OF that(1) assms(5) h(1)] journal_history.sweep.sweep_holds [OF that(1) assms(6) h(2)]
      by (simp_all add: holds_def)
    from grown_order_terms [OF this(2,1) _ that(2)] show ?thesis by (auto simp: order_terms_def)
  qed
  have "\<forall>ks v. (sweep_step e S R touched)\<^sup>*\<^sup>* (jobs, w0) (ks, v) \<longrightarrow>
      (\<forall>r \<in> set (t_orders (tabs v)). ?due (o_order_no r) (o_expire_at r))" using row by blast
  from sweep_calls [where due = ?due, OF assms(2) start(3) this] obtain calls where c:
    "n + total (job_cost R) js \<le> total (job_cost R) jobs" "events w' = events w0 @ calls"
    "\<And>c m. length (filter (call_of c m) calls) + total (quota R c m) js \<le> total (quota R c m) jobs"
    "\<And>on. ChannelCall ''wechat'' ''closeOrder'' (JString on) \<in> set calls \<Longrightarrow> \<exists>d. ?due on (Some d) \<and> told_unpaid e R on d"
    by blast
  have "n \<le> 3 * nat (rc_batch R) + 4" using c(1) start(1) by simp
  moreover have "length (filter (call_of c m) calls) \<le> nat (rc_batch R)" for c m
    using c(3) [of c m] start(2) [of c m] by simp
  moreover have "events w' = events w @ calls" using c(2) start(4) by simp
  ultimately show ?thesis using c(4) sweep_stuck by (intro conjI exI [of _ calls]) (blast | simp)+
qed

text \<open>An unpaid order past its deadline is found, asked about and closed in two steps.\<close>

definition unpaid_channel :: channel where
  "unpaid_channel = silent_channel\<lparr>ch_queryPayment := \<lambda>_ _. Some (jobject [(''trade_state'', JString ''NOTPAY'')], [])\<rparr>"

definition sample_reconciler :: reconciler where
  "sample_reconciler = newReconciler (\<lambda>name. if name = ''wechat'' then Some (unpaid_channel, True) else None) True"

definition expired_tables :: tables where
  "expired_tables = paying_tables\<lparr>t_orders := [paying_order\<lparr>o_expire_at := Some 0\<rparr>]\<rparr>"

theorem sweep_bounded_witness:
  "\<exists>deadline. o_expire_at (paying_order\<lparr>o_expire_at := Some 0\<rparr>) = Some deadline \<and>
     told_unpaid calm sample_reconciler ''ORD-000001'' deadline"
proof -
  let ?step = "sweep_step calm plain_sys sample_reconciler (\<lambda>_ _. 0)" and ?w = "fresh expired_tables"
  let ?run = "run_job calm plain_sys sample_reconciler (\<lambda>_ _. 0)"
  let ?find = "FindOrders ''wechat'' (- 300000000)" and ?ask = "AskOrder ''wechat'' ''ORD-000001'' (Some 0)"
  let ?va = "snd (snd (reconcile calm sample_reconciler ?w))"
  let ?vb = "snd (?run ?find ?va)" let ?vc = "snd (?run ?ask ?vb)"
  have "fst (snd (reconcile calm sample_reconciler ?w)) = [?find, FindRefunds, PurgeKeys]" by code_simp
  then have r: "reconcile calm sample_reconciler ?w = (fst (reconcile calm sample_reconciler ?w), [?find, FindRefunds, PurgeKeys], ?va)"
    by (metis prod.collapse)
  have n: "fst (?run ?find ?va) = [?ask]" "fst (?run ?ask ?vb) = []" by code_simp+
  have "?step ([?find, FindRefunds, PurgeKeys], ?va) ([FindRefunds, PurgeKeys, ?ask], ?vb)"
    using run [where before = "[]" and after = "[FindRefunds, PurgeKeys]", OF prod.collapse [symmetric, of "?run ?find ?va"]]
    unfolding n by simp
  moreover have "?step ([FindRefunds, PurgeKeys, ?ask], ?vb) ([FindRefunds, PurgeKeys], ?vc)"
    using run [where before = "[FindRefunds, PurgeKeys]" and after = "[]", OF prod.collapse [symmetric, of "?run ?ask ?vb"]]
    unfolding n by simp
  ultimately have s: "(?step ^^ 2) ([?find, FindRefunds, PurgeKeys], ?va) ([FindRefunds, PurgeKeys], ?vc)"
    unfolding numeral_2_eq_2 by (auto simp: relcompp_apply)
  have wf: "wf_tables (tabs ?w)"
    by (simp add: wf_tables_def keyed_def expired_tables_def paying_tables_def no_rows_def paying_order_def open_payment_def)
  have e: "stable I calm" for I by (simp add: stable_def calm_def)
  have "events ?vc = [ChannelCall ''wechat'' ''queryPayment'' (JString ''ORD-000001''),
      ChannelCall ''wechat'' ''closeOrder'' (JString ''ORD-000001'')]" by code_simp
  moreover have "paying_order\<lparr>o_expire_at := Some 0\<rparr> \<in> set (t_orders (tabs ?w))" by (simp add: expired_tables_def)
  ultimately show ?thesis using sweep_bounded [OF r s _ wf e e] by (auto simp: paying_order_def)
qed

end
