(* ===== verification/Pay_Alipay.thy ===== *)
theory Pay_Alipay
  imports Pay_Qr Pay_Refund
begin

text \<open>
  \<open>channels/AlipayChannel.cc\<close>: the client built from the configuration, the signing of a
  request, its transport form, the reading of the gateway's answer, the check of a
  notification's signature, and the client as a channel of the services.

  RSA, base64, URL coding, the JSON writers and reader, the clock, the file system and the
  gateway are parameters. The answer of a method is \<open>None\<close> when an exception leaves it, in
  which case its callback is never called.
\<close>

section \<open>Outside code and the client\<close>

text \<open>
  \<open>gateway\<close>: the answer to the body posted to a base address and path at a moment, the
  status code and the body; \<open>None\<close> when there is no response. \<open>stodCents\<close>:
  \<open>std::llround(std::stod(s) * 100.0)\<close>, \<open>None\<close> when \<open>stod\<close> throws.
\<close>

record alipay_sys =
  ay_readFile :: "string \<Rightarrow> string option"
  ay_rsaSign :: "string \<Rightarrow> string \<Rightarrow> string"
  ay_rsaVerify :: "string \<Rightarrow> string \<Rightarrow> string \<Rightarrow> bool"
  ay_urlEncode :: "string \<Rightarrow> string"
  ay_urlDecode :: "string \<Rightarrow> string"
  ay_writeCompact :: "json \<Rightarrow> string"
  ay_toStyledString :: "json \<Rightarrow> string"
  ay_parseJson :: "string \<Rightarrow> bool \<times> json"
  ay_localTime :: "nat \<Rightarrow> string"
  ay_getUuid :: "nat \<Rightarrow> string"
  ay_gateway :: "nat \<Rightarrow> string \<Rightarrow> string \<Rightarrow> string \<Rightarrow> (nat \<times> string) option"
  ay_stodCents :: "string \<Rightarrow> int option"

record alipay_client =
  al_appId :: string
  al_sellerId :: string
  al_privateKeyPath :: string
  al_alipayPublicKeyPath :: string
  al_gatewayUrl :: string
  al_notifyUrl :: string
  al_timeoutMs :: int
  al_privateKeyPem :: string
  al_alipayPublicKeyPem :: string

definition loadFile :: "alipay_sys \<Rightarrow> string \<Rightarrow> string" where
  "loadFile Y path =
     (if path = [] then [] else (case ay_readFile Y path of None \<Rightarrow> [] | Some content \<Rightarrow> content))"

text \<open>The constructor; \<open>None\<close>: an accessor throws on the configuration.\<close>

definition newAlipayClient :: "alipay_sys \<Rightarrow> json \<Rightarrow> alipay_client option" where
  "newAlipayClient Y config =
     (case (jstr config ''app_id'' [], jstr config ''seller_id'' [], jstr config ''private_key_path'' [],
            jstr config ''alipay_public_key_path'' [],
            jstr config ''gateway_url'' ''https://openapi.alipaydev.com/gateway.do'',
            jstr config ''notify_url'' [], Option.bind (jget config ''timeout_ms'' (JInt 30000)) asInt) of
        (Some appId, Some sellerId, Some privateKeyPath, Some publicKeyPath, Some gatewayUrl, Some notifyUrl, Some timeoutMs) \<Rightarrow>
          Some \<lparr>al_appId = appId, al_sellerId = sellerId, al_privateKeyPath = privateKeyPath,
                al_alipayPublicKeyPath = publicKeyPath, al_gatewayUrl = gatewayUrl, al_notifyUrl = notifyUrl,
                al_timeoutMs = timeoutMs, al_privateKeyPem = loadFile Y privateKeyPath,
                al_alipayPublicKeyPem = loadFile Y publicKeyPath\<rparr>
      | _ \<Rightarrow> None)"

definition isPlaceholder :: "string \<Rightarrow> bool" where
  "isPlaceholder value \<longleftrightarrow> value = [] \<or> starts_with ''__env_var:'' value"

definition alipayConfigured :: "alipay_client \<Rightarrow> bool" where
  "alipayConfigured c \<longleftrightarrow>
     \<not> (isPlaceholder (al_appId c) \<or> isPlaceholder (al_sellerId c) \<or> isPlaceholder (al_privateKeyPath c) \<or>
        isPlaceholder (al_alipayPublicKeyPath c) \<or> isPlaceholder (al_gatewayUrl c))"

section \<open>Signatures\<close>

definition alipay_sign :: "alipay_sys \<Rightarrow> alipay_client \<Rightarrow> string \<Rightarrow> string" where
  "alipay_sign Y c data = (if al_privateKeyPem c = [] then [] else ay_rsaSign Y (al_privateKeyPem c) data)"

definition alipay_verify :: "alipay_sys \<Rightarrow> alipay_client \<Rightarrow> string \<Rightarrow> string \<Rightarrow> bool" where
  "alipay_verify Y c data signature =
     (if al_alipayPublicKeyPem c = [] then False else ay_rsaVerify Y (al_alipayPublicKeyPem c) data signature)"

definition append_pair :: "string \<Rightarrow> string \<Rightarrow> string \<Rightarrow> string" where
  "append_pair data key sval = (if data \<noteq> [] then data @ ''&'' else data) @ key @ ''='' @ sval"

text \<open>The loop over the sorted keys; \<open>None\<close>: \<open>asString\<close> throws.\<close>

fun canonical :: "(string \<Rightarrow> json) \<Rightarrow> string \<Rightarrow> string list \<Rightarrow> string option" where
  "canonical params data [] = Some data"
| "canonical params data (key # keys) =
     (if isNull (params key) then canonical params data keys
      else
        (case asString (params key) of
           None \<Rightarrow> None
         | Some sval \<Rightarrow>
             if sval = [] then canonical params data keys
             else canonical params (append_pair data key sval) keys))"

definition member_names :: "json \<Rightarrow> string list option" where
  "member_names j = (case j of JNull \<Rightarrow> Some [] | JObject kvs \<Rightarrow> Some (map fst kvs) | _ \<Rightarrow> None)"

definition member_of :: "json \<Rightarrow> string \<Rightarrow> json" where
  "member_of j k = (case jget j k JNull of None \<Rightarrow> JNull | Some v \<Rightarrow> v)"

definition signedText :: "json \<Rightarrow> string option" where
  "signedText params =
     (case member_names params of
        None \<Rightarrow> None
      | Some names \<Rightarrow>
          canonical (member_of params) [] (sort (filter (\<lambda>key. key \<noteq> ''sign'' \<and> key \<noteq> ''sign_type'') names)))"

definition alipayVerifyCallback :: "alipay_sys \<Rightarrow> alipay_client \<Rightarrow> json \<Rightarrow> string \<Rightarrow> bool" where
  "alipayVerifyCallback Y c params signature =
     (case signedText params of None \<Rightarrow> False | Some data \<Rightarrow> alipay_verify Y c data signature)"

section \<open>Requests\<close>

definition buildCommonParams :: "alipay_sys \<Rightarrow> alipay_client \<Rightarrow> nat \<Rightarrow> json" where
  "buildCommonParams Y c now =
     jobject [(''app_id'', JString (al_appId c)), (''timestamp'', JString (ay_localTime Y now)),
              (''nonce'', JString (ay_getUuid Y now))]"

definition commonParams :: "alipay_sys \<Rightarrow> alipay_client \<Rightarrow> nat \<Rightarrow> string \<Rightarrow> json \<Rightarrow> json" where
  "commonParams Y c now method bizContent =
     fold (\<lambda>(k, v). jset k (JString v))
       [(''method'', method), (''biz_content'', ay_writeCompact Y bizContent), (''charset'', ''utf-8''),
        (''version'', ''1.0''), (''sign_type'', ''RSA2'')] (buildCommonParams Y c now)"

definition signedKeys :: "string list" where
  "signedKeys = [''app_id'', ''biz_content'', ''charset'', ''method'', ''sign_type'', ''timestamp'']"

text \<open>The string to sign: unlike the check of a notification, an empty value is kept.\<close>

fun signLoop :: "json \<Rightarrow> string \<Rightarrow> string list \<Rightarrow> string option" where
  "signLoop params signData [] = Some signData"
| "signLoop params signData (key # keys) =
     (if isNull (member_of params key) then signLoop params signData keys
      else
        (case asString (member_of params key) of
           None \<Rightarrow> None
         | Some sval \<Rightarrow> signLoop params (append_pair signData key sval) keys))"

text \<open>The form body: \<open>charset\<close> goes into the address instead.\<close>

definition formField :: "alipay_sys \<Rightarrow> json \<Rightarrow> string \<Rightarrow> string option" where
  "formField Y params key = map_option (\<lambda>v. key @ ''='' @ ay_urlEncode Y v) (asString (member_of params key))"

definition requestBody :: "alipay_sys \<Rightarrow> json \<Rightarrow> string \<Rightarrow> string option" where
  "requestBody Y params signature =
     (case (formField Y params ''app_id'', formField Y params ''biz_content'', formField Y params ''method'',
            formField Y params ''sign_type'', formField Y params ''timestamp'') of
        (Some a, Some b, Some m, Some t, Some s) \<Rightarrow>
          Some (a @ ''&'' @ b @ ''&'' @ m @ ''&'' @ t @ ''&'' @ s @ ''&sign='' @ ay_urlEncode Y signature)
      | _ \<Rightarrow> None)"

definition baseUrl :: "string \<Rightarrow> string" where
  "baseUrl url = (case find_sub ''/gateway.do'' url of None \<Rightarrow> url | Some pathPos \<Rightarrow> substr url 0 pathPos)"

text \<open>
  What a \<open>catch\<close> block hands to the callback: the text of an object with one member, and
  \<open>asString\<close> throws on an object.
\<close>

definition reportFailure :: "string \<Rightarrow> (json \<times> string) option" where
  "reportFailure what = map_option (Pair JNull) (asString (jobject [(''error'', JString what)]))"

definition styledError :: "alipay_sys \<Rightarrow> (string \<times> json) list \<Rightarrow> (json \<times> string) option" where
  "styledError Y kvs = Some (JNull, ay_toStyledString Y (jobject kvs))"

text \<open>The loop that looks for a member whose name contains \<open>response\<close>.\<close>

fun fallbackAnswer :: "json \<Rightarrow> string list \<Rightarrow> json" where
  "fallbackAnswer root [] = root"
| "fallbackAnswer root (key # keys) =
     (if find_sub ''response'' key \<noteq> None then member_of root key else fallbackAnswer root keys)"

definition readAnswer :: "alipay_sys \<Rightarrow> string \<Rightarrow> (nat \<times> string) option \<Rightarrow> (json \<times> string) option" where
  "readAnswer Y method response =
     (case response of
        None \<Rightarrow> styledError Y [(''error'', JString ''No response from Alipay server'')]
      | Some (statusCode, body) \<Rightarrow>
          if statusCode \<noteq> 200 then
            styledError Y [(''error'', JString (''HTTP status code: '' @ show_nat statusCode))]
          else
            (case ay_parseJson Y body of
               (False, _) \<Rightarrow>
                 styledError Y [(''error'', JString ''Invalid response format''), (''raw_response'', JString body)]
             | (True, root) \<Rightarrow>
                 (case isMember root ''error_response'' of
                    None \<Rightarrow> reportFailure ''in Json::Value::find''
                  | Some True \<Rightarrow> Some (JNull, ay_toStyledString Y (member_of root ''error_response''))
                  | Some False \<Rightarrow>
                      let responseKey = ''alipay_'' @ method @ ''_response''
                      in if isMember root responseKey = Some True then Some (member_of root responseKey, [])
                         else Some (fallbackAnswer root (case member_names root of None \<Rightarrow> [] | Some ns \<Rightarrow> ns), []))))"

definition sendRequest ::
  "alipay_sys \<Rightarrow> alipay_client \<Rightarrow> nat \<Rightarrow> string \<Rightarrow> json \<Rightarrow> (json \<times> string) option" where
  "sendRequest Y c now method bizContent =
     (let params = commonParams Y c now method bizContent
      in case signLoop params [] signedKeys of
           None \<Rightarrow> reportFailure ''Type is not convertible to string''
         | Some signData \<Rightarrow>
             (case requestBody Y params (alipay_sign Y c signData) of
                None \<Rightarrow> reportFailure ''Type is not convertible to string''
              | Some body \<Rightarrow>
                  readAnswer Y method
                    (ay_gateway Y now (baseUrl (al_gatewayUrl c)) ''/gateway.do?charset=utf-8'' body)))"

text \<open>\<open>if (!bizContent.isMember(key)) bizContent[key] = v\<close>; \<open>None\<close>: \<open>isMember\<close> throws.\<close>

definition default_member :: "string \<Rightarrow> string \<Rightarrow> json \<Rightarrow> json option" where
  "default_member key v j =
     (case isMember j key of None \<Rightarrow> None | Some True \<Rightarrow> Some j | Some False \<Rightarrow> Some (jset key (JString v) j))"

section \<open>Methods\<close>

text \<open>The default subject of a trade is the UTF-8 text of four Chinese characters.\<close>

definition testOrderSubject :: string where
  "testOrderSubject = map char_of [0xE6, 0xB5, 0x8B, 0xE8, 0xAF, 0x95, 0xE8, 0xAE, 0xA2, 0xE5, 0x8D, 0x95 :: nat]"

definition createTrade :: "alipay_sys \<Rightarrow> alipay_client \<Rightarrow> nat \<Rightarrow> json \<Rightarrow> (json \<times> string) option" where
  "createTrade Y c now payload =
     (case Option.bind (default_member ''out_trade_no'' (ay_getUuid Y now) payload)
             (\<lambda>b. Option.bind (default_member ''total_amount'' ''0.01'' b) (default_member ''subject'' testOrderSubject)) of
        None \<Rightarrow> reportFailure ''in Json::Value::find''
      | Some bizContent \<Rightarrow> sendRequest Y c now ''alipay.trade.create'' bizContent)"

definition withNotifyUrl :: "alipay_client \<Rightarrow> json \<Rightarrow> json option" where
  "withNotifyUrl c bizContent =
     (if al_notifyUrl c = [] then Some bizContent else default_member ''notify_url'' (al_notifyUrl c) bizContent)"

definition precreateTrade :: "alipay_sys \<Rightarrow> alipay_client \<Rightarrow> nat \<Rightarrow> json \<Rightarrow> (json \<times> string) option" where
  "precreateTrade Y c now payload =
     (case (isMember payload ''out_trade_no'', isMember payload ''total_amount'') of
        (Some True, Some True) \<Rightarrow>
          (case Option.bind (default_member ''subject'' ''Payment Order'' payload) (withNotifyUrl c) of
             None \<Rightarrow> reportFailure ''in Json::Value::find''
           | Some bizContent \<Rightarrow> sendRequest Y c now ''alipay.trade.precreate'' bizContent)
      | (Some True, Some False) \<Rightarrow> reportFailure ''total_amount is required''
      | (Some False, _) \<Rightarrow> reportFailure ''out_trade_no is required''
      | _ \<Rightarrow> reportFailure ''in Json::Value::find'')"

definition queryTrade :: "alipay_sys \<Rightarrow> alipay_client \<Rightarrow> nat \<Rightarrow> string \<Rightarrow> (json \<times> string) option" where
  "queryTrade Y c now outTradeNo =
     sendRequest Y c now ''alipay.trade.query'' (jobject [(''out_trade_no'', JString outTradeNo)])"

definition alipayRefund :: "alipay_sys \<Rightarrow> alipay_client \<Rightarrow> nat \<Rightarrow> json \<Rightarrow> (json \<times> string) option" where
  "alipayRefund Y c now payload =
     (case isMember payload ''out_trade_no'' of
        None \<Rightarrow> reportFailure ''in Json::Value::find''
      | Some False \<Rightarrow> reportFailure ''out_trade_no is required''
      | Some True \<Rightarrow>
          (case default_member ''refund_amount'' ''0.01'' payload of
             None \<Rightarrow> reportFailure ''in Json::Value::find''
           | Some bizContent \<Rightarrow> sendRequest Y c now ''alipay.trade.refund'' bizContent))"

definition alipayQueryRefund :: "alipay_sys \<Rightarrow> alipay_client \<Rightarrow> nat \<Rightarrow> string \<Rightarrow> (json \<times> string) option" where
  "alipayQueryRefund Y c now outTradeNo =
     sendRequest Y c now ''alipay.trade.fastpay.refund.query''
       (jobject [(''out_trade_no'', JString outTradeNo), (''query_type'', JString ''refund'')])"

definition closeTrade :: "alipay_sys \<Rightarrow> alipay_client \<Rightarrow> nat \<Rightarrow> string \<Rightarrow> (json \<times> string) option" where
  "closeTrade Y c now outTradeNo =
     sendRequest Y c now ''alipay.trade.close'' (jobject [(''out_trade_no'', JString outTradeNo)])"

text \<open>\<open>PaymentChannel::closeOrder\<close>, which this channel does not override.\<close>

definition closeOrderUnsupported :: "(json \<times> string) option" where
  "closeOrderUnsupported = Some (JNull, ''channel does not support closing orders'')"

definition alipayChannel :: "alipay_sys \<Rightarrow> alipay_client \<Rightarrow> channel" where
  "alipayChannel Y c =
     \<lparr>ch_createQRPayment = precreateTrade Y c, ch_queryPayment = queryTrade Y c,
      ch_closeOrder = \<lambda>_ _. closeOrderUnsupported, ch_refund = alipayRefund Y c,
      ch_queryRefund = alipayQueryRefund Y c\<rparr>"

section \<open>Notifications\<close>

text \<open>
  The loop over \<open>std::getline(ss, pair, '&')\<close>. The map is kept sorted by key: the code only
  looks keys up in it and copies it into a JSON object.
\<close>

fun getlines_amp :: "string \<Rightarrow> string \<Rightarrow> string list" where
  "getlines_amp token [] = (if token = [] then [] else [token])"
| "getlines_amp token (c # cs) =
     (if c = CHR ''&'' then token # getlines_amp [] cs else getlines_amp (token @ [c]) cs)"

definition plus_to_space :: "string \<Rightarrow> string" where
  "plus_to_space = map (\<lambda>c. if c = CHR ''+'' then CHR '' '' else c)"

definition readPair :: "(string \<Rightarrow> string) \<Rightarrow> string \<Rightarrow> (string \<times> string) list \<Rightarrow> (string \<times> string) list" where
  "readPair urlDecode pair params =
     (case index_of (\<lambda>c. c = CHR ''='') pair of
        None \<Rightarrow> params
      | Some pos \<Rightarrow> members_set (take pos pair) (urlDecode (plus_to_space (drop (pos + 1) pair))) params)"

definition parseForm :: "(string \<Rightarrow> string) \<Rightarrow> string \<Rightarrow> (string \<times> string) list" where
  "parseForm urlDecode body = fold (readPair urlDecode) (getlines_amp [] body) []"

definition verifyParams :: "(string \<times> string) list \<Rightarrow> json" where
  "verifyParams params = jobject (map (\<lambda>(k, v). (k, JString v)) params)"

definition param :: "(string \<times> string) list \<Rightarrow> string \<Rightarrow> string" where
  "param params k = (case map_of params k of None \<Rightarrow> [] | Some v \<Rightarrow> v)"

record callback_event =
  ev_channel :: string
  ev_orderNo :: string
  ev_channelTxnId :: string
  ev_tradeStatus :: string
  ev_paid :: bool
  ev_amountTotal :: int
  ev_rawPayload :: string
  ev_payload :: json

text \<open>The channel interface's \<open>verifyCallback\<close>: the error, or the event.\<close>

definition alipayVerifyNotification :: "alipay_sys \<Rightarrow> alipay_client \<Rightarrow> string \<Rightarrow> string + callback_event" where
  "alipayVerifyNotification Y c body =
     (let params = parseForm (ay_urlDecode Y) body; signature = param params ''sign'';
          tradeStatus = param params ''trade_status''; totalAmount = param params ''total_amount''
      in if signature = [] then Inl ''missing sign parameter''
         else if \<not> alipayVerifyCallback Y c (verifyParams params) signature then Inl ''signature verification failed''
         else Inr \<lparr>ev_channel = ''alipay'', ev_orderNo = param params ''out_trade_no'',
           ev_channelTxnId = param params ''trade_no'', ev_tradeStatus = tradeStatus,
           ev_paid = (tradeStatus = ''TRADE_SUCCESS'' \<or> tradeStatus = ''TRADE_FINISHED''),
           ev_amountTotal =
             (if totalAmount = [] then 0 else (case ay_stodCents Y totalAmount of None \<Rightarrow> 0 | Some cents \<Rightarrow> cents)),
           ev_rawPayload = body, ev_payload = verifyParams params\<rparr>)"

section \<open>What is signed\<close>

definition item :: "string \<times> string \<Rightarrow> string" where
  "item = (\<lambda>(k, v). k @ ''='' @ v)"

definition joined :: "(string \<times> string) list \<Rightarrow> string" where
  "joined ps = foldl (\<lambda>d (k, v). append_pair d k v) [] ps"

definition signed_part :: "(string \<times> string) list \<Rightarrow> (string \<times> string) list" where
  "signed_part ps = filter (\<lambda>(k, v). v \<noteq> [] \<and> k \<noteq> ''sign'' \<and> k \<noteq> ''sign_type'') ps"

text \<open>No name holds \<open>=\<close> or \<open>&\<close> and no value holds \<open>&\<close>.\<close>

definition clean :: "(string \<times> string) list \<Rightarrow> bool" where
  "clean ps \<longleftrightarrow> list_all (\<lambda>(k, v). CHR ''='' \<notin> set k \<and> CHR ''&'' \<notin> set k \<and> CHR ''&'' \<notin> set v) ps"

lemma parseForm_sorted: "keys_sorted (parseForm dec body)"
proof -
  have "keys_sorted (fold (readPair dec) pairs ps)" if "keys_sorted ps" for pairs ps
    using that by (induction pairs arbitrary: ps) (auto simp: readPair_def keys_sorted_set split: option.splits)
  then show ?thesis by (simp add: parseForm_def keys_sorted_def)
qed

lemma canonical_texts:
  assumes "\<forall>k \<in> set ks. f k = JString (g k)"
  shows "canonical f d ks = Some (foldl (\<lambda>d k. append_pair d k (g k)) d (filter (\<lambda>k. g k \<noteq> []) ks))"
  using assms by (induction ks arbitrary: d) auto

lemma verifyParams_object:
  assumes "keys_sorted ps" "ps \<noteq> []"
  shows "verifyParams ps = JObject (map (\<lambda>(k, v). (k, JString v)) ps)"
  unfolding verifyParams_def using assms
  by (intro jobject_sorted) (auto simp: keys_sorted_def comp_def case_prod_unfold)

lemma signedText_joined:
  assumes "keys_sorted ps"
  shows "signedText (verifyParams ps) = Some (joined (signed_part ps))"
proof (cases "ps = []")
  case False
  let ?ok = "\<lambda>k. k \<noteq> ''sign'' \<and> k \<noteq> ''sign_type''"
  let ?g = "\<lambda>k. the (map_of ps k)"
  have d: "distinct (map fst ps)" using assms strict_sorted_iff by (auto simp: keys_sorted_def)
  have s: "sorted (filter ?ok (map fst ps))"
    using assms strict_sorted_imp_sorted by (auto simp: keys_sorted_def intro: sorted_filter [of id, simplified])
  have g: "map_of ps k = Some v" if "(k, v) \<in> set ps" for k v using that d by simp
  have m: "map_of (map (\<lambda>(k, v). (k, JString v)) ps) k = map_option JString (map_of ps k)" for k
    by (induction ps) auto
  have f: "\<forall>k \<in> set (filter ?ok (map fst ps)). member_of (verifyParams ps) k = JString (?g k)"
    using g by (auto simp: member_of_def verifyParams_object [OF assms False] m)
  have "signedText (verifyParams ps) = canonical (member_of (verifyParams ps)) [] (filter ?ok (map fst ps))"
    using s by (simp add: signedText_def member_names_def verifyParams_object [OF assms False] comp_def case_prod_unfold sorted_sort_id)
  also have "\<dots> = Some (foldl (\<lambda>d k. append_pair d k (?g k)) [] (filter (\<lambda>k. ?g k \<noteq> []) (filter ?ok (map fst ps))))"
    using f by (rule canonical_texts)
  also have "filter (\<lambda>k. ?g k \<noteq> []) (filter ?ok (map fst ps)) = map fst (signed_part ps)"
    using g by (auto simp: signed_part_def filter_map comp_def intro!: arg_cong [of _ _ "map fst"] filter_cong)
  also have "foldl (\<lambda>d k. append_pair d k (?g k)) [] (map fst (signed_part ps)) = joined (signed_part ps)"
    unfolding joined_def foldl_map by (rule foldl_cong) (auto simp: signed_part_def g)
  finally show ?thesis .
qed (simp add: verifyParams_def jobject_def signedText_def member_names_def joined_def signed_part_def)

lemma joined_Cons: "joined (p # ps) = item p @ concat (map (\<lambda>q. CHR ''&'' # item q) ps)"
proof -
  have "foldl (\<lambda>d (k, v). append_pair d k v) d ps = d @ concat (map (\<lambda>q. CHR ''&'' # item q) ps)" if "d \<noteq> []" for d
    using that by (induction ps arbitrary: d) (auto simp: append_pair_def item_def)
  then show ?thesis by (cases p) (simp add: joined_def append_pair_def item_def)
qed

lemma getlines_until:
  "CHR ''&'' \<notin> set s \<Longrightarrow> getlines_amp tok (s @ CHR ''&'' # r) = (tok @ s) # getlines_amp [] r"
  "CHR ''&'' \<notin> set s \<Longrightarrow> getlines_amp tok s = (if tok @ s = [] then [] else [tok @ s])"
  by (induction s arbitrary: tok) auto

lemma clean_item: "clean (p # ps) \<Longrightarrow> CHR ''&'' \<notin> set (item p)" "item p \<noteq> []"
  by (auto simp: clean_def item_def split: prod.splits)

lemma getlines_items:
  "clean (p # ps) \<Longrightarrow> getlines_amp [] (item p @ concat (map (\<lambda>q. CHR ''&'' # item q) ps)) = map item (p # ps)"
proof (induction ps arbitrary: p)
  case Nil
  then show ?case using clean_item(1) [OF Nil.prems] clean_item(2) [of p] by (simp add: getlines_until(2))
next
  case (Cons q ps)
  have "clean (q # ps)" using Cons.prems by (simp add: clean_def)
  with Cons show ?case using clean_item(1) [OF Cons.prems] by (simp add: getlines_until(1))
qed

lemma getlines_joined: "clean ps \<Longrightarrow> getlines_amp [] (joined ps) = map item ps"
  by (cases ps) (simp_all add: joined_Cons getlines_items, simp add: joined_def)

lemma item_split: "CHR ''='' \<notin> set k \<Longrightarrow> index_of (\<lambda>c. c = CHR ''='') (item (k, v)) = Some (length k)"
  by (induction k) (auto simp: item_def)

lemma items_inject: "clean ps \<Longrightarrow> clean qs \<Longrightarrow> map item ps = map item qs \<Longrightarrow> ps = qs"
proof (induction ps arbitrary: qs)
  case (Cons p ps)
  obtain q qs' where q: "qs = q # qs'" using Cons.prems(3) by (cases qs) auto
  obtain k v k' v' where pq: "p = (k, v)" "q = (k', v')" by fastforce
  have i: "item (k, v) = item (k', v')" using Cons.prems(3) by (simp add: q pq)
  moreover have "CHR ''='' \<notin> set k" "CHR ''='' \<notin> set k'" using Cons.prems(1,2) by (simp_all add: clean_def q pq)
  ultimately have "length k = length k'" using item_split [of k v] item_split [of k' v'] by simp
  then have "k = k'" "v = v'" using i by (simp_all add: item_def)
  with Cons q pq show ?case by (auto simp: clean_def)
qed simp

lemma signed_part_clean: "clean ps \<Longrightarrow> clean (signed_part ps)"
  by (auto simp: clean_def signed_part_def list_all_iff)

lemma param_signed_part:
  assumes "keys_sorted ps" "k \<noteq> ''sign''" "k \<noteq> ''sign_type''"
  shows "param (signed_part ps) k = param ps k"
proof -
  have d: "distinct (map fst ps)" using assms(1) strict_sorted_iff by (auto simp: keys_sorted_def)
  have d2: "distinct (map fst (signed_part ps))" using d by (simp add: signed_part_def distinct_map_filter)
  show ?thesis
  proof (cases "map_of ps k")
    case (Some v)
    then have "(k, v) \<in> set ps" by (rule map_of_SomeD)
    then have "v \<noteq> [] \<Longrightarrow> map_of (signed_part ps) k = Some v" using assms(2,3) d2 by (simp add: signed_part_def)
    moreover have "v = [] \<Longrightarrow> map_of (signed_part ps) k = None"
      using Some map_of_is_SomeI [OF d, of k] by (fastforce simp: signed_part_def map_of_eq_None_iff)
    ultimately show ?thesis using Some by (cases "v = []") (auto simp: param_def)
  next
    case None
    then have "map_of (signed_part ps) k = None" by (auto simp: signed_part_def map_of_eq_None_iff)
    with None show ?thesis by (simp add: param_def)
  qed
qed

text \<open>
  C13: a signature of Alipay binds the parameters it was made for. If the notifications read
  from two form bodies have the same signed text, and neither has a name with \<open>=\<close> or \<open>&\<close> or a
  value with \<open>&\<close>, then every parameter but \<open>sign\<close> and \<open>sign_type\<close> has the same value in both,
  whatever the order and the encoding in the bodies; an absent and an empty parameter count
  as the same.
\<close>

theorem alipay_signature_binds:
  assumes "clean (parseForm dec b1)" "clean (parseForm dec b2)"
    and "signedText (verifyParams (parseForm dec b1)) = signedText (verifyParams (parseForm dec b2))"
    and "k \<noteq> ''sign''" "k \<noteq> ''sign_type''"
  shows "param (parseForm dec b1) k = param (parseForm dec b2) k"
proof -
  let ?p = "parseForm dec b1" and ?q = "parseForm dec b2"
  have "joined (signed_part ?p) = joined (signed_part ?q)"
    using assms(3) by (simp add: signedText_joined [OF parseForm_sorted])
  then have "map item (signed_part ?p) = map item (signed_part ?q)"
    using getlines_joined [OF signed_part_clean [OF assms(1)]] getlines_joined [OF signed_part_clean [OF assms(2)]] by metis
  then have "signed_part ?p = signed_part ?q" using items_inject signed_part_clean assms(1,2) by blast
  then show ?thesis
    using param_signed_part [OF parseForm_sorted assms(4,5), of dec b1]
      param_signed_part [OF parseForm_sorted assms(4,5), of dec b2] by simp
qed

theorem alipay_signature_binds_witness:
  "let p = parseForm id ''trade_no=T1&total_amount=9&sign=x''; q = parseForm id ''sign=y&memo=&total_amount=9&trade_no=T1''
   in signedText (verifyParams p) = signedText (verifyParams q) \<and> param p ''total_amount'' = param q ''total_amount''"
proof -
  let ?b = "''trade_no=T1&total_amount=9&sign=x''" and ?d = "''sign=y&memo=&total_amount=9&trade_no=T1''"
  have "clean (parseForm id ?b)" "clean (parseForm id ?d)"
    "signedText (verifyParams (parseForm id ?b)) = signedText (verifyParams (parseForm id ?d))" by code_simp+
  with alipay_signature_binds [OF this, of "''total_amount''"] show ?thesis by (simp add: Let_def)
qed

text \<open>
  Without the condition on \<open>&\<close> the signed text is ambiguous: a value that spells a further
  parameter and that parameter itself have the same text.
\<close>

lemma signed_text_ambiguous:
  "signedText (verifyParams [(''subject'', ''a&total_amount=9'')]) =
     signedText (verifyParams [(''subject'', ''a''), (''total_amount'', ''9'')])"
  by code_simp

section \<open>Answers\<close>

text \<open>The \<open>catch\<close> blocks and refusals that build their error with \<open>asString\<close> never reach the callback.\<close>

lemma reportFailure_throws: "reportFailure what = None"
  by (simp add: reportFailure_def jobject_def)

lemma common_params_texts:
  "member_of (commonParams Y c now method biz) ''app_id'' = JString (al_appId c)"
  "member_of (commonParams Y c now method biz) ''biz_content'' = JString (ay_writeCompact Y biz)"
  "member_of (commonParams Y c now method biz) ''charset'' = JString ''utf-8''"
  "member_of (commonParams Y c now method biz) ''method'' = JString method"
  "member_of (commonParams Y c now method biz) ''sign_type'' = JString ''RSA2''"
  "member_of (commonParams Y c now method biz) ''timestamp'' = JString (ay_localTime Y now)"
  by (simp_all add: commonParams_def buildCommonParams_def jobject_def member_of_def)

lemma sendRequest_posts:
  "\<exists>body. sendRequest Y c now method biz =
     readAnswer Y method (ay_gateway Y now (baseUrl (al_gatewayUrl c)) ''/gateway.do?charset=utf-8'' body)"
proof -
  let ?params = "commonParams Y c now method biz"
  have "\<exists>d. signLoop ?params [] signedKeys = Some d" by (simp add: signedKeys_def common_params_texts)
  moreover have "\<exists>b. requestBody Y ?params sig = Some b" for sig
    by (simp add: requestBody_def formField_def common_params_texts)
  then have "\<exists>b. requestBody Y ?params (alipay_sign Y c d) = Some b" for d .
  ultimately show ?thesis unfolding sendRequest_def Let_def by (metis (no_types, lifting) option.simps(5))
qed

lemma member_readable: "isMember j k = Some b \<Longrightarrow> readable j"
  by (cases j) simp_all

lemma readAnswer_silent:
  "readAnswer Y method r = None \<longleftrightarrow>
     (\<exists>txt root. r = Some (200, txt) \<and> ay_parseJson Y txt = (True, root) \<and> \<not> readable root)"
  by (auto simp: readAnswer_def styledError_def reportFailure_throws member_throws_iff(1) Let_def
      dest: member_readable split: option.splits prod.splits bool.splits if_splits)

lemma default_member_object:
  "isObject j \<Longrightarrow> \<exists>j'. default_member k v j = Some j' \<and> isObject j'"
  by (cases j) (auto simp: default_member_def split: bool.splits option.splits)

text \<open>
  C30: the Alipay channel answers every request of the services. If the gateway never sends
  a JSON text that is not an object or null, then the calls with the payloads that
  \<open>createPayment\<close>, \<open>createQRPayment\<close> and \<open>createRefund\<close> build, and the two queries, are answered.
  The same method given a payload without an order number is never answered: its refusal
  converts an object to a string, which throws.
\<close>

theorem alipay_channel_answers:
  assumes "\<forall>now url path body txt root. ay_gateway Y now url path body = Some (200, txt) \<longrightarrow>
      ay_parseJson Y txt = (True, root) \<longrightarrow> readable root"
  shows "(cp_channel rq = ''alipay'' \<longrightarrow> ch_createQRPayment (alipayChannel Y c) now (createPayload S rq fen) \<noteq> None) \<and>
     (q_channel q \<noteq> ''wechat'' \<longrightarrow> ch_createQRPayment (alipayChannel Y c) now (qrPayload q) \<noteq> None) \<and>
     ch_refund (alipayChannel Y c) now (alipayRefundPayload rrq) \<noteq> None \<and>
     ch_queryPayment (alipayChannel Y c) now no \<noteq> None \<and> ch_queryRefund (alipayChannel Y c) now no \<noteq> None \<and>
     (isMember payload ''out_trade_no'' = Some False \<longrightarrow>
        ch_createQRPayment (alipayChannel Y c) now payload = None \<and> ch_refund (alipayChannel Y c) now payload = None)"
proof -
  have send: "sendRequest Y c now api biz \<noteq> None" for api biz
    using sendRequest_posts [of Y c now api biz] assms readAnswer_silent [of Y api] by (metis (no_types))
  have pre: "precreateTrade Y c now j \<noteq> None"
    if j: "isObject j" "isMember j ''out_trade_no'' = Some True" "isMember j ''total_amount'' = Some True" for j
  proof -
    obtain b where b: "default_member ''subject'' ''Payment Order'' j = Some b" "isObject b"
      using default_member_object [OF j(1)] by blast
    obtain d where "withNotifyUrl c b = Some d" 
      using default_member_object [OF b(2), of "''notify_url''" "al_notifyUrl c"]
      by (cases "al_notifyUrl c = []") (auto simp: withNotifyUrl_def)
    with b j(2,3) send show ?thesis by (simp add: precreateTrade_def)
  qed
  have "isObject (alipayPayload S rq fen)" "isMember (alipayPayload S rq fen) ''out_trade_no'' = Some True"
    "isMember (alipayPayload S rq fen) ''total_amount'' = Some True"
    by (simp_all add: alipayPayload_def jset_text_def jobject_def)
  then have "cp_channel rq = ''alipay'' \<longrightarrow> precreateTrade Y c now (createPayload S rq fen) \<noteq> None"
    using pre by (simp add: createPayload_def)
  moreover have "isObject (qrPayload q)" "isMember (qrPayload q) ''out_trade_no'' = Some True"
    "isMember (qrPayload q) ''total_amount'' = Some True" if "q_channel q \<noteq> ''wechat''"
    using that by (simp_all add: qrPayload_def jobject_def split: option.split)
  then have "q_channel q \<noteq> ''wechat'' \<longrightarrow> precreateTrade Y c now (qrPayload q) \<noteq> None" using pre by blast
  moreover have "alipayRefund Y c now (alipayRefundPayload rrq) \<noteq> None"
    using send by (simp add: alipayRefund_def alipayRefundPayload_def jset_text_def jobject_def default_member_def)
  ultimately show ?thesis
    using send by (auto simp: alipayChannel_def queryTrade_def alipayQueryRefund_def precreateTrade_def alipayRefund_def
        reportFailure_throws split: option.split)
qed

text \<open>A concrete gateway: it answers every call with the same trade, and any text after \<open>K\<close> is its signature.\<close>

definition sample_trade :: json where
  "sample_trade = jobject [(''alipay_trade_query_response'', jobject [(''code'', JString ''10000'')]), (''sign'', JString ''s'')]"

definition sample_alipay :: alipay_sys where
  "sample_alipay = \<lparr>ay_readFile = \<lambda>_. None, ay_rsaSign = (@), ay_rsaVerify = \<lambda>pem data sig. sig = pem @ data,
     ay_urlEncode = id, ay_urlDecode = id, ay_writeCompact = \<lambda>_. ''{}'', ay_toStyledString = \<lambda>_. ''{}'',
     ay_parseJson = \<lambda>_. (True, sample_trade), ay_localTime = \<lambda>_. ''2025-01-01 00:00:00'', ay_getUuid = \<lambda>_. ''u'',
     ay_gateway = \<lambda>_ _ _ _. Some (200, ''{}''), ay_stodCents = \<lambda>_. None\<rparr>"

definition sample_client :: alipay_client where
  "sample_client = \<lparr>al_appId = ''app'', al_sellerId = ''seller'', al_privateKeyPath = ''p'', al_alipayPublicKeyPath = ''q'',
     al_gatewayUrl = ''https://openapi.alipay.com/gateway.do'', al_notifyUrl = [], al_timeoutMs = 30000,
     al_privateKeyPem = ''K'', al_alipayPublicKeyPem = ''K''\<rparr>"

theorem alipay_channel_answers_witness:
  "ch_createQRPayment (alipayChannel sample_alipay sample_client) 0
     (createPayload plain_sys (sample_request\<lparr>cp_channel := ''alipay''\<rparr>) 150) \<noteq> None \<and>
   ch_createQRPayment (alipayChannel sample_alipay sample_client) 0 (jobject [(''total_amount'', JString ''1'')]) = None \<and>
   ch_queryPayment (alipayChannel sample_alipay sample_client) 0 ''O1'' = Some (jobject [(''code'', JString ''10000'')], [])"
proof -
  have a: "\<forall>now url path body txt root. ay_gateway sample_alipay now url path body = Some (200, txt) \<longrightarrow>
      ay_parseJson sample_alipay txt = (True, root) \<longrightarrow> readable root"
    by (auto simp: sample_alipay_def sample_trade_def jobject_def)
  have "isMember (jobject [(''total_amount'', JString ''1'')]) ''out_trade_no'' = Some False" by code_simp
  moreover have "ch_queryPayment (alipayChannel sample_alipay sample_client) 0 ''O1'' = Some (jobject [(''code'', JString ''10000'')], [])"
    by code_simp
  ultimately show ?thesis
    using alipay_channel_answers [OF a, of "sample_request\<lparr>cp_channel := ''alipay''\<rparr>" sample_client 0 plain_sys 150]
    by simp
qed

end
