(* ===== verification/Pay_Http.thy ===== *)
theory Pay_Http
  imports Pay_Auth Pay_Query Pay_Alipay Pay_Refund_Laws Pay_Notice_Runs
begin

text \<open>
  The HTTP side: \<open>handlers/PayHandlers.cc\<close>, \<open>handlers/PayMetricsHandlers.cc\<close>, the answer of
  \<open>handlers/PluginGuard.h\<close>, and the wrappers \<open>guarded\<close>, \<open>authed\<close> and \<open>open\<close> that
  \<open>PayPlugin::registerHttpHandlers\<close> puts around every route.

  A handler is a function of the request and the world to the answers it gives, whether it
  threw, and the world after it. The framework (parsing of the body, headers, query
  parameters, attributes) is the request record: \<open>getJsonObject\<close> is \<open>None\<close> for a null pointer,
  an absent header or parameter is the empty text.
\<close>

section \<open>Requests and answers\<close>

record http_request = auth_request +
  hq_json :: "json option"
  hq_header :: "string \<Rightarrow> string"
  hq_parameter :: "string \<Rightarrow> string"
  hq_attribute_user :: "int option"
  hq_body :: string

datatype content = NoContent | Text string | Json json

record answer =
  an_status :: nat
  an_content :: content

type_synonym handled = "answer list \<times> bool"

definition empty_answer :: answer where
  "empty_answer = \<lparr>an_status = 200, an_content = NoContent\<rparr>"

definition json_answer :: "nat \<Rightarrow> int \<Rightarrow> string \<Rightarrow> answer" where
  "json_answer status code message =
     \<lparr>an_status = status, an_content = Json (jobject [(''code'', JInt code), (''message'', JString message)])\<rparr>"

definition answered :: "answer \<Rightarrow> 'w \<Rightarrow> handled \<times> 'w" where
  "answered a w = (([a], False), w)"

definition threw :: "'w \<Rightarrow> handled \<times> 'w" where
  "threw w = (([], True), w)"

definition respondBadRequest :: "string \<Rightarrow> answer" where
  "respondBadRequest message = json_answer 400 400 message"

definition respondPluginUnavailable :: "string \<Rightarrow> answer" where
  "respondPluginUnavailable what = json_answer 503 1501 (what @ '' is not available in this process'')"

definition badAmount :: answer where
  "badAmount = json_answer 400 40001
     ''Invalid amount format. Expected positive number with up to 2 decimal places (e.g. 100.00)''"

text \<open>\<open>std::error_code::value\<close>; a code is an error when its value is not zero.\<close>

fun error_value :: "ecode \<Rightarrow> int" where
  "error_value NoError = 0"
| "error_value (PayError code _) = code"
| "error_value IoError = 5"
| "error_value InvalidArgument = 22"
| "error_value (SystemError code) = code"

definition mapErrorToHttpStatus :: "int \<Rightarrow> nat" where
  "mapErrorToHttpStatus errorCode =
     (if errorCode = 1404 \<or> errorCode = 1004 then 404
      else if errorCode = 1001 \<or> errorCode = 1400 \<or> errorCode = 400 then 400
      else if errorCode = 1409 then 409
      else if errorCode = 1501 then 503
      else if errorCode = 1502 then 502
      else 500)"

text \<open>The lambda every handler passes to its service.\<close>

definition serviceAnswer :: "reply \<Rightarrow> answer" where
  "serviceAnswer = (\<lambda>(result, error).
     \<lparr>an_status = (if error_value error \<noteq> 0 then mapErrorToHttpStatus (error_value error) else 200),
      an_content = Json result\<rparr>)"

definition relay :: "reply option \<times> world \<Rightarrow> handled \<times> world" where
  "relay = (\<lambda>(rep, w). ((case rep of None \<Rightarrow> [] | Some r \<Rightarrow> [serviceAnswer r], False), w))"

section \<open>Shapes\<close>

text \<open>
  \<open>std::regex_match\<close> against \<open>^\d+(\.\d{1,2})?$\<close>: the digits of the first group are the longest
  run of digits, since a digit cannot match the dot.
\<close>

definition validateAmount :: "string \<Rightarrow> bool" where
  "validateAmount amount \<longleftrightarrow>
     amount \<noteq> [] \<and> takeWhile is_digit amount \<noteq> [] \<and>
     (case dropWhile is_digit amount of
        [] \<Rightarrow> True
      | c # cents \<Rightarrow> c = CHR ''.'' \<and> (length cents = 1 \<or> length cents = 2) \<and> list_all is_digit cents)"

datatype field_type = StringField | Int64Field

record body_field =
  bf_key :: string
  bf_type :: field_type
  bf_optional :: bool

text \<open>\<open>None\<close>: an accessor throws; \<open>Some (Some error)\<close>: the check fails with a text.\<close>

definition fieldProblem :: "json \<Rightarrow> body_field \<Rightarrow> string option option" where
  "fieldProblem json f =
     (case isMember json (bf_key f) of
        None \<Rightarrow> None
      | Some False \<Rightarrow>
          Some (if bf_optional f then None else Some (''Field '' @ bf_key f @ '' is required''))
      | Some True \<Rightarrow>
          (case jget json (bf_key f) JNull of
             None \<Rightarrow> None
           | Some v \<Rightarrow>
               Some (case bf_type f of
                       StringField \<Rightarrow>
                         if isString v then None else Some (''Field '' @ bf_key f @ '' must be a string'')
                     | Int64Field \<Rightarrow>
                         if isInt64 v then None else Some (''Field '' @ bf_key f @ '' must be an integer''))))"

fun validateBodyTypes :: "json \<Rightarrow> body_field list \<Rightarrow> string option option" where
  "validateBodyTypes json [] = Some None"
| "validateBodyTypes json (f # fs) =
     (case fieldProblem json f of
        None \<Rightarrow> None
      | Some (Some error) \<Rightarrow> Some (Some error)
      | Some None \<Rightarrow> validateBodyTypes json fs)"

definition opt_text :: "string \<Rightarrow> body_field" where
  "opt_text k = \<lparr>bf_key = k, bf_type = StringField, bf_optional = True\<rparr>"

definition opt_int :: "string \<Rightarrow> body_field" where
  "opt_int k = \<lparr>bf_key = k, bf_type = Int64Field, bf_optional = True\<rparr>"

text \<open>The chain \<open>!isMember(a) || !isMember(b) || ..\<close>, which stops at the first absent key.\<close>

fun lacks :: "json \<Rightarrow> string list \<Rightarrow> bool option" where
  "lacks json [] = Some False"
| "lacks json (k # ks) =
     (case isMember json k of None \<Rightarrow> None | Some False \<Rightarrow> Some True | Some True \<Rightarrow> lacks json ks)"

text \<open>
  The head of the three handlers that read a body: \<open>OPTIONS\<close>, the parsed body, the required
  fields, the shapes and the amount.
\<close>

definition withBody ::
  "http_request \<Rightarrow> string list \<Rightarrow> string \<Rightarrow> body_field list \<Rightarrow> (json \<Rightarrow> string \<Rightarrow> 'w \<Rightarrow> handled \<times> 'w) \<Rightarrow> 'w
     \<Rightarrow> handled \<times> 'w" where
  "withBody rq required missing shape rest w =
     (if rq_options rq then answered empty_answer w
      else
        (case hq_json rq of
           None \<Rightarrow> answered (json_answer 400 400 ''Invalid JSON'') w
         | Some json \<Rightarrow>
             (case lacks json required of
                None \<Rightarrow> threw w
              | Some True \<Rightarrow> answered (json_answer 400 400 missing) w
              | Some False \<Rightarrow>
                  (case validateBodyTypes json shape of
                     None \<Rightarrow> threw w
                   | Some (Some shapeError) \<Rightarrow> answered (respondBadRequest shapeError) w
                   | Some None \<Rightarrow>
                       (case jstr json ''amount'' [] of
                          None \<Rightarrow> threw w
                        | Some amountStr \<Rightarrow>
                            if \<not> validateAmount amountStr then answered badAmount w
                            else rest json amountStr w)))))"

definition idempotencyHeader :: "http_request \<Rightarrow> string" where
  "idempotencyHeader rq =
     (let key = hq_header rq ''X-Idempotency-Key''
      in if key = [] then hq_header rq ''Idempotency-Key'' else key)"

section \<open>PayController\<close>

text \<open>
  What the process provides: the services and the Alipay client, absent when the plugin is
  not registered, the JSON reader and URL decoder, and the texts of times that the order
  list prints.
\<close>

record app =
  ap_paymentService :: "sys option"
  ap_refundService :: "sys option"
  ap_callbackService :: "(callback_sys \<times> sys) option"
  ap_alipayClient :: "(alipay_sys \<times> alipay_client) option"
  ap_parseJson :: "string \<Rightarrow> bool \<times> json"
  ap_urlDecode :: "string \<Rightarrow> string"
  ap_createdText :: "order_row \<Rightarrow> string"
  ap_updatedText :: "order_row \<Rightarrow> string"
  ap_readJson :: "string \<Rightarrow> json"

definition createFields :: "body_field list" where
  "createFields = [opt_text ''order_no'', opt_text ''amount'', opt_text ''currency'', opt_text ''description'',
     opt_text ''notify_url'', opt_text ''channel'', opt_int ''user_id'', opt_text ''time_expire'']"

text \<open>The owner: the body's \<open>user_id\<close>, else the attribute set by a filter, else 0.\<close>

definition ownerOf :: "http_request \<Rightarrow> json \<Rightarrow> int option" where
  "ownerOf rq json =
     (case isMember json ''user_id'' of
        None \<Rightarrow> None
      | Some True \<Rightarrow> Option.bind (jget json ''user_id'' JNull) asInt64
      | Some False \<Rightarrow> Some (case hq_attribute_user rq of None \<Rightarrow> 0 | Some u \<Rightarrow> u))"

text \<open>The request handed to the service; \<open>None\<close>: an accessor throws.\<close>

definition createRequest :: "json \<Rightarrow> string \<Rightarrow> int \<Rightarrow> create_request option" where
  "createRequest json amountStr userId =
     (case (jstr json ''order_no'' [], jstr json ''currency'' ''CNY'', jstr json ''description'' [],
            jstr json ''notify_url'' [], jstr json ''channel'' ''alipay'', jstr json ''time_expire'' [],
            jget json ''scene_info'' JNull) of
        (Some orderNo, Some currency, Some description, Some notifyUrl, Some channel, Some timeExpire, Some sceneInfo) \<Rightarrow>
          Some \<lparr>cp_orderNo = orderNo, cp_amount = amountStr, cp_currency = currency, cp_description = description,
                cp_notifyUrl = notifyUrl, cp_userId = userId, cp_sceneInfo = sceneInfo, cp_channel = channel,
                cp_timeExpire = timeExpire, cp_attach = []\<rparr>
      | _ \<Rightarrow> None)"

definition derivedCreateKey :: "sys \<Rightarrow> create_request \<Rightarrow> string" where
  "derivedCreateKey S q =
     ''payment:'' @ cp_orderNo q @ '':'' @ show_int (cp_userId q) @ '':'' @ getSha256 S (cp_amount q @ cp_currency q)"

definition createKey :: "sys \<Rightarrow> http_request \<Rightarrow> create_request \<Rightarrow> string" where
  "createKey S rq q = (if idempotencyHeader rq = [] then derivedCreateKey S q else idempotencyHeader rq)"

definition createChecked :: "env \<Rightarrow> app \<Rightarrow> http_request \<Rightarrow> json \<Rightarrow> string \<Rightarrow> world \<Rightarrow> handled \<times> world" where
  "createChecked e A rq json amountStr w =
     (case ownerOf rq json of
       None \<Rightarrow> threw w
     | Some userId \<Rightarrow>
         (case createRequest json amountStr userId of
            None \<Rightarrow> threw w
          | Some q \<Rightarrow>
              if userId \<le> 0
              then answered (json_answer 401 401 ''User ID required. Please provide user_id in request body.'') w
              else
                (case ap_paymentService A of
                   None \<Rightarrow> answered (respondPluginUnavailable ''Payment service'') w
                 | Some S \<Rightarrow>
                     relay (createPayment e S q (createKey S rq q) w))))"

definition createPaymentHandler :: "env \<Rightarrow> app \<Rightarrow> http_request \<Rightarrow> world \<Rightarrow> handled \<times> world" where
  "createPaymentHandler e A rq w =
     withBody rq [''order_no'', ''amount''] ''Missing required fields: order_no and amount'' createFields
       (createChecked e A rq) w"

definition qrFields :: "body_field list" where
  "qrFields = [opt_text ''order_no'', opt_text ''amount'', opt_text ''channel'', opt_int ''user_id'',
     opt_text ''description'', opt_text ''product_name'', opt_text ''currency'', opt_text ''notify_url'',
     opt_text ''buyer_id'', opt_text ''idempotency_key'', opt_text ''time_expire'']"

text \<open>\<open>if (json->isMember(field)) request[field] = (*json)[field]\<close>.\<close>

definition copyMember :: "json \<Rightarrow> string \<Rightarrow> json \<Rightarrow> json option" where
  "copyMember json k request =
     (case isMember json k of
        None \<Rightarrow> None
      | Some False \<Rightarrow> Some request
      | Some True \<Rightarrow> map_option (\<lambda>v. jset k v request) (jget json k JNull))"

fun copyMembers :: "json \<Rightarrow> string list \<Rightarrow> json \<Rightarrow> json option" where
  "copyMembers json [] request = Some request"
| "copyMembers json (k # ks) request = Option.bind (copyMember json k request) (copyMembers json ks)"

definition qrCopied :: "string list" where
  "qrCopied = [''currency'', ''notify_url'', ''buyer_id'', ''idempotency_key'', ''time_expire'']"

definition qrBody :: "http_request \<Rightarrow> json \<Rightarrow> string \<Rightarrow> int \<Rightarrow> json option" where
  "qrBody rq json amountStr userId =
     (case (jstr json ''order_no'' [], jstr json ''channel'' [], jstr json ''description'' [],
            jstr json ''product_name'' ''Payment'') of
        (Some orderNo, Some channel, Some description, Some subject) \<Rightarrow>
          (case copyMembers json qrCopied
                  (jobject [(''order_no'', JString orderNo), (''amount'', JString amountStr),
                            (''channel'', JString channel), (''user_id'', JInt userId),
                            (''description'', JString description), (''subject'', JString subject)]) of
             None \<Rightarrow> None
           | Some request \<Rightarrow>
               (case jstr request ''idempotency_key'' [] of
                  None \<Rightarrow> None
                | Some key \<Rightarrow>
                    Some (if key = [] then jset_text ''idempotency_key'' (idempotencyHeader rq) request
                          else request)))
      | _ \<Rightarrow> None)"

text \<open>
  The accessors \<open>createQRPayment\<close> calls before its first asynchronous step: an exception of
  one of them reaches the handler.
\<close>

definition qrServiceThrows :: "sys \<Rightarrow> json \<Rightarrow> bool" where
  "qrServiceThrows S request \<longleftrightarrow>
     hasDb S \<and>
     (case qrTexts request of
        None \<Rightarrow> True
      | Some (orderNo, amount, channel, subject, timeExpire) \<Rightarrow>
          orderNo \<noteq> [] \<and> amount \<noteq> [] \<and>
          (case qrUserId request of
             None \<Rightarrow> True
           | Some userId \<Rightarrow> 0 < userId \<and> qrRequest request orderNo amount channel subject timeExpire userId = None))"

definition qrBodyChecked :: "env \<Rightarrow> app \<Rightarrow> http_request \<Rightarrow> json \<Rightarrow> string \<Rightarrow> world \<Rightarrow> handled \<times> world" where
  "qrBodyChecked e A rq json amountStr w =
     (case Option.bind (jget json ''user_id'' JNull) asInt64 of
       None \<Rightarrow> threw w
     | Some userId \<Rightarrow>
         if userId \<le> 0 then answered (respondBadRequest ''Field user_id must be a positive integer'') w
         else
           (case qrBody rq json amountStr userId of
              None \<Rightarrow> threw w
            | Some request \<Rightarrow>
                (case ap_paymentService A of
                   None \<Rightarrow> answered (respondPluginUnavailable ''Payment service'') w
                 | Some S \<Rightarrow>
                     if qrServiceThrows S request then threw w
                     else relay (createQRPayment e S request w))))"

definition createQRPaymentHandler :: "env \<Rightarrow> app \<Rightarrow> http_request \<Rightarrow> world \<Rightarrow> handled \<times> world" where
  "createQRPaymentHandler e A rq w =
     withBody rq [''order_no'', ''amount'', ''channel'', ''user_id'']
       ''Missing required fields: order_no, amount, channel, user_id'' qrFields
       (qrBodyChecked e A rq) w"

text \<open>
  The callback of \<open>queryOrder\<close> looks at \<open>data.status\<close> of the result for its log before it
  answers; an exception there leaves the request without an answer.
\<close>

definition statusInspected :: "json \<Rightarrow> bool" where
  "statusInspected result \<longleftrightarrow>
     (case isMember result ''data'' of
        None \<Rightarrow> False
      | Some False \<Rightarrow> True
      | Some True \<Rightarrow> (case jget result ''data'' JNull of None \<Rightarrow> False | Some d \<Rightarrow> isMember d ''status'' \<noteq> None))"

definition queryOrderHandler :: "env \<Rightarrow> app \<Rightarrow> http_request \<Rightarrow> world \<Rightarrow> handled \<times> world" where
  "queryOrderHandler e A rq w =
     (if rq_options rq then answered empty_answer w
      else
        let orderNo = hq_parameter rq ''order_no''
        in if orderNo = [] then answered (json_answer 400 400 ''Missing required parameter: order_no'') w
           else
             (case ap_paymentService A of
                None \<Rightarrow> answered (respondPluginUnavailable ''Payment service'') w
              | Some S \<Rightarrow>
                  (case queryOrder e S orderNo w of
                     (None, w1) \<Rightarrow> (([], False), w1)
                   | (Some (result, error), w1) \<Rightarrow>
                       if statusInspected result then answered (serviceAnswer (result, error)) w1
                       else (([], False), w1))))"

definition refundFields :: "body_field list" where
  "refundFields = map opt_text [''order_no'', ''amount'', ''reason'', ''notify_url'', ''funds_account'',
     ''payment_no'', ''refund_no'']"

definition refundRequest :: "json \<Rightarrow> string \<Rightarrow> refund_request option" where
  "refundRequest json amountStr =
     (case (jstr json ''order_no'' [], jstr json ''reason'' [], jstr json ''notify_url'' [],
            jstr json ''funds_account'' [], jstr json ''payment_no'' [], jstr json ''refund_no'' []) of
        (Some orderNo, Some reason, Some notifyUrl, Some fundsAccount, Some paymentNo, Some refundNo) \<Rightarrow>
          Some \<lparr>rf_orderNo = orderNo, rf_paymentNo = paymentNo, rf_refundNo = refundNo, rf_amount = amountStr,
                rf_reason = reason, rf_notifyUrl = notifyUrl, rf_fundsAccount = fundsAccount\<rparr>
      | _ \<Rightarrow> None)"

definition derivedRefundKey :: "sys \<Rightarrow> refund_request \<Rightarrow> string" where
  "derivedRefundKey S q = ''refund:'' @ rf_orderNo q @ '':'' @ getSha256 S (rf_amount q @ rf_reason q)"

definition refundKey :: "sys \<Rightarrow> http_request \<Rightarrow> refund_request \<Rightarrow> string" where
  "refundKey S rq q = (if idempotencyHeader rq = [] then derivedRefundKey S q else idempotencyHeader rq)"

text \<open>\<open>None\<close> would be a \<open>createRefund\<close> that does not return; it always does.\<close>

definition refundChecked :: "env \<Rightarrow> app \<Rightarrow> http_request \<Rightarrow> json \<Rightarrow> string \<Rightarrow> world \<Rightarrow> handled \<times> world" where
  "refundChecked e A rq json amountStr w =
     (case refundRequest json amountStr of
       None \<Rightarrow> threw w
     | Some q \<Rightarrow>
         (case ap_refundService A of
            None \<Rightarrow> answered (respondPluginUnavailable ''Refund service'') w
          | Some S \<Rightarrow>
              (case createRefund e S q (refundKey S rq q) w of
                 None \<Rightarrow> (([], False), w)
               | Some out \<Rightarrow> relay out)))"

definition refundHandler :: "env \<Rightarrow> app \<Rightarrow> http_request \<Rightarrow> world \<Rightarrow> handled \<times> world" where
  "refundHandler e A rq w =
     withBody rq [''order_no'', ''amount''] ''Missing required fields: order_no and amount'' refundFields
       (refundChecked e A rq) w"

definition queryRefundHandler :: "env \<Rightarrow> app \<Rightarrow> http_request \<Rightarrow> world \<Rightarrow> handled \<times> world" where
  "queryRefundHandler e A rq w =
     (if rq_options rq then answered empty_answer w
      else
        let refundNo = hq_parameter rq ''refund_no''
        in if refundNo = [] then answered (json_answer 400 400 ''Missing required parameter: refund_no'') w
           else
             (case ap_refundService A of
                None \<Rightarrow> answered (respondPluginUnavailable ''Refund service'') w
              | Some S \<Rightarrow> relay (queryRefund e S refundNo w)))"

text \<open>
  \<open>std::stoul\<close>: as \<open>stoll\<close>, but the magnitude has to fit 64 bits and a minus sign negates
  it modulo \<open>2 ^ 64\<close>.
\<close>

definition stoul :: "string \<Rightarrow> 64 word option" where
  "stoul s =
     (let s1 = dropWhile is_space s;
          neg = (take 1 s1 = ''-'');
          s2 = (if take 1 s1 = ''-'' \<or> take 1 s1 = ''+'' then drop 1 s1 else s1);
          digits = takeWhile is_digit s2;
          v = (of_nat (dec_value digits) :: 64 word)
      in if digits = [] \<or> 2 ^ 64 \<le> dec_value digits then None else Some (if neg then - v else v))"

text \<open>The page of the order list; \<open>Inl\<close>: the parameter that does not parse.\<close>

definition listPage :: "http_request \<Rightarrow> string + (int \<times> 64 word \<times> 64 word)" where
  "listPage rq =
     (let userIdStr = hq_parameter rq ''user_id''; limitStr = hq_parameter rq ''limit'';
          offsetStr = hq_parameter rq ''offset''
      in case (if userIdStr = [] then Some 0 else stoll userIdStr) of
           None \<Rightarrow> Inl ''user_id''
         | Some userId \<Rightarrow>
             (case (if limitStr = [] then Some 50 else map_option (\<lambda>n. if 100 < n then 100 else n) (stoul limitStr)) of
                None \<Rightarrow> Inl ''limit''
              | Some n \<Rightarrow>
                  (case (if offsetStr = [] then Some 0 else stoul offsetStr) of
                     None \<Rightarrow> Inl ''offset''
                   | Some offset \<Rightarrow> Inr (userId, n, offset))))"

definition queryOrderListHandler :: "env \<Rightarrow> app \<Rightarrow> http_request \<Rightarrow> world \<Rightarrow> handled \<times> world" where
  "queryOrderListHandler e A rq w =
     (if rq_options rq then answered empty_answer w
      else
        (case listPage rq of
           Inl name \<Rightarrow> answered (json_answer 400 400 (''Invalid '' @ name @ '' parameter'')) w
         | Inr (userId, n, offset) \<Rightarrow>
             (case ap_paymentService A of
                None \<Rightarrow> answered (respondPluginUnavailable ''Payment service'') w
              | Some S \<Rightarrow>
                  (case queryOrderList e (ap_createdText A) (ap_updatedText A) (ap_readJson A)
                          (hq_parameter rq ''status'') userId (unat n) (unat offset) w of
                     (rep, w1) \<Rightarrow> answered (serviceAnswer rep) w1))))"

text \<open>
  \<open>reconcileSummary\<close> starts the two chains of the service, which ignores the date: the
  answers are those of the state the chains end in.
\<close>

definition reconcileSummaryHandler :: "app \<Rightarrow> http_request \<Rightarrow> answer + summary_state" where
  "reconcileSummaryHandler A rq =
     (if rq_options rq then Inl empty_answer
      else
        (case ap_paymentService A of
           None \<Rightarrow> Inl (respondPluginUnavailable ''Payment service'')
         | Some S \<Rightarrow> Inr (reconcileSummary S)))"

definition summaryAnswers :: "summary_state \<Rightarrow> answer list" where
  "summaryAnswers s = map serviceAnswer (sm_replies s)"

section \<open>PayMetricsController\<close>

definition authMetrics :: "auth_metrics \<Rightarrow> http_request \<Rightarrow> answer" where
  "authMetrics mt rq =
     (if rq_options rq then empty_answer else \<lparr>an_status = 200, an_content = Json (auth_snapshot mt)\<rparr>)"

definition authMetricsProm :: "auth_metrics \<Rightarrow> http_request \<Rightarrow> answer" where
  "authMetricsProm mt rq =
     (if rq_options rq then empty_answer else \<lparr>an_status = 200, an_content = Text (toPrometheus mt)\<rparr>)"

section \<open>The wrappers of a route\<close>

text \<open>
  \<open>guarded\<close>: the callback passes on the first answer only, and an exception before any
  answer is answered with 500.
\<close>

definition internalError :: answer where
  "internalError = json_answer 500 500 ''Internal server error''"

definition guarded :: "handled \<times> 'w \<Rightarrow> answer list \<times> 'w" where
  "guarded = (\<lambda>((answers, thrown), w).
     (if answers \<noteq> [] then take 1 answers else if thrown then [internalError] else [], w))"

record server =
  sv_world :: world
  sv_metrics :: auth_metrics

record auth_config =
  ac_memcmp :: "string \<Rightarrow> string \<Rightarrow> nat \<Rightarrow> int"
  ac_config :: json
  ac_singleKey :: "string option"
  ac_multiKeys :: "string option"
  ac_basePath :: string

definition refusalAnswer :: "http_response \<Rightarrow> answer" where
  "refusalAnswer r = \<lparr>an_status = status_code r, an_content = Text (body r)\<rparr>"

text \<open>A handler that works on the books only.\<close>

definition booked :: "(http_request \<Rightarrow> world \<Rightarrow> handled \<times> world) \<Rightarrow> http_request \<Rightarrow> server \<Rightarrow> handled \<times> server" where
  "booked handler rq sv = (case handler rq (sv_world sv) of (h, w) \<Rightarrow> (h, sv\<lparr>sv_world := w\<rparr>))"

definition authed ::
  "auth_config \<Rightarrow> (http_request \<Rightarrow> server \<Rightarrow> handled \<times> server) \<Rightarrow> http_request \<Rightarrow> server \<Rightarrow> answer list \<times> server" where
  "authed K handler rq sv =
     guarded
       (case checkAuth (ac_memcmp K) (ac_config K) (ac_singleKey K) (ac_multiKeys K) (ac_basePath K)
               (auth_request.truncate rq) (sv_metrics sv) of
          None \<Rightarrow> threw sv
        | Some (Some resp, mt) \<Rightarrow> answered (refusalAnswer resp) (sv\<lparr>sv_metrics := mt\<rparr>)
        | Some (None, mt) \<Rightarrow> handler rq (sv\<lparr>sv_metrics := mt\<rparr>))"

text \<open>\<open>open\<close>: a route without the key check.\<close>

definition open_route ::
  "(http_request \<Rightarrow> server \<Rightarrow> handled \<times> server) \<Rightarrow> http_request \<Rightarrow> server \<Rightarrow> answer list \<times> server" where
  "open_route handler rq sv = guarded (handler rq sv)"

section \<open>Shapes and accessors\<close>

lemma field_throws_iff: "fieldProblem j f = None \<longleftrightarrow> \<not> readable j"
  using member_throws_iff(1) [of j "bf_key f"] member_throws_iff(2) [of j "bf_key f" JNull] by (auto simp: fieldProblem_def split: option.splits bool.splits)

lemma shape_throws: "validateBodyTypes j fs = None \<Longrightarrow> \<not> readable j"
  by (induction fs) (auto simp: field_throws_iff split: option.splits)

lemma lacks_throws: "lacks j ks = None \<Longrightarrow> \<not> readable j"
  by (induction ks) (auto simp: member_throws_iff split: option.splits bool.splits)

lemma lacks_unreadable: "\<not> readable j \<Longrightarrow> ks \<noteq> [] \<Longrightarrow> lacks j ks = None"
  by (cases ks; cases j) simp_all

lemma lacks_member: "lacks j ks = Some False \<Longrightarrow> k \<in> set ks \<Longrightarrow> isMember j k = Some True"
  by (induction ks) (auto split: option.splits bool.splits)

lemma shape_field: "validateBodyTypes j fs = Some None \<Longrightarrow> f \<in> set fs \<Longrightarrow> fieldProblem j f = Some None"
  by (induction fs) (auto split: option.splits)

text \<open>A checked member reads as its type promises; an absent one as the default.\<close>

lemma text_field_reads:
  assumes "fieldProblem j (opt_text k) = Some None"
  shows "\<exists>s. jget j k (JString d) = Some (JString s) \<and> jstr j k d = Some s"
    "isMember j k = Some True \<Longrightarrow> \<exists>s. jget j k v = Some (JString s)"
proof -
  have j: "readable j" using assms field_throws_iff by (metis option.distinct(1))
  have s: "isString v \<Longrightarrow> \<exists>s. v = JString s" for v by (cases v) simp_all
  show "\<exists>s. jget j k (JString d) = Some (JString s) \<and> jstr j k d = Some s"
    using assms j by (cases j) (auto simp: fieldProblem_def opt_text_def jstr_def dest: s split: option.splits bool.splits if_splits)
  show "isMember j k = Some True \<Longrightarrow> \<exists>s. jget j k v = Some (JString s)"
    using assms j by (cases j) (auto simp: fieldProblem_def opt_text_def dest: s split: option.splits bool.splits if_splits)
qed

lemma int_field_reads:
  assumes "fieldProblem j (opt_int k) = Some None" "isMember j k = Some True"
  shows "\<exists>v i. jget j k d = Some v \<and> asInt64 v = Some i \<and> is_int64 i"
proof -
  have s: "isInt64 v \<Longrightarrow> \<exists>i. asInt64 v = Some i \<and> is_int64 i" for v by (cases v) simp_all
  show ?thesis
    using assms by (cases j) (auto simp: fieldProblem_def opt_int_def dest: s split: option.splits if_splits)
qed

section \<open>The head of a handler\<close>

text \<open>What the common head leads to: an answer, an exception, or the rest of the handler.\<close>

definition refusal_of :: "http_request \<Rightarrow> handled \<times> 'w \<Rightarrow> 'w \<Rightarrow> bool" where
  "refusal_of rq out w \<longleftrightarrow>
     (\<exists>a. out = answered a w \<and> (rq_options rq \<and> a = empty_answer \<or> \<not> rq_options rq \<and> 400 \<le> an_status a))"

definition unreadable :: "http_request \<Rightarrow> bool" where
  "unreadable rq \<longleftrightarrow> \<not> rq_options rq \<and> (case hq_json rq of None \<Rightarrow> False | Some j \<Rightarrow> \<not> readable j)"

definition checked_body :: "http_request \<Rightarrow> string list \<Rightarrow> body_field list \<Rightarrow> json \<Rightarrow> string \<Rightarrow> bool" where
  "checked_body rq ks fs j amountStr \<longleftrightarrow>
     \<not> rq_options rq \<and> hq_json rq = Some j \<and> readable j \<and> lacks j ks = Some False \<and>
     validateBodyTypes j fs = Some None \<and> jstr j ''amount'' [] = Some amountStr \<and> validateAmount amountStr"

lemma refusal_ofI:
  "\<not> rq_options rq \<Longrightarrow> 400 \<le> an_status a \<Longrightarrow> refusal_of rq (answered a w) w"
  by (auto simp: refusal_of_def)

lemma withBody_cases:
  assumes "opt_text ''amount'' \<in> set fs" "ks \<noteq> []"
  obtains "refusal_of rq (withBody rq ks miss fs rest w) w" "\<not> unreadable rq"
  | "withBody rq ks miss fs rest w = threw w" "unreadable rq"
  | j amountStr where "checked_body rq ks fs j amountStr" "withBody rq ks miss fs rest w = rest j amountStr w"
      "\<not> unreadable rq"
proof (cases "rq_options rq \<or> hq_json rq = None")
  case True
  then have "refusal_of rq (withBody rq ks miss fs rest w) w" "\<not> unreadable rq"
    by (auto simp: withBody_def refusal_of_def unreadable_def json_answer_def)
  then show ?thesis by (rule that(1))
next
  case False
  then obtain j where j: "\<not> rq_options rq" "hq_json rq = Some j" by auto
  show ?thesis
  proof (cases "readable j")
    case False
    then show ?thesis
      using j lacks_unreadable [OF False assms(2)] by (intro that(2)) (auto simp: withBody_def unreadable_def)
  next
    case True
    then have u: "\<not> unreadable rq" using j by (simp add: unreadable_def)
    consider "lacks j ks = Some True" | error where "lacks j ks = Some False" "validateBodyTypes j fs = Some (Some error)"
      | "lacks j ks = Some False" "validateBodyTypes j fs = Some None"
      using lacks_throws [of j ks] shape_throws [of j fs] True by (metis (full_types) not_None_eq)
    then show ?thesis
    proof cases
      case 1
      with j have "refusal_of rq (withBody rq ks miss fs rest w) w"
        by (auto simp: withBody_def json_answer_def intro!: refusal_ofI)
      then show ?thesis using u by (rule that(1))
    next
      case (2 error)
      with j have "refusal_of rq (withBody rq ks miss fs rest w) w"
        by (auto simp: withBody_def json_answer_def respondBadRequest_def intro!: refusal_ofI)
      then show ?thesis using u by (rule that(1))
    next
      case 3
      then obtain a where "jstr j ''amount'' [] = Some a"
        using text_field_reads(1) [OF shape_field [OF 3(2) assms(1)]] by blast
      with 3 j True u have "refusal_of rq (withBody rq ks miss fs rest w) w" if "\<not> validateAmount a"
        using that by (auto simp: withBody_def badAmount_def json_answer_def intro!: refusal_ofI)
      moreover have "checked_body rq ks fs j a \<and> withBody rq ks miss fs rest w = rest j a w" if "validateAmount a"
        using that 3 j True \<open>jstr j ''amount'' [] = Some a\<close> by (simp add: withBody_def checked_body_def)
      ultimately show ?thesis using u that(1,3) by blast
    qed
  qed
qed

section \<open>Requests built from a checked body\<close>

lemma checked_text: "checked_body rq ks fs j a \<Longrightarrow> opt_text k \<in> set fs \<Longrightarrow> \<exists>s. jstr j k d = Some s"
  using text_field_reads(1) [OF shape_field, of j fs k d] by (auto simp: checked_body_def)

lemma checked_int:
  assumes "checked_body rq ks fs j a" "opt_int k \<in> set fs" "isMember j k = Some True"
  obtains v i where "jget j k d = Some v" "asInt64 v = Some i" "is_int64 i"
  using assms int_field_reads [OF shape_field, of j fs k d] by (auto simp: checked_body_def)

lemma checked_readable: "checked_body rq ks fs j a \<Longrightarrow> readable j"
  by (simp add: checked_body_def)

lemma checked_owner:
  assumes "checked_body rq ks fs j a" "opt_int ''user_id'' \<in> set fs"
  shows "\<exists>u. ownerOf rq j = Some u"
proof (cases "isMember j ''user_id''")
  case None
  then show ?thesis using checked_readable [OF assms(1)] member_throws_iff(1) by blast
next
  case (Some present)
  then show ?thesis
    by (cases present) (auto simp: ownerOf_def elim: checked_int [OF assms, of JNull])
qed

lemma checked_create:
  assumes "checked_body rq ks createFields j a"
  shows "\<exists>q. createRequest j a u = Some q \<and> cp_amount q = a \<and> cp_userId q = u"
proof -
  have r: "opt_text k \<in> set createFields \<Longrightarrow> \<exists>s. jstr j k d = Some s" for k d
    using assms by (rule checked_text)
  have "\<exists>v. jget j ''scene_info'' JNull = Some v"
    using checked_readable [OF assms] member_throws_iff(2) [of j "''scene_info''" JNull] by auto
  with r [of "''order_no''" "[]"] r [of "''currency''" "''CNY''"] r [of "''description''" "[]"]
    r [of "''notify_url''" "[]"] r [of "''channel''" "''alipay''"] r [of "''time_expire''" "[]"]
  show ?thesis by (auto simp: createRequest_def createFields_def)
qed

lemma checked_refund:
  assumes "checked_body rq ks refundFields j a"
  shows "\<exists>q. refundRequest j a = Some q \<and> rf_amount q = a"
proof -
  have r: "opt_text k \<in> set refundFields \<Longrightarrow> \<exists>s. jstr j k [] = Some s" for k
    using assms by (rule checked_text)
  show ?thesis
    using r [of "''order_no''"] r [of "''reason''"] r [of "''notify_url''"] r [of "''funds_account''"]
      r [of "''payment_no''"] r [of "''refund_no''"]
    by (auto simp: refundRequest_def refundFields_def)
qed

text \<open>
  The request built for the QR service: an object whose members are texts, but for the
  owner. No accessor of the service throws on it.
\<close>

definition flat :: "json \<Rightarrow> bool" where
  "flat r \<longleftrightarrow> (\<exists>kvs. r = JObject kvs \<and> (\<forall>k v. map_of kvs k = Some v \<longrightarrow> isString v \<or> k = ''user_id''))"

lemma flat_jset:
  assumes "flat r" "isString v \<or> k = ''user_id''"
  shows "flat (jset k v r)"
proof -
  obtain kvs where r: "r = JObject kvs" "\<forall>k v. map_of kvs k = Some v \<longrightarrow> isString v \<or> k = ''user_id''"
    using assms(1) by (auto simp only: flat_def)
  have "\<forall>k' v'. ((map_of kvs)(k \<mapsto> v)) k' = Some v' \<longrightarrow> isString v' \<or> k' = ''user_id''"
    using r(2) assms(2) by (metis fun_upd_apply option.inject)
  then show ?thesis unfolding flat_def r(1) by (intro exI [of _ "members_set k v kvs"]) simp
qed

lemma flat_reads:
  assumes "flat r"
  shows "k \<noteq> ''user_id'' \<Longrightarrow> \<exists>s. jstr r k d = Some s" "readable r"
proof -
  have s: "isString v \<Longrightarrow> \<exists>s. v = JString s" for v by (cases v) simp_all
  obtain kvs where r: "r = JObject kvs" "\<forall>k v. map_of kvs k = Some v \<longrightarrow> isString v \<or> k = ''user_id''"
    using assms by (auto simp only: flat_def)
  show "\<exists>s. jstr r k d = Some s" if "k \<noteq> ''user_id''"
  proof (cases "map_of kvs k")
    case (Some v)
    then have "isString v" using r(2) that by blast
    then obtain s where "v = JString s" using s by blast
    with Some r(1) show ?thesis by (simp add: jstr_def)
  qed (simp add: jstr_def r(1))
  show "readable r" using assms by (auto simp: flat_def)
qed

lemma flat_copy:
  assumes "checked_body rq ks fs j a" "\<forall>k \<in> set names. opt_text k \<in> set fs" "flat r"
  shows "\<exists>r'. copyMembers j names r = Some r' \<and> flat r'"
  using assms(2,3)
proof (induction names arbitrary: r)
  case (Cons k names)
  have f: "fieldProblem j (opt_text k) = Some None"
    using assms(1) Cons.prems(1) shape_field by (auto simp: checked_body_def)
  obtain b where b: "isMember j k = Some b"
    using checked_readable [OF assms(1)] member_throws_iff(1) [of j k] by auto
  have "\<exists>r1. copyMember j k r = Some r1 \<and> flat r1"
  proof (cases b)
    case True
    then obtain s where "jget j k JNull = Some (JString s)" using text_field_reads(2) [OF f, of JNull] b by auto
    with b True Cons.prems(2) show ?thesis by (auto simp: copyMember_def intro: flat_jset)
  qed (use b Cons.prems(2) in \<open>auto simp: copyMember_def\<close>)
  with Cons show ?case by auto
qed simp

lemma flat_not_thrown: "flat r \<Longrightarrow> \<not> qrServiceThrows S r"
proof -
  assume r: "flat r"
  have t: "\<exists>s. jstr r k d = Some s" if "k \<noteq> ''user_id''" for k d using flat_reads(1) [OF r that] .
  have u: "qrUserId r \<noteq> None"
  proof -
    obtain v where "jget r ''user_id'' JNull = Some v"
      using flat_reads(2) [OF r] member_throws_iff(2) [of r "''user_id''" JNull] by auto
    then show ?thesis by (cases v) (auto simp: qrUserId_def)
  qed
  have "qrBuyerId r \<noteq> None"
    using t [of "''buyer_id''" "[]"] flat_reads(2) [OF r] member_throws_iff(1) [of r "''buyer_id''"]
    by (auto simp: qrBuyerId_def split: option.splits)
  then have q: "qrRequest r on am ch su te us \<noteq> None" for on am ch su te us
    using t [of "''currency''" "''CNY''"] t [of "''idempotency_key''" "''QR_'' @ on @ ''_'' @ ch"] t [of "''notify_url''" "[]"]
    by (auto simp: qrRequest_def split: option.splits)
  have "qrTexts r \<noteq> None"
    using t [of "''order_no''" "[]"] t [of "''amount''" "[]"] t [of "''channel''" "''alipay''"]
      t [of "''subject''" "''Payment''"] t [of "''time_expire''" "[]"]
    by (auto simp: qrTexts_def)
  with u q show ?thesis by (auto simp: qrServiceThrows_def split: option.splits)
qed

lemma checked_qr:
  assumes "checked_body rq ks qrFields j a"
  shows "\<exists>r. qrBody rq j a u = Some r \<and> flat r"
proof -
  have r: "opt_text k \<in> set qrFields \<Longrightarrow> \<exists>s. jstr j k d = Some s" for k d
    using assms by (rule checked_text)
  obtain on ch de su where texts: "jstr j ''order_no'' [] = Some on" "jstr j ''channel'' [] = Some ch"
    "jstr j ''description'' [] = Some de" "jstr j ''product_name'' ''Payment'' = Some su"
    using r [of "''order_no''" "[]"] r [of "''channel''" "[]"] r [of "''description''" "[]"]
      r [of "''product_name''" "''Payment''"] by (auto simp: qrFields_def)
  let ?base = "jobject [(''order_no'', JString on), (''amount'', JString a), (''channel'', JString ch),
    (''user_id'', JInt u), (''description'', JString de), (''subject'', JString su)]"
  have "flat (JObject [(''order_no'', JString on)])" by (simp add: flat_def)
  then have "flat ?base" by (simp add: jobject_def flat_jset del: jset.simps(1))
  then obtain r where r: "copyMembers j qrCopied ?base = Some r"
    "flat r"
    using flat_copy [OF assms, of qrCopied ?base]
    by (auto simp: qrFields_def qrCopied_def)
  obtain key where "jstr r ''idempotency_key'' [] = Some key" using flat_reads(1) [OF r(2), of "''idempotency_key''" "[]"] by auto
  with texts r show ?thesis by (auto simp: qrBody_def jset_text_def intro: flat_jset)
qed

section \<open>What a handler does\<close>

text \<open>
  A handler that reads a body throws on an unreadable one and touches nothing; on any other
  it refuses without touching anything, or does what \<open>P\<close> says.
\<close>

definition passes :: "http_request \<Rightarrow> handled \<times> 'w \<Rightarrow> 'w \<Rightarrow> bool \<Rightarrow> bool" where
  "passes rq out w P \<longleftrightarrow>
     (if unreadable rq then out = threw w else refusal_of rq out w \<or> \<not> rq_options rq \<and> P)"

lemma withBody_passes:
  assumes "opt_text ''amount'' \<in> set fs" "ks \<noteq> []"
    and "\<And>j a. checked_body rq ks fs j a \<Longrightarrow> refusal_of rq (rest j a w) w \<or> P (rest j a w)"
  shows "passes rq (withBody rq ks miss fs rest w) w (P (withBody rq ks miss fs rest w))"
proof (cases rule: withBody_cases [OF assms(1,2), of rq miss rest w, case_names refused thrown checked])
  case (checked j a)
  then have "\<not> rq_options rq" by (simp add: checked_body_def)
  with checked assms(3) show ?thesis by (auto simp: passes_def)
qed (simp_all add: passes_def)

lemmas refusals = refusal_ofI json_answer_def respondPluginUnavailable_def respondBadRequest_def

definition created :: "env \<Rightarrow> app \<Rightarrow> http_request \<Rightarrow> world \<Rightarrow> handled \<times> world \<Rightarrow> bool" where
  "created e A rq w out \<longleftrightarrow>
     (\<exists>S q j. ap_paymentService A = Some S \<and> hq_json rq = Some j \<and> ownerOf rq j = Some (cp_userId q) \<and>
        createRequest j (cp_amount q) (cp_userId q) = Some q \<and> validateAmount (cp_amount q) \<and> 0 < cp_userId q \<and>
        createKey S rq q \<noteq> [] \<and> out = relay (createPayment e S q (createKey S rq q) w))"

lemma create_passes: "passes rq (createPaymentHandler e A rq w) w (created e A rq w (createPaymentHandler e A rq w))"
  unfolding createPaymentHandler_def
proof (rule withBody_passes)
  fix j a
  assume c: "checked_body rq [''order_no'', ''amount''] createFields j a"
  have n: "\<not> rq_options rq" "hq_json rq = Some j" "validateAmount a" using c by (simp_all add: checked_body_def)
  obtain u where u: "ownerOf rq j = Some u" using checked_owner [OF c] by (auto simp: createFields_def)
  obtain q where q: "createRequest j a u = Some q" "cp_amount q = a" "cp_userId q = u"
    using checked_create [OF c, of u] by blast
  have k: "createKey S rq q \<noteq> []" for S by (simp add: createKey_def derivedCreateKey_def)
  show "refusal_of rq (createChecked e A rq j a w) w \<or> created e A rq w (createChecked e A rq j a w)"
    using n u q k by (auto simp: createChecked_def created_def refusals not_le split: option.split intro!: refusal_ofI)
qed (auto simp: createFields_def)

lemma copyMembers_keeps:
  "copyMembers j names r = Some r' \<Longrightarrow> isObject r \<Longrightarrow> k \<notin> set names \<Longrightarrow>
     isObject r' \<and> jget r' k d = jget r k d"
proof (induction names arbitrary: r)
  case (Cons n names)
  obtain kvs where r: "r = JObject kvs" using Cons.prems(2) by (cases r) simp_all
  from Cons.prems(1) obtain r1 where r1: "copyMember j n r = Some r1" "copyMembers j names r1 = Some r'"
    by (auto simp: bind_eq_Some_conv)
  have "isObject r1 \<and> jget r1 k d = jget r k d"
    using r1(1) Cons.prems(3) by (auto simp: copyMember_def r split: option.splits bool.splits)
  with Cons.IH [OF r1(2)] Cons.prems(3) show ?case by auto
qed simp

lemma qrBody_terms:
  assumes "qrBody rq j a u = Some r"
  shows "jstr r ''amount'' [] = Some a" "jget r ''user_id'' JNull = Some (JInt u)"
proof -
  from assms obtain on ch de su r1 where r1: "copyMembers j qrCopied
      (jobject [(''order_no'', JString on), (''amount'', JString a), (''channel'', JString ch), (''user_id'', JInt u),
         (''description'', JString de), (''subject'', JString su)]) = Some r1"
    "r = r1 \<or> r = jset_text ''idempotency_key'' (idempotencyHeader rq) r1"
    unfolding qrBody_def by (fastforce split: option.splits if_splits)
  have k: "isObject r1 \<and> jget r1 k d = jget (jobject [(''order_no'', JString on), (''amount'', JString a), (''channel'', JString ch), (''user_id'', JInt u),
         (''description'', JString de), (''subject'', JString su)]) k d" if "k \<in> {''amount'', ''user_id''}" for k d
    using that by (intro copyMembers_keeps [OF r1(1)]) (auto simp: jobject_def qrCopied_def)
  then obtain kvs where o1: "r1 = JObject kvs" using k [of "''amount''"] by (cases r1) auto
  have "jget r ''amount'' (JString []) = jget r1 ''amount'' (JString [])" "jget r ''user_id'' JNull = jget r1 ''user_id'' JNull"
    using r1(2) by (auto simp: o1 jset_text_def)
  then show "jstr r ''amount'' [] = Some a" "jget r ''user_id'' JNull = Some (JInt u)"
    using k [of "''amount''" "JString []"] k [of "''user_id''" JNull] by (auto simp: jstr_def jobject_def)
qed

definition qr_created :: "env \<Rightarrow> app \<Rightarrow> http_request \<Rightarrow> world \<Rightarrow> handled \<times> world \<Rightarrow> bool" where
  "qr_created e A rq w out \<longleftrightarrow>
     (\<exists>S request a u. ap_paymentService A = Some S \<and> jstr request ''amount'' [] = Some a \<and> validateAmount a \<and>
        jget request ''user_id'' JNull = Some (JInt u) \<and> 0 < u \<and> \<not> qrServiceThrows S request \<and>
        out = relay (createQRPayment e S request w))"

lemma qr_passes: "passes rq (createQRPaymentHandler e A rq w) w (qr_created e A rq w (createQRPaymentHandler e A rq w))"
  unfolding createQRPaymentHandler_def
proof (rule withBody_passes)
  fix j a
  assume c: "checked_body rq [''order_no'', ''amount'', ''channel'', ''user_id''] qrFields j a"
  have n: "\<not> rq_options rq" "validateAmount a" using c by (simp_all add: checked_body_def)
  have "lacks j [''order_no'', ''amount'', ''channel'', ''user_id''] = Some False" using c by (simp only: checked_body_def)
  then have "isMember j ''user_id'' = Some True" by (rule lacks_member) simp
  then obtain v u where u: "jget j ''user_id'' JNull = Some v" "asInt64 v = Some u"
    by (rule checked_int [OF c, rotated]) (auto simp: qrFields_def)
  obtain r where r: "qrBody rq j a u = Some r" "flat r" using checked_qr [OF c] by blast
  show "refusal_of rq (qrBodyChecked e A rq j a w) w \<or> qr_created e A rq w (qrBodyChecked e A rq j a w)"
    using n u r flat_not_thrown [OF r(2)] qrBody_terms [OF r(1)]
    by (auto simp: qrBodyChecked_def qr_created_def refusals not_le split: option.split intro!: refusal_ofI)
qed (auto simp: qrFields_def)

definition refunded :: "env \<Rightarrow> app \<Rightarrow> http_request \<Rightarrow> world \<Rightarrow> handled \<times> world \<Rightarrow> bool" where
  "refunded e A rq w out \<longleftrightarrow>
     (\<exists>S q j. ap_refundService A = Some S \<and> hq_json rq = Some j \<and> refundRequest j (rf_amount q) = Some q \<and>
        validateAmount (rf_amount q) \<and> refundKey S rq q \<noteq> [] \<and>
        (case createRefund e S q (refundKey S rq q) w of None \<Rightarrow> out = (([], False), w) | Some r \<Rightarrow> out = relay r))"

lemma refund_passes: "passes rq (refundHandler e A rq w) w (refunded e A rq w (refundHandler e A rq w))"
  unfolding refundHandler_def
proof (rule withBody_passes)
  fix j a
  assume c: "checked_body rq [''order_no'', ''amount''] refundFields j a"
  have n: "\<not> rq_options rq" "hq_json rq = Some j" "validateAmount a" using c by (simp_all add: checked_body_def)
  obtain q where q: "refundRequest j a = Some q" "rf_amount q = a" using checked_refund [OF c] by blast
  have k: "refundKey S rq q \<noteq> []" for S by (simp add: refundKey_def derivedRefundKey_def)
  show "refusal_of rq (refundChecked e A rq j a w) w \<or> refunded e A rq w (refundChecked e A rq j a w)"
    using n q k by (auto simp: refundChecked_def refunded_def refusals split: option.split intro!: refusal_ofI)
qed (auto simp: refundFields_def)

lemma relay_not_thrown: "\<not> snd (fst (relay r))"
  by (simp add: relay_def split: prod.splits)

lemma created_not_thrown: "created e A rq w out \<Longrightarrow> \<not> snd (fst out)"
  by (auto simp: created_def relay_not_thrown)

lemma qr_created_not_thrown: "qr_created e A rq w out \<Longrightarrow> \<not> snd (fst out)"
  by (auto simp: qr_created_def relay_not_thrown)

lemma refunded_not_thrown: "refunded e A rq w out \<Longrightarrow> \<not> snd (fst out)"
  by (auto simp: refunded_def relay_not_thrown split: option.splits)

lemma passes_thrown:
  assumes "passes rq out w P" "P \<longrightarrow> \<not> snd (fst out)"
  shows "snd (fst out) \<longleftrightarrow> unreadable rq" "unreadable rq \<Longrightarrow> guarded out = ([internalError], w)"
  using assms by (auto simp: passes_def refusal_of_def threw_def answered_def guarded_def split: if_splits)

text \<open>
  C3: the shape check in front of the accessors is complete. The three handlers that read a
  JSON body throw exactly on a body that is neither an object nor null (an array, a text, a
  number); on every other body, whatever the types of its members, no accessor throws, not
  in the handler and not in the synchronous part of the QR service. The exception is caught by the
  barrier around the route, which answers once with 500 and leaves the books untouched.
\<close>

theorem body_types_checked:
  "(snd (fst (createPaymentHandler e A rq w)) \<longleftrightarrow> unreadable rq) \<and>
   (snd (fst (createQRPaymentHandler e A rq w)) \<longleftrightarrow> unreadable rq) \<and>
   (snd (fst (refundHandler e A rq w)) \<longleftrightarrow> unreadable rq) \<and>
   (unreadable rq \<longrightarrow>
      guarded (createPaymentHandler e A rq w) = ([internalError], w) \<and>
      guarded (createQRPaymentHandler e A rq w) = ([internalError], w) \<and>
      guarded (refundHandler e A rq w) = ([internalError], w))"
  using passes_thrown [OF create_passes, of e A rq w] created_not_thrown [of e A rq w "createPaymentHandler e A rq w"]
    passes_thrown [OF qr_passes, of e A rq w] qr_created_not_thrown [of e A rq w "createQRPaymentHandler e A rq w"]
    passes_thrown [OF refund_passes, of e A rq w] refunded_not_thrown [of e A rq w "refundHandler e A rq w"]
  by blast


text \<open>A concrete process and requests: a payment service without channels, and no refund service.\<close>

definition sample_app :: app where
  "sample_app = \<lparr>ap_paymentService = Some plain_sys, ap_refundService = None, ap_callbackService = None,
     ap_alipayClient = None, ap_parseJson = \<lambda>_. (False, JNull), ap_urlDecode = id, ap_createdText = \<lambda>_. [], ap_updatedText = \<lambda>_. [], ap_readJson = \<lambda>_. JNull\<rparr>"

definition post :: "json option \<Rightarrow> http_request" where
  "post j = \<lparr>rq_options = False, rq_path = ''/api/pay/create'', rq_x_api_key = ''k'', rq_authorization = [],
     hq_json = j, hq_header = \<lambda>_. [], hq_parameter = \<lambda>_. [], hq_attribute_user = None, hq_body = []\<rparr>"

definition sample_body :: json where
  "sample_body = jobject [(''order_no'', JString ''ORD-000001''), (''amount'', JString ''1.50''), (''user_id'', JInt 7)]"

theorem body_types_checked_witness:
  "unreadable (post (Some (JArray []))) \<and>
   guarded (createPaymentHandler calm sample_app (post (Some (JArray []))) (fresh no_rows)) = ([internalError], fresh no_rows) \<and>
   \<not> snd (fst (createPaymentHandler calm sample_app (post (Some sample_body)) (fresh no_rows))) \<and>
   \<not> snd (fst (refundHandler calm sample_app (post (Some (jobject [(''amount'', JObject [])]))) (fresh no_rows)))"
  using body_types_checked [of calm sample_app "post (Some (JArray []))" "fresh no_rows"]
    body_types_checked [of calm sample_app "post (Some sample_body)" "fresh no_rows"]
    body_types_checked [of calm sample_app "post (Some (jobject [(''amount'', JObject [])]))" "fresh no_rows"]
  by (simp add: unreadable_def post_def sample_body_def jobject_def)


section \<open>Amounts, pages and statuses\<close>

lemma digits_then:
  assumes "list_all is_digit y" "rest = [] \<or> \<not> is_digit (hd rest)"
  shows "takeWhile is_digit (y @ rest) = y" "dropWhile is_digit (y @ rest) = rest"
  using assms by (induction y; cases rest; simp)+

lemma amount_shape:
  "list_all is_digit y \<Longrightarrow> validateAmount (y @ CHR ''.'' # c) \<longleftrightarrow>
     y \<noteq> [] \<and> (length c = 1 \<or> length c = 2) \<and> list_all is_digit c"
  "list_all is_digit y \<Longrightarrow> validateAmount y \<longleftrightarrow> y \<noteq> []"
proof -
  assume y: "list_all is_digit y"
  show "validateAmount (y @ CHR ''.'' # c) \<longleftrightarrow> y \<noteq> [] \<and> (length c = 1 \<or> length c = 2) \<and> list_all is_digit c"
    using digits_then [OF y, of "CHR ''.'' # c"] by (simp add: validateAmount_def)
  have t: "takeWhile is_digit y = y" "dropWhile is_digit y = []" using digits_then [OF y, of "[]"] by simp_all
  show "validateAmount y \<longleftrightarrow> y \<noteq> []" unfolding validateAmount_def t by simp
qed

text \<open>
  C2: the amount check of the handlers agrees with the parser of the services. A text the
  handlers let through is read by the services as its yuan and cents, unless its yuan exceed
  what scales into \<open>int64_t\<close>; and of the texts the services can read the handlers refuse
  exactly those that begin or end with the dot.
\<close>

theorem handler_amounts_agree:
  "(validateAmount s \<longrightarrow>
      (let yuan = takeWhile is_digit s; cents = drop 1 (dropWhile is_digit s)
       in parseAmountToFen s =
            (if dec_value yuan \<le> max_yuan then Some (int (dec_value yuan * 100 + cents_of cents)) else None))) \<and>
   (\<forall>fen. parseAmountToFen s = Some fen \<longrightarrow> (validateAmount s \<longleftrightarrow> is_digit (hd s) \<and> last s \<noteq> CHR ''.''))"
proof (intro conjI impI allI)
  assume v: "validateAmount s"
  let ?y = "takeWhile is_digit s" and ?r = "dropWhile is_digit s"
  have s: "s = ?y @ ?r" and y: "list_all is_digit ?y" "?y \<noteq> []"
    using v by (auto simp: validateAmount_def list_all_iff dest: set_takeWhileD)
  show "let yuan = ?y; cents = drop 1 ?r
       in parseAmountToFen s = (if dec_value yuan \<le> max_yuan then Some (int (dec_value yuan * 100 + cents_of cents)) else None)"
  proof (cases ?r)
    case Nil
    then have "parseAmountToFen s = scaled (dec_value ?y) 0" using parse_plain [OF y] s by (metis append_Nil2)
    then show ?thesis unfolding Nil Let_def by (simp add: scaled_def cents_of_def)
  next
    case (Cons c cents)
    then have c: "c = CHR ''.''" "list_all is_digit cents" "length cents \<le> 2" using v by (auto simp: validateAmount_def)
    then have "parseAmountToFen s = scaled (dec_value ?y) (cents_of cents)"
      using parse_dotted [OF y(1) c(2,3)] s Cons by simp
    with Cons show ?thesis by (simp add: scaled_def)
  qed
next
  fix fen
  assume "parseAmountToFen s = Some fen"
  then show "validateAmount s \<longleftrightarrow> is_digit (hd s) \<and> last s \<noteq> CHR ''.''"
  proof (cases rule: parse_Some_shape)
    case (1 y)
    then have "is_digit (hd s)" "is_digit (last s)" by (simp_all add: list_all_iff)
    then have "is_digit (hd s)" "last s \<noteq> CHR ''.''" by auto
    with 1 show ?thesis by (simp add: amount_shape(2))
  next
    case (2 y c)
    have "is_digit (hd s) \<longleftrightarrow> y \<noteq> []" using 2 by (cases y) auto
    moreover have "last s \<noteq> CHR ''.'' \<longleftrightarrow> c \<noteq> []" 
      using 2(1) digits_no_dot [OF 2(3)] last_in_set [of c] by auto
    moreover have "length c = 1 \<or> length c = 2 \<longleftrightarrow> c \<noteq> []" using 2(4) by (auto simp: le_Suc_eq numeral_2_eq_2)
    ultimately show ?thesis using 2 by (simp add: amount_shape(1))
  qed
qed

theorem handler_amounts_agree_witness:
  "validateAmount ''12.5'' \<and> parseAmountToFen ''12.5'' = Some 1250 \<and> \<not> validateAmount ''.5'' \<and>
   parseAmountToFen ''.5'' = Some 50 \<and> validateAmount ''0.00'' \<and> parseAmountToFen ''0.00'' = Some 0 \<and>
   validateAmount ''92233720368547758'' \<and> parseAmountToFen ''92233720368547758'' = None"
proof -
  have v: "validateAmount ''12.5''" "validateAmount ''0.00''" "validateAmount ''92233720368547758''"
    "\<not> is_digit (hd ''.5'')" by code_simp+
  have p: "parseAmountToFen ''.5'' = Some 50" by code_simp
  have y: "dec_value (takeWhile is_digit ''12.5'') = 12" "cents_of (drop 1 (dropWhile is_digit ''12.5'')) = 50"
    "dec_value (takeWhile is_digit ''0.00'') = 0" "cents_of (drop 1 (dropWhile is_digit ''0.00'')) = 0"
    "takeWhile is_digit ''92233720368547758'' = ''92233720368547758''" by code_simp+
  have z: "dec_value ''92233720368547758'' = 92233720368547758" by (simp add: dec_value_Cons)
  have "parseAmountToFen ''12.5'' = Some 1250" "parseAmountToFen ''0.00'' = Some 0"
    using handler_amounts_agree [of "''12.5''"] handler_amounts_agree [of "''0.00''"] v(1,2)
    unfolding Let_def y by (simp_all only: max_yuan_def) simp_all
  moreover have "parseAmountToFen ''92233720368547758'' = None"
    using handler_amounts_agree [of "''92233720368547758''"] v(3) unfolding Let_def y z by (simp add: max_yuan_def)
  moreover have "\<not> validateAmount ''.5''" using handler_amounts_agree [of "''.5''"] p v(4) by blast
  ultimately show ?thesis using v p by blast
qed

text \<open>A page of the list handler: at most 100 rows, and a negative offset wraps to one the database refuses.\<close>

lemma list_page_bounds:
  assumes "listPage rq = Inr (u, n, off)"
  shows "is_int64 u" "1 \<le> actualLimit (unat n)" "actualLimit (unat n) \<le> 100"
  using assms by (auto simp: listPage_def stoll_def Let_def actualLimit_def int64_defs split: option.splits if_splits)

text \<open>
  The status of an idempotency conflict: the create flows report it under the code 1004,
  which the handlers map to 404, the refund flow under 1409, which they map to 409.
\<close>

lemma conflict_statuses:
  "idempotencyReply (result_of Conflict msg) = Some rep \<Longrightarrow> an_status (serviceAnswer rep) = 404"
  "an_status (serviceAnswer (sys_error 1409 msg)) = 409"
  by (auto simp: idempotencyReply_def result_of_def serviceAnswer_def mapErrorToHttpStatus_def pay_error_def sys_error_def)

end
