(* ===== verification/Pay_Notify.thy ===== *)
theory Pay_Notify
  imports Pay_Http
begin

text \<open>
  \<open>handlers/CallbackHandlers.cc\<close>: the two routes on which the channels deliver their
  notifications. They carry no API key: the WeChat route hands the delivery to the callback
  service, which checks its signature, the Alipay route checks the signature itself before
  it goes through the reconcile door.
\<close>

section \<open>WeChat\<close>

definition deliveryOf :: "http_request \<Rightarrow> delivery" where
  "deliveryOf rq = \<lparr>d_body = hq_body rq, d_signature = hq_header rq ''Wechatpay-Signature'',
     d_timestamp = hq_header rq ''Wechatpay-Timestamp'', d_nonce = hq_header rq ''Wechatpay-Nonce'',
     d_serialNo = hq_header rq ''Wechatpay-Serial''\<rparr>"

text \<open>The lambda passed to the service: every error is a 500.\<close>

definition noticeAnswer :: "reply \<Rightarrow> answer" where
  "noticeAnswer = (\<lambda>(result, error).
     \<lparr>an_status = (if error_value error \<noteq> 0 then 500 else 200), an_content = Json result\<rparr>)"

text \<open>
  The reading of a delivery runs before the first asynchronous step of the service: an
  exception there reaches the handler.
\<close>

definition routePayment :: "env \<Rightarrow> callback_sys \<Rightarrow> sys \<Rightarrow> delivery \<Rightarrow> world \<Rightarrow> handled \<times> world" where
  "routePayment e C S d w =
     (if openNotification C S ''TRANSACTION.'' ''transaction'' (nowSeconds e w) d paymentNotice = None then threw w
      else (case handlePaymentCallback e C S d w of (reps, w1) \<Rightarrow> ((map noticeAnswer reps, False), w1)))"

definition routeRefund :: "env \<Rightarrow> callback_sys \<Rightarrow> sys \<Rightarrow> delivery \<Rightarrow> world \<Rightarrow> handled \<times> world" where
  "routeRefund e C S d w =
     (if openNotification C S ''REFUND.'' ''refund'' (nowSeconds e w) d refundNotice = None then threw w
      else (case handleRefundCallback e C S d w of (reps, w1) \<Rightarrow> ((map noticeAnswer reps, False), w1)))"

definition isRefundEvent :: "string \<Rightarrow> bool" where
  "isRefundEvent eventType \<longleftrightarrow> find_sub ''REFUND'' eventType \<noteq> None"

definition knownEvent :: "string \<Rightarrow> bool" where
  "knownEvent eventType \<longleftrightarrow> eventType = ''TRANSACTION.SUCCESS'' \<or> isRefundEvent eventType"

definition routeEvent :: "env \<Rightarrow> app \<Rightarrow> http_request \<Rightarrow> string \<Rightarrow> world \<Rightarrow> handled \<times> world" where
  "routeEvent e A rq eventType w =
     (if \<not> knownEvent eventType
      then answered (json_answer 400 40004 (''Unknown event_type: '' @ eventType)) w
      else
        (case ap_callbackService A of
           None \<Rightarrow> answered (respondPluginUnavailable ''Callback service'') w
         | Some (C, S) \<Rightarrow>
             if isRefundEvent eventType then routeRefund e C S (deliveryOf rq) w
             else routePayment e C S (deliveryOf rq) w))"

definition wechatNotify :: "env \<Rightarrow> app \<Rightarrow> http_request \<Rightarrow> world \<Rightarrow> handled \<times> world" where
  "wechatNotify e A rq w =
     (case ap_parseJson A (hq_body rq) of
        (False, _) \<Rightarrow> answered (json_answer 400 40002 ''Invalid JSON body'') w
      | (True, bodyJson) \<Rightarrow>
          (case isMember bodyJson ''event_type'' of
             None \<Rightarrow> threw w
           | Some False \<Rightarrow> answered (json_answer 400 40003 ''Missing event_type'') w
           | Some True \<Rightarrow>
               (case jget bodyJson ''event_type'' JNull of
                  Some (JString eventType) \<Rightarrow> routeEvent e A rq eventType w
                | _ \<Rightarrow> answered (json_answer 400 40003 ''Missing event_type'') w)))"

section \<open>Alipay\<close>

definition alipayReply :: "string \<Rightarrow> string \<Rightarrow> answer" where
  "alipayReply code message =
     \<lparr>an_status = 200, an_content = Json (jobject [(''code'', JString code), (''message'', JString message)])\<rparr>"

definition alipayResult :: "(string \<times> string) list \<Rightarrow> json" where
  "alipayResult params =
     jobject ([(''code'', JString ''10000''), (''msg'', JString ''Success'')] @
       map (\<lambda>k. (k, JString (param params k)))
         [''trade_no'', ''out_trade_no'', ''trade_status'', ''total_amount'', ''app_id'', ''seller_id'', ''notify_time'',
          ''notify_type'', ''notify_id''])"

definition syncNotified :: "env \<Rightarrow> sys \<Rightarrow> (string \<times> string) list \<Rightarrow> world \<Rightarrow> handled \<times> world" where
  "syncNotified e S params w =
     (case syncOrderStatusFromAlipay e S (param params ''out_trade_no'') (alipayResult params) w of
        (None, w1) \<Rightarrow> (([], False), w1)
      | (Some status, w1) \<Rightarrow>
          answered (if status = [] then alipayReply ''FAIL'' ''order sync rejected'' else alipayReply ''SUCCESS'' ''OK'') w1)"

definition alipayNotify :: "env \<Rightarrow> app \<Rightarrow> http_request \<Rightarrow> world \<Rightarrow> handled \<times> world" where
  "alipayNotify e A rq w =
     (let params = parseForm (ap_urlDecode A) (hq_body rq); sign = param params ''sign''
      in case ap_alipayClient A of
           None \<Rightarrow> answered (alipayReply ''FAIL'' ''Alipay client not configured'') w
         | Some (Y, c) \<Rightarrow>
             if \<not> alipayVerifyCallback Y c (verifyParams params) sign
             then answered (alipayReply ''FAIL'' ''signature verification failed'') w
             else if al_appId c \<noteq> [] \<and> param params ''app_id'' \<noteq> al_appId c
             then answered (alipayReply ''FAIL'' ''app_id mismatch'') w
             else
               (case ap_paymentService A of
                  None \<Rightarrow> answered (alipayReply ''FAIL'' ''Payment service not available in this process'') w
                | Some S \<Rightarrow> syncNotified e S params w))"

section \<open>Who may deliver\<close>

lemma unsigned_payment: "\<not> verifySignature C d \<Longrightarrow> snd (routePayment e C S d w) = w"
  by (auto simp: routePayment_def handlePaymentCallback_def openNotification_def require_def threw_def split: option.split)

lemma unsigned_refund: "\<not> verifySignature C d \<Longrightarrow> snd (routeRefund e C S d w) = w"
  by (auto simp: routeRefund_def handleRefundCallback_def openNotification_def require_def threw_def split: option.split)

lemma guarded_once: "length (fst (guarded out)) \<le> 1"
  by (auto simp: guarded_def split: prod.splits)

lemma answered_parts [simp]: "fst (fst (answered a w)) = [a]" "snd (answered a w) = w" "snd (fst (answered a w)) = False"
  by (simp_all add: answered_def)

lemma answered_inject [simp]: "answered a w = answered b v \<longleftrightarrow> a = b \<and> w = v"
  by (simp add: answered_def)

lemma threw_parts [simp]: "fst (fst (threw w)) = []" "snd (threw w) = w" "snd (fst (threw w)) = True"
  by (simp_all add: threw_def)

lemma event_gate:
  assumes "snd (routeEvent e A rq ev w) \<noteq> w"
  shows "\<exists>C S. knownEvent ev \<and> ap_callbackService A = Some (C, S) \<and> verifySignature C (deliveryOf rq)"
proof -
  from assms obtain C S where c: "knownEvent ev" "ap_callbackService A = Some (C, S)"
    "snd (routeRefund e C S (deliveryOf rq) w) \<noteq> w \<or> snd (routePayment e C S (deliveryOf rq) w) \<noteq> w"
    by (auto simp: routeEvent_def split: if_splits option.splits)
  then have "verifySignature C (deliveryOf rq)" using unsigned_payment unsigned_refund by blast
  with c show ?thesis by blast
qed

lemma route_signed:
  assumes c: "snd (wechatNotify e A rq w) \<noteq> w"
  shows "\<exists>j ev C S. ap_parseJson A (hq_body rq) = (True, j) \<and> jget j ''event_type'' JNull = Some (JString ev) \<and>
     knownEvent ev \<and> ap_callbackService A = Some (C, S) \<and> verifySignature C (deliveryOf rq)"
proof -
  have "snd (wechatNotify e A rq w) = w \<or> (\<exists>j ev. ap_parseJson A (hq_body rq) = (True, j) \<and>
      jget j ''event_type'' JNull = Some (JString ev) \<and> wechatNotify e A rq w = routeEvent e A rq ev w)"
    unfolding wechatNotify_def by (simp split: prod.split bool.split option.split json.split)
  with c obtain j ev where j: "ap_parseJson A (hq_body rq) = (True, j)" "jget j ''event_type'' JNull = Some (JString ev)"
    "snd (routeEvent e A rq ev w) \<noteq> w"
    by metis
  from event_gate [OF j(3)]
  obtain C S where "knownEvent ev" "ap_callbackService A = Some (C, S)" "verifySignature C (deliveryOf rq)" by blast
  then show ?thesis using j(1,2) by blast
qed

text \<open>
  The WeChat route. It answers at most once, although the refund handler behind it may
  answer twice; it changes the books only for a body that is JSON with the text member
  \<open>event_type\<close>, either exactly \<open>TRANSACTION.SUCCESS\<close> or a text with \<open>REFUND\<close> in it, and whose
  headers carry a signature the WeChat client accepts for this body; and in a process without
  the service every delivery gets one answer with status 400, 500 or 503.
\<close>

lemma wechat_route_gate:
  "length (fst (guarded (wechatNotify e A rq w))) \<le> 1 \<and>
   (snd (wechatNotify e A rq w) \<noteq> w \<longrightarrow>
      (\<exists>j ev C S. ap_parseJson A (hq_body rq) = (True, j) \<and> jget j ''event_type'' JNull = Some (JString ev) \<and>
         knownEvent ev \<and>
         ap_callbackService A = Some (C, S) \<and> verifySignature C (deliveryOf rq))) \<and>
   (ap_callbackService A = None \<longrightarrow>
      (\<exists>a. guarded (wechatNotify e A rq w) = ([a], w) \<and> an_status a \<in> {400, 500, 503}))"
proof (intro conjI impI)
  show "length (fst (guarded (wechatNotify e A rq w))) \<le> 1" by (rule guarded_once)
next
  assume "snd (wechatNotify e A rq w) \<noteq> w"
  from route_signed [OF this]
  show "\<exists>j ev C S. ap_parseJson A (hq_body rq) = (True, j) \<and> jget j ''event_type'' JNull = Some (JString ev) \<and>
       knownEvent ev \<and>
       ap_callbackService A = Some (C, S) \<and> verifySignature C (deliveryOf rq)" .
next
  assume n: "ap_callbackService A = None"
  define ok where "ok out \<longleftrightarrow> (\<exists>a. out = answered a w \<and> an_status a \<in> {400, 500, 503}) \<or> out = threw w" for out
  have bad: "ok (answered (json_answer 400 n m) w)" "ok (answered (respondPluginUnavailable m) w)" "ok (threw w)" for n m
    by (simp_all add: ok_def json_answer_def respondPluginUnavailable_def)
  then have "ok (routeEvent e A rq ev w)" for ev by (simp add: routeEvent_def n)
  with bad have "ok (wechatNotify e A rq w)"
    unfolding wechatNotify_def by (simp split: prod.split bool.split option.split json.split)
  then show "\<exists>a. guarded (wechatNotify e A rq w) = ([a], w) \<and> an_status a \<in> {400, 500, 503}"
    by (auto simp: ok_def guarded_def answered_def threw_def internalError_def json_answer_def)
qed

lemma success_not_fail: "alipayReply ''SUCCESS'' ''OK'' \<noteq> alipayReply ''FAIL'' m"
  by (simp add: alipayReply_def jobject_def)

lemma alipay_signed:
  assumes "snd (alipayNotify e A rq w) \<noteq> w \<or> alipayReply ''SUCCESS'' ''OK'' \<in> set (fst (fst (alipayNotify e A rq w)))"
  shows "\<exists>Y c S. (let params = parseForm (ap_urlDecode A) (hq_body rq) in
     ap_alipayClient A = Some (Y, c) \<and> ap_paymentService A = Some S \<and> al_alipayPublicKeyPem c \<noteq> [] \<and>
     ay_rsaVerify Y (al_alipayPublicKeyPem c) (joined (signed_part params)) (param params ''sign'') \<and>
     (al_appId c = [] \<or> param params ''app_id'' = al_appId c) \<and> alipayNotify e A rq w = syncNotified e S params w)"
proof -
  define params where "params = parseForm (ap_urlDecode A) (hq_body rq)"
  obtain Y c S where c: "ap_alipayClient A = Some (Y, c)" "ap_paymentService A = Some S"
    "alipayVerifyCallback Y c (verifyParams params) (param params ''sign'')"
    "al_appId c = [] \<or> param params ''app_id'' = al_appId c"
    "alipayNotify e A rq w = syncNotified e S params w"
    using assms success_not_fail unfolding alipayNotify_def Let_def params_def [symmetric]
    by (auto split: option.splits if_splits)
  moreover have "al_alipayPublicKeyPem c \<noteq> []"
    "ay_rsaVerify Y (al_alipayPublicKeyPem c) (joined (signed_part params)) (param params ''sign'')"
    using c(3) unfolding params_def alipayVerifyCallback_def signedText_joined [OF parseForm_sorted]
    by (auto simp: alipay_verify_def split: if_splits)
  ultimately show ?thesis unfolding Let_def params_def [symmetric] by blast
qed

text \<open>
  C6: the Alipay route. It changes the books or acknowledges only a notification whose
  signature verifies with the configured public key over the sorted, non-empty parameters of
  the body, whose \<open>app_id\<close> is the client's own unless that is not configured; and it
  acknowledges only when the reconcile door reported a status for the notified trade.
\<close>

theorem alipay_route_gate:
  assumes "params = parseForm (ap_urlDecode A) (hq_body rq)"
    and "snd (alipayNotify e A rq w) \<noteq> w \<or> alipayReply ''SUCCESS'' ''OK'' \<in> set (fst (fst (alipayNotify e A rq w)))"
  shows "\<exists>Y c S. ap_alipayClient A = Some (Y, c) \<and> ap_paymentService A = Some S \<and> al_alipayPublicKeyPem c \<noteq> [] \<and>
     ay_rsaVerify Y (al_alipayPublicKeyPem c) (joined (signed_part params)) (param params ''sign'') \<and>
     (al_appId c = [] \<or> param params ''app_id'' = al_appId c) \<and>
     (alipayReply ''SUCCESS'' ''OK'' \<in> set (fst (fst (alipayNotify e A rq w))) \<longrightarrow>
        (\<exists>status. status \<noteq> [] \<and>
           syncOrderStatusFromAlipay e S (param params ''out_trade_no'') (alipayResult params) w =
             (Some status, snd (alipayNotify e A rq w))))"
proof -
  obtain Y c S where c: "ap_alipayClient A = Some (Y, c)" "ap_paymentService A = Some S" "al_alipayPublicKeyPem c \<noteq> []"
    "ay_rsaVerify Y (al_alipayPublicKeyPem c) (joined (signed_part params)) (param params ''sign'')"
    "al_appId c = [] \<or> param params ''app_id'' = al_appId c" "alipayNotify e A rq w = syncNotified e S params w"
    using alipay_signed [OF assms(2)] unfolding Let_def assms(1) [symmetric] by blast
  have "alipayReply ''SUCCESS'' ''OK'' \<in> set (fst (fst (syncNotified e S params w))) \<longrightarrow>
      (\<exists>status. status \<noteq> [] \<and> syncOrderStatusFromAlipay e S (param params ''out_trade_no'') (alipayResult params) w =
         (Some status, snd (syncNotified e S params w)))"
    using success_not_fail by (auto simp: syncNotified_def split: prod.splits option.splits if_splits)
  with c show ?thesis by auto
qed

section \<open>A paid trade\<close>

lemma quiet_alipay_order:
  assumes "quiet e" "txn_of w \<noteq> Aborted" "keyed o_order_no (t_orders (tabs w))" "order \<in> set (t_orders (tabs w))"
    and "o_order_no order \<noteq> []" "pn \<noteq> []" "o_status order \<noteq> ''PAID''" "parseAmountToFen (o_amount order) = Some fen"
    and "\<not> list_ex (income_of pn) (t_ledger (tabs w))" "ledger_fits (income_row order pn 0)"
    and "pn \<in> p_payment_no ` set (t_payments (tabs w))"
  shows "\<exists>w' now. alipaySettleOrder e (o_order_no order) ''PAID'' fen pn w = (Some ''PAID'', w') \<and> txn_of w' = txn_of w \<and>
     tabs w' = (let t = order_written order ''PAID'' (tabs w) in t\<lparr>t_ledger := t_ledger t @ [income_row order pn now]\<rparr>)"
proof -
  let ?q = "select_orders (\<lambda>r. o_order_no r = o_order_no order)"
  have "?q (tabs w) = Inr [order]" using keyed_filter_key [OF assms(3,4)] by (simp add: select_orders_def)
  from quiet_read [where q = ?q, OF assms(1,2) this]
  have "mapper e (reads ?q) w = (Ok [order], next_tick w)" .
  moreover have "\<exists>w' now. writeOrder e order ''PAID'' True pn (next_tick w) = (Some ''PAID'', w') \<and>
      txn_of w' = txn_of (next_tick w) \<and>
      tabs w' = (let t = order_written order ''PAID'' (tabs (next_tick w))
        in if True then t\<lparr>t_ledger := t_ledger t @ [income_row order pn now]\<rparr> else t)"
    by (rule quiet_write [OF assms(1)]) (use assms in simp_all)
  ultimately show ?thesis using assms(7,8) by (auto simp: alipaySettleOrder_def amountEqualsFen_def Let_def)
qed

lemma quiet_alipay_txn:
  assumes q: "quiet e" "txn_of w = NoTxn" "wf_tables (tabs w)"
    and o: "order \<in> set (t_orders (tabs w))" "o_order_no order \<noteq> []" "o_status order \<noteq> ''PAID''"
      "parseAmountToFen (o_amount order) = Some fen"
    and p: "p \<in> set (t_payments (tabs w))" "p_payment_no p \<noteq> []" "p_status p \<in> {''INIT'', ''PROCESSING''}"
    and l: "\<not> list_ex (income_of (p_payment_no p)) (t_ledger (tabs w))"
      "ledger_fits (income_row order (p_payment_no p) 0)" "fits 64 tx"
  shows "\<exists>w' now. alipayTxn e p (o_order_no order) ''PAID'' pst tx payload fen w = (Some ''PAID'', w') \<and> txn_of w' = NoTxn \<and>
     tabs w' = (let t = order_written order ''PAID'' (payment_settled p pst tx payload (tabs w))
       in t\<lparr>t_ledger := t_ledger t @ [income_row order (p_payment_no p) now]\<rparr>)"
proof -
  let ?w1 = "(next_tick w)\<lparr>txn_of := InTxn (tabs w)\<rparr>"
  let ?t = "payment_settled p pst tx payload (tabs w)"
  let ?w2 = "(next_tick ?w1)\<lparr>tabs := ?t\<rparr>"
  have k: "keyed p_payment_no (t_payments (tabs w))" "keyed o_order_no (t_orders (tabs w))"
    using q(3) by (simp_all add: wf_tables_def)
  from quiet_cas [OF q(1), of ?w1 p tx pst payload] k(1) p l(3)
  obtain n where c: "n > 0" "exec e (cas_payment pst tx payload (p_payment_no p)) ?w1 = (Inr n, ?w2)" by auto
  have "p_payment_no p \<in> p_payment_no ` set (t_payments ?t)"
    using p(1) by (force simp: payment_settled_def set_update_where)
  with quiet_alipay_order [OF q(1), of ?w2 order "p_payment_no p" fen] k(2) o p(2) l
  obtain w3 now where w3: "alipaySettleOrder e (o_order_no order) ''PAID'' fen (p_payment_no p) ?w2 = (Some ''PAID'', w3)"
    "txn_of w3 = InTxn (tabs w)"
    "tabs w3 = (let t = order_written order ''PAID'' ?t in t\<lparr>t_ledger := t_ledger t @ [income_row order (p_payment_no p) now]\<rparr>)"
    by (auto simp: payment_settled_def Let_def)
  have "settlePayment e p ''PAID'' pst tx payload (alipaySettleOrder e (o_order_no order) ''PAID'' fen (p_payment_no p)) ?w1 =
      (Some ''PAID'', w3)"
    using c w3(1) p(3) by (auto simp: settlePayment_def)
  then have "alipayTxn e p (o_order_no order) ''PAID'' pst tx payload fen w = (Some ''PAID'', end_txn e w3)"
    using quiet_begin [OF q(1,2)] by (simp add: alipayTxn_def)
  with quiet_end [OF q(1) w3(2)] w3(3) show ?thesis by auto
qed

lemma alipayResult_reads:
  "jstr (alipayResult params) ''code'' [] = Some ''10000''"
  "jstr (alipayResult params) ''trade_status'' [] = Some (param params ''trade_status'')"
  "jstr (alipayResult params) ''trade_no'' [] = Some (param params ''trade_no'')"
  "jstr (alipayResult params) ''total_amount'' [] = Some (param params ''total_amount'')"
  by (simp_all add: alipayResult_def jobject_def jstr_def)


text \<open>
  An authentic notification for an order without a payment that can carry money is
  acknowledged with nothing booked.
\<close>

lemma unknown_trade_acknowledged:
  assumes "quiet e" "txn_of w = NoTxn" "params = parseForm (ap_urlDecode A) (hq_body rq)"
    and "ap_alipayClient A = Some (Y, c)" "ap_paymentService A = Some S" "hasDb S"
    and "alipayVerifyCallback Y c (verifyParams params) (param params ''sign'')" "param params ''app_id'' = al_appId c"
    and "latest_payment (param params ''out_trade_no'') (tabs w) = Inr None" "param params ''trade_status'' = ''TRADE_SUCCESS''"
  shows "\<exists>w'. alipayNotify e A rq w = answered (alipayReply ''SUCCESS'' ''OK'') w' \<and> tabs w' = tabs w"
proof -
  let ?q = "latest_payment (param params ''out_trade_no'')"
  from quiet_read [where q = ?q, OF assms(1) _ assms(9)] assms(2)
  have m: "mapper e (reads ?q) w = (Ok None, next_tick w)" by simp
  have "alipayNotify e A rq w = syncNotified e S params w"
    using assms(4,5,7,8) unfolding alipayNotify_def Let_def assms(3) [symmetric] by simp
  also have "\<dots> = answered (alipayReply ''SUCCESS'' ''OK'') (next_tick w)"
    using m assms(6,10)
    by (simp add: syncNotified_def syncOrderStatusFromAlipay_def alipaySettle_def alipayResult_reads alipayStatuses_def
        alipayNotifiedFen_def)
  finally show ?thesis by auto
qed

section \<open>Concrete deliveries\<close>

definition wechat_post :: http_request where
  "wechat_post = (post None)\<lparr>hq_body := ''body'', hq_header := \<lambda>k.
     if k = ''Wechatpay-Signature'' then ''sig'' else if k = ''Wechatpay-Timestamp'' then ''12''
     else if k = ''Wechatpay-Nonce'' then ''x'' else ''s''\<rparr>"

definition alipay_body :: string where
  "alipay_body = ''total_amount=1.50&out_trade_no=ORD-000001&trade_no=T1&sign=sig&trade_status=TRADE_SUCCESS&app_id=app''"

definition alipay_post :: http_request where
  "alipay_post = (post None)\<lparr>hq_body := alipay_body\<rparr>"

definition notice_app :: app where
  "notice_app = sample_app\<lparr>ap_callbackService := Some (sample_callbacks, trade_sys ''SUCCESS''),
     ap_alipayClient := Some (sample_alipay\<lparr>ay_rsaVerify := \<lambda>pem data sig. sig = ''sig''\<rparr>, sample_client),
     ap_parseJson := parseJson (trade_sys ''SUCCESS'')\<rparr>"

lemma wechat_post_delivery: "deliveryOf wechat_post = sample_delivery"
  by (simp add: deliveryOf_def wechat_post_def post_def sample_delivery_def)

lemma alipay_post_params:
  "parseForm (ap_urlDecode notice_app) (hq_body alipay_post) =
     [(''app_id'', ''app''), (''out_trade_no'', ''ORD-000001''), (''sign'', ''sig''), (''total_amount'', ''1.50''),
      (''trade_no'', ''T1''), (''trade_status'', ''TRADE_SUCCESS'')]"
  by code_simp


theorem alipay_route_gate_witness:
  "alipayReply ''SUCCESS'' ''OK'' \<in> set (fst (fst (alipayNotify calm notice_app alipay_post (fresh paying_tables)))) \<and>
   (\<exists>status w'. status \<noteq> [] \<and> syncOrderStatusFromAlipay calm plain_sys ''ORD-000001''
      (alipayResult (parseForm (ap_urlDecode notice_app) (hq_body alipay_post))) (fresh paying_tables) = (Some status, w'))"
proof -
  let ?a = "alipayNotify calm notice_app alipay_post (fresh paying_tables)"
  have "fst (fst ?a) = [alipayReply ''SUCCESS'' ''OK'']" by code_simp
  then have c: "alipayReply ''SUCCESS'' ''OK'' \<in> set (fst (fst ?a))" by simp
  have "param (parseForm (ap_urlDecode notice_app) (hq_body alipay_post)) ''out_trade_no'' = ''ORD-000001''" by code_simp
  with alipay_route_gate [OF refl, of calm notice_app alipay_post "fresh paying_tables"] c show ?thesis
    by (auto simp: notice_app_def sample_app_def)
qed

end
