(* ===== verification/Pay_Wechat.thy ===== *)
theory Pay_Wechat
  imports Pay_Notify "HOL-Library.Signed_Division"
begin

text \<open>
  \<open>channels/WechatChannel.cc\<close>: the platform certificates the client keeps and refreshes, the
  signing of its requests, the check of answers and notifications against the certificates,
  the decryption of resources, and the client as a channel of the services.

  OpenSSL, base64, the JSON writer and reader, the clocks, the file system and the HTTP
  exchange are parameters. An operation that talks to WeChat ends in a call of its callback or in
  a request; the answer to the request is handled later, in the state the client has then.
\<close>

section \<open>Outside code\<close>

text \<open>
  A parsed certificate. The times are seconds since the epoch, \<open>None\<close> when they cannot be
  read; \<open>serialText\<close> is the text of \<open>i2s_ASN1_INTEGER\<close> for its serial number.
\<close>

record x509 =
  x5_notBefore :: "int option"
  x5_notAfter :: "int option"
  x5_serialText :: "string option"
  x5_pubkey :: "string option"
  x5_encoding :: string

record wechat_response =
  rs_status :: nat
  rs_header :: "string \<Rightarrow> string"
  rs_body :: string
  rs_json :: "json option"

datatype wechat_result = ReqTimeout | ReqFailed | Response wechat_response

record wechat_request =
  wq_apiBase :: string
  wq_method :: string
  wq_path :: string
  wq_body :: string
  wq_authorization :: string
  wq_timeoutMs :: int
  wq_verified :: bool

text \<open>
  \<open>fails\<close>: whether the named library call reports a failure at a moment. \<open>rsaVerify\<close>: key,
  message, signature. \<open>gcmOpen\<close>: key, nonce, associated data, ciphertext, tag; \<open>None\<close> when the
  tag does not match. \<open>verifyChain\<close>: \<open>None\<close> when the certificate chains to one of the anchors,
  else the text of the error. \<open>http\<close>: when and with what a request is answered; \<open>alive\<close>: whether
  the client object still exists at a moment.
\<close>

record wechat_sys =
  wx_fails :: "nat \<Rightarrow> string \<Rightarrow> bool"
  wx_readFile :: "string \<Rightarrow> string option"
  wx_pemX509 :: "string \<Rightarrow> x509 option"
  wx_pemBundle :: "string \<Rightarrow> x509 list"
  wx_pemPrivateKey :: "string \<Rightarrow> string option"
  wx_storeAccepts :: "x509 \<Rightarrow> bool"
  wx_verifyChain :: "nat \<Rightarrow> x509 list \<Rightarrow> x509 \<Rightarrow> string option"
  wx_rsaSign :: "string \<Rightarrow> string \<Rightarrow> string"
  wx_rsaVerify :: "string \<Rightarrow> string \<Rightarrow> string \<Rightarrow> bool"
  wx_gcmOpen :: "string \<Rightarrow> string \<Rightarrow> string \<Rightarrow> string \<Rightarrow> string \<Rightarrow> string option"
  wx_base64Encode :: "string \<Rightarrow> string"
  wx_base64Decode :: "string \<Rightarrow> string"
  wx_toJsonString :: "json \<Rightarrow> string"
  wx_parseJson :: "string \<Rightarrow> bool \<times> json"
  wx_parseErrors :: "string \<Rightarrow> string"
  wx_time :: "nat \<Rightarrow> int"
  wx_steadyNs :: "nat \<Rightarrow> int"
  wx_getUuid :: "nat \<Rightarrow> string"
  wx_http :: "nat \<Rightarrow> wechat_request \<Rightarrow> (nat \<times> wechat_result) option"
  wx_alive :: "nat \<Rightarrow> bool"

section \<open>Certificates\<close>

text \<open>\<open>std::toupper\<close> in the C locale.\<close>

definition to_upper :: "char \<Rightarrow> char" where
  "to_upper c = (if is_lower c then char_of (byte c - 32) else c)"

definition normalizeSerialHex :: "string \<Rightarrow> string" where
  "normalizeSerialHex raw =
     (let upper = map to_upper raw
      in case index_of (\<lambda>c. c \<noteq> CHR ''0'') upper of None \<Rightarrow> ''0'' | Some first \<Rightarrow> drop first upper)"

definition parseCert :: "wechat_sys \<Rightarrow> nat \<Rightarrow> string \<Rightarrow> x509 option" where
  "parseCert W now certContent =
     (if certContent = [] then None
      else if wx_fails W now ''BIO_new_mem_buf'' then None
      else wx_pemX509 W certContent)"

text \<open>\<open>X509_cmp_current_time\<close>: 0 is an error.\<close>

definition cmp_current_time :: "wechat_sys \<Rightarrow> nat \<Rightarrow> int option \<Rightarrow> int" where
  "cmp_current_time W now t = (case t of None \<Rightarrow> 0 | Some s \<Rightarrow> if s \<le> wx_time W now then - 1 else 1)"

text \<open>The checks of this file give \<open>None\<close> for success and the error text otherwise.\<close>

definition isWithinValidity :: "wechat_sys \<Rightarrow> nat \<Rightarrow> x509 \<Rightarrow> string option" where
  "isWithinValidity W now cert =
     (if 0 \<le> cmp_current_time W now (x5_notBefore cert) then Some ''certificate not yet valid''
      else if cmp_current_time W now (x5_notAfter cert) \<le> 0 then Some ''certificate has expired''
      else None)"

definition serialHexOf :: "x509 \<Rightarrow> string" where
  "serialHexOf cert = (case x5_serialText cert of None \<Rightarrow> [] | Some raw \<Rightarrow> normalizeSerialHex raw)"

definition certificateSerialHex :: "wechat_sys \<Rightarrow> nat \<Rightarrow> string \<Rightarrow> string" where
  "certificateSerialHex W now certContent =
     (case parseCert W now certContent of None \<Rightarrow> [] | Some cert \<Rightarrow> serialHexOf cert)"

definition readFile :: "wechat_sys \<Rightarrow> string \<Rightarrow> string + string" where
  "readFile W path =
     (case wx_readFile W path of None \<Rightarrow> Inl (''failed to open file: '' @ path) | Some content \<Rightarrow> Inr content)"

section \<open>Signatures and decryption\<close>

text \<open>The base64 text of the signature, or the error.\<close>

definition signMessage :: "wechat_sys \<Rightarrow> nat \<Rightarrow> string \<Rightarrow> string \<Rightarrow> string + string" where
  "signMessage W now message privateKeyPath =
     (case readFile W privateKeyPath of
        Inl keyError \<Rightarrow> Inl keyError
      | Inr keyContent \<Rightarrow>
          if wx_fails W now ''BIO_new_mem_buf'' then Inl ''failed to create BIO for private key''
          else
            (case wx_pemPrivateKey W keyContent of
               None \<Rightarrow> Inl ''failed to load private key''
             | Some pkey \<Rightarrow>
                 if wx_fails W now ''EVP_MD_CTX_new'' then Inl ''failed to create EVP_MD_CTX''
                 else if wx_fails W now ''EVP_DigestSignInit'' then Inl ''EVP_DigestSignInit failed''
                 else if wx_fails W now ''EVP_DigestSignUpdate'' then Inl ''EVP_DigestSignUpdate failed''
                 else if wx_fails W now ''EVP_DigestSignFinal size'' then Inl ''EVP_DigestSignFinal size failed''
                 else if wx_fails W now ''EVP_DigestSignFinal'' then Inl ''EVP_DigestSignFinal failed''
                 else Inr (wx_base64Encode W (wx_rsaSign W pkey message))))"

definition verifyMessageWithCert :: "wechat_sys \<Rightarrow> nat \<Rightarrow> string \<Rightarrow> string \<Rightarrow> string \<Rightarrow> string option" where
  "verifyMessageWithCert W now message signatureB64 certContent =
     (if certContent = [] then Some ''empty certificate content''
      else
        (case parseCert W now certContent of
           None \<Rightarrow> Some ''failed to load platform cert from content''
         | Some cert \<Rightarrow>
             (case isWithinValidity W now cert of
                Some validityError \<Rightarrow> Some (''platform cert '' @ validityError)
              | None \<Rightarrow>
                  (case x5_pubkey cert of
                     None \<Rightarrow> Some ''failed to extract public key''
                   | Some pkey \<Rightarrow>
                       let signature = wx_base64Decode W signatureB64
                       in if signature = [] then Some ''failed to decode signature''
                          else if wx_fails W now ''EVP_MD_CTX_new'' then Some ''failed to create EVP_MD_CTX''
                          else if wx_fails W now ''EVP_DigestVerifyInit'' then Some ''EVP_DigestVerifyInit failed''
                          else if wx_fails W now ''EVP_DigestVerifyUpdate'' then Some ''EVP_DigestVerifyUpdate failed''
                          else if \<not> wx_rsaVerify W pkey message signature then Some ''signature verify failed''
                          else None))))"

text \<open>The plaintext, or the error. The last 16 bytes of the decoded text are the tag.\<close>

definition decryptAesGcm :: "wechat_sys \<Rightarrow> nat \<Rightarrow> string \<Rightarrow> string \<Rightarrow> string \<Rightarrow> string \<Rightarrow> string + string" where
  "decryptAesGcm W now ciphertextB64 nonce aad apiV3Key =
     (if length apiV3Key \<noteq> 32 then Inl ''api_v3_key must be 32 bytes''
      else
        let ciphertext = wx_base64Decode W ciphertextB64
        in if length ciphertext < 16 then Inl ''ciphertext too short''
           else if length nonce \<noteq> 12 then Inl ''nonce must be 12 bytes''
           else
             let textLen = length ciphertext - 16; tag = drop textLen ciphertext
             in if wx_fails W now ''EVP_CIPHER_CTX_new'' then Inl ''failed to create cipher ctx''
                else if wx_fails W now ''EVP_DecryptInit_ex'' then Inl ''EVP_DecryptInit_ex failed''
                else if wx_fails W now ''EVP_CTRL_GCM_SET_IVLEN'' then Inl ''set iv len failed''
                else if wx_fails W now ''EVP_DecryptInit_ex key'' then Inl ''set key/iv failed''
                else if aad \<noteq> [] \<and> wx_fails W now ''EVP_DecryptUpdate aad'' then Inl ''set aad failed''
                else if 0 < textLen \<and> wx_fails W now ''EVP_DecryptUpdate'' then Inl ''decrypt update failed''
                else if wx_fails W now ''EVP_CTRL_GCM_SET_TAG'' then Inl ''set tag failed''
                else
                  (case wx_gcmOpen W apiV3Key nonce aad (take textLen ciphertext) tag of
                     None \<Rightarrow> Inl ''decrypt final failed''
                   | Some plaintext \<Rightarrow> Inr plaintext))"

section \<open>The client\<close>

record wechat =
  wc_appId :: string
  wc_mchId :: string
  wc_serialNo :: string
  wc_apiV3Key :: string
  wc_privateKeyPath :: string
  wc_platformCertPath :: string
  wc_platformCaCertPath :: string
  wc_apiBase :: string
  wc_notifyUrl :: string
  wc_certDownloadMinIntervalSeconds :: int
  wc_timeoutMs :: int

text \<open>
  What changes: the certificates by serial, the reading of the steady clock at the last
  download (0: none), and, not kept by the code, the readings of all downloads that were put
  on the wire, the latest first.
\<close>

record wechat_state =
  ws_platformCerts :: "string \<rightharpoonup> string"
  ws_lastCertDownloadAt :: int
  ws_downloads :: "int list"

definition fresh_state :: wechat_state where
  "fresh_state = \<lparr>ws_platformCerts = Map.empty, ws_lastCertDownloadAt = 0, ws_downloads = []\<rparr>"

text \<open>The constructor; \<open>None\<close>: an accessor throws on the configuration.\<close>

definition newWechatPayClient :: "json \<Rightarrow> wechat option" where
  "newWechatPayClient config =
     (case (jstr config ''app_id'' [], jstr config ''mch_id'' [], jstr config ''serial_no'' [],
            jstr config ''api_v3_key'' [], jstr config ''private_key_path'' [], jstr config ''platform_cert_path'' [],
            jstr config ''platform_ca_cert_path'' [], jstr config ''api_base'' ''https://api.mch.weixin.qq.com'',
            jstr config ''notify_url'' [],
            Option.bind (jget config ''cert_download_min_interval_seconds'' (JInt 300)) asInt,
            Option.bind (jget config ''timeout_ms'' (JInt 5000)) asInt) of
        (Some appId, Some mchId, Some serialNo, Some apiV3Key, Some privateKeyPath, Some platformCertPath,
         Some platformCaCertPath, Some apiBase, Some notifyUrl, Some interval, Some timeoutMs) \<Rightarrow>
          Some \<lparr>wc_appId = appId, wc_mchId = mchId, wc_serialNo = serialNo, wc_apiV3Key = apiV3Key,
            wc_privateKeyPath = privateKeyPath, wc_platformCertPath = platformCertPath,
            wc_platformCaCertPath = platformCaCertPath, wc_apiBase = apiBase, wc_notifyUrl = notifyUrl,
            wc_certDownloadMinIntervalSeconds = (if interval < 1 then 1 else interval),
            wc_timeoutMs = (if timeoutMs < 0 then 0 else timeoutMs)\<rparr>
      | _ \<Rightarrow> None)"

definition wechatConfigured :: "wechat \<Rightarrow> bool" where
  "wechatConfigured c \<longleftrightarrow>
     \<not> (isPlaceholder (wc_appId c) \<or> isPlaceholder (wc_mchId c) \<or> isPlaceholder (wc_serialNo c) \<or>
        isPlaceholder (wc_apiV3Key c) \<or> isPlaceholder (wc_privateKeyPath c))"

definition wechatDecryptResource ::
  "wechat_sys \<Rightarrow> wechat \<Rightarrow> nat \<Rightarrow> string \<Rightarrow> string \<Rightarrow> string \<Rightarrow> string + string" where
  "wechatDecryptResource W c now ciphertext nonce associatedData =
     (if wc_apiV3Key c = [] then Inl ''api_v3_key is not configured''
      else decryptAesGcm W now ciphertext nonce associatedData (wc_apiV3Key c))"

section \<open>Platform certificates\<close>

definition getPlatformCert :: "string \<Rightarrow> wechat_state \<Rightarrow> string" where
  "getPlatformCert serialNo st =
     (case ws_platformCerts st (normalizeSerialHex serialNo) of None \<Rightarrow> [] | Some content \<Rightarrow> content)"

definition chainsToConfiguredAnchors :: "wechat_sys \<Rightarrow> nat \<Rightarrow> string \<Rightarrow> string \<Rightarrow> string option" where
  "chainsToConfiguredAnchors W now certPem caPath =
     (if caPath = [] then None
      else
        (case readFile W caPath of
           Inl readErr \<Rightarrow> Some (''cannot read platform_ca_cert_path: '' @ readErr)
         | Inr caPem \<Rightarrow>
             if wx_fails W now ''X509_STORE_new'' then Some ''failed to create X509_STORE''
             else
               let anchors = (if wx_fails W now ''BIO_new_mem_buf'' then []
                              else filter (wx_storeAccepts W) (wx_pemBundle W caPem))
               in if anchors = [] then Some ''platform_ca_cert_path holds no readable certificate''
                  else
                    (case parseCert W now certPem of
                       None \<Rightarrow> Some ''platform cert does not parse''
                     | Some leaf \<Rightarrow>
                         if wx_fails W now ''X509_STORE_CTX_init'' then Some ''failed to init X509_STORE_CTX''
                         else map_option (\<lambda>text. ''chain verification failed: '' @ text)
                                (wx_verifyChain W now anchors leaf))))"

definition setPlatformCert ::
  "wechat_sys \<Rightarrow> wechat \<Rightarrow> nat \<Rightarrow> string \<Rightarrow> string \<Rightarrow> wechat_state \<Rightarrow> bool \<times> wechat_state" where
  "setPlatformCert W c now serialNo certContent st =
     (if serialNo = [] then (False, st)
      else
        (case parseCert W now certContent of
           None \<Rightarrow> (False, st)
         | Some cert \<Rightarrow>
             let actualSerial = serialHexOf cert
             in if isWithinValidity W now cert \<noteq> None then (False, st)
                else if actualSerial = [] \<or> actualSerial \<noteq> normalizeSerialHex serialNo then (False, st)
                else if chainsToConfiguredAnchors W now certContent (wc_platformCaCertPath c) \<noteq> None then (False, st)
                else (True, st\<lparr>ws_platformCerts := (ws_platformCerts st)(actualSerial \<mapsto> certContent)\<rparr>)))"

section \<open>Requests\<close>

definition quoted :: "string \<Rightarrow> string" where
  "quoted s = [CHR 0x22] @ s @ [CHR 0x22]"

definition signedMessage :: "string \<Rightarrow> string \<Rightarrow> string \<Rightarrow> string \<Rightarrow> string \<Rightarrow> string" where
  "signedMessage verb url timestamp nonce bodyText =
     verb @ newline @ url @ newline @ timestamp @ newline @ nonce @ newline @ bodyText @ newline"

definition buildAuthorizationHeader ::
  "wechat_sys \<Rightarrow> wechat \<Rightarrow> nat \<Rightarrow> string \<Rightarrow> string \<Rightarrow> string \<Rightarrow> string \<Rightarrow> string \<Rightarrow> string + string" where
  "buildAuthorizationHeader W c now verb url bodyText timestamp nonce =
     (if wc_mchId c = [] \<or> wc_serialNo c = [] \<or> wc_privateKeyPath c = []
      then Inl ''wechat pay config missing mch_id/serial_no/private_key_path''
      else
        (case signMessage W now (signedMessage verb url timestamp nonce bodyText) (wc_privateKeyPath c) of
           Inl error \<Rightarrow> Inl error
         | Inr signatureB64 \<Rightarrow>
             Inr (''WECHATPAY2-SHA256-RSA2048 mchid='' @ quoted (wc_mchId c) @ '',nonce_str='' @ quoted nonce @
                  '',timestamp='' @ quoted timestamp @ '',serial_no='' @ quoted (wc_serialNo c) @
                  '',signature='' @ quoted signatureB64)))"

text \<open>How a call on the client ends: its callback is called, a request is sent, or it throws.\<close>

datatype sent = Called json string | Sent wechat_request | Raised

definition sendWechatRequest ::
  "string \<Rightarrow> string \<Rightarrow> string \<Rightarrow> string \<Rightarrow> string \<Rightarrow> int \<Rightarrow> bool \<Rightarrow> sent" where
  "sendWechatRequest apiBase verb path bodyText authHeader timeoutMs verified =
     (if verb = ''GET'' \<or> verb = ''POST''
      then Sent \<lparr>wq_apiBase = apiBase, wq_method = verb, wq_path = path,
             wq_body = (if verb = ''POST'' then bodyText else []), wq_authorization = authHeader,
             wq_timeoutMs = timeoutMs, wq_verified = verified\<rparr>
      else Called JNull ''unsupported method'')"

text \<open>The part the methods share: time stamp, nonce, signature, request.\<close>

definition signAndSend :: "wechat_sys \<Rightarrow> wechat \<Rightarrow> nat \<Rightarrow> string \<Rightarrow> string \<Rightarrow> string \<Rightarrow> sent" where
  "signAndSend W c now verb path bodyText =
     (case buildAuthorizationHeader W c now verb path bodyText (show_int (wx_time W now)) (wx_getUuid W now) of
        Inl error \<Rightarrow> Called JNull error
      | Inr auth \<Rightarrow> sendWechatRequest (wc_apiBase c) verb path bodyText auth (wc_timeoutMs c) True)"

text \<open>
  \<open>if (request.get(key, "").asString().empty()) request[key] = v\<close>; \<open>None\<close> when an accessor
  throws.
\<close>

definition fill_member :: "string \<Rightarrow> string \<Rightarrow> json \<Rightarrow> json option" where
  "fill_member key v request =
     (case jstr request key [] of
        None \<Rightarrow> None
      | Some s \<Rightarrow> Some (if s = [] then jset key (JString v) request else request))"

definition createTransactionNative :: "wechat_sys \<Rightarrow> wechat \<Rightarrow> nat \<Rightarrow> json \<Rightarrow> sent" where
  "createTransactionNative W c now payload =
     (case Option.bind (fill_member ''appid'' (wc_appId c) payload) (\<lambda>a.
             Option.bind (fill_member ''mchid'' (wc_mchId c) a) (fill_member ''notify_url'' (wc_notifyUrl c))) of
        None \<Rightarrow> Raised
      | Some request \<Rightarrow>
          (case (jstr request ''appid'' [], jstr request ''mchid'' [], jstr request ''notify_url'' []) of
             (Some appid, Some mchid, Some notifyUrl) \<Rightarrow>
               if appid = [] \<or> mchid = [] \<or> notifyUrl = [] then Called JNull ''missing appid/mchid/notify_url''
               else signAndSend W c now ''POST'' ''/v3/pay/transactions/native'' (wx_toJsonString W request)
           | _ \<Rightarrow> Raised))"

definition queryTransaction :: "wechat_sys \<Rightarrow> wechat \<Rightarrow> nat \<Rightarrow> string \<Rightarrow> sent" where
  "queryTransaction W c now orderNo =
     (if orderNo = [] then Called JNull ''missing orderNo''
      else if wc_mchId c = [] then Called JNull ''missing mch_id''
      else signAndSend W c now ''GET''
             (''/v3/pay/transactions/out-trade-no/'' @ urlEncodePathSegment orderNo @ ''?mchid='' @
              urlEncodePathSegment (wc_mchId c)) [])"

definition closeTransaction :: "wechat_sys \<Rightarrow> wechat \<Rightarrow> nat \<Rightarrow> string \<Rightarrow> sent" where
  "closeTransaction W c now orderNo =
     (if orderNo = [] then Called JNull ''missing orderNo''
      else if wc_mchId c = [] then Called JNull ''missing mch_id''
      else signAndSend W c now ''POST''
             (''/v3/pay/transactions/out-trade-no/'' @ urlEncodePathSegment orderNo @ ''/close'')
             (wx_toJsonString W (jobject [(''mchid'', JString (wc_mchId c))])))"

definition wechatRefund :: "wechat_sys \<Rightarrow> wechat \<Rightarrow> nat \<Rightarrow> json \<Rightarrow> sent" where
  "wechatRefund W c now payload =
     (case fill_member ''notify_url'' (wc_notifyUrl c) payload of
        None \<Rightarrow> Raised
      | Some request \<Rightarrow> signAndSend W c now ''POST'' ''/v3/refund/domestic/refunds'' (wx_toJsonString W request))"

definition wechatQueryRefund :: "wechat_sys \<Rightarrow> wechat \<Rightarrow> nat \<Rightarrow> string \<Rightarrow> sent" where
  "wechatQueryRefund W c now refundNo =
     (if refundNo = [] then Called JNull ''missing refundNo''
      else signAndSend W c now ''GET'' (''/v3/refund/domestic/refunds/'' @ urlEncodePathSegment refundNo) [])"

section \<open>Downloading certificates\<close>

text \<open>
  The signed request, then the check and the stamp under the mutex. The clock is read before
  the mutex is taken, so the readings need not come in order.
\<close>

definition throttled :: "wechat \<Rightarrow> int \<Rightarrow> int \<Rightarrow> bool" where
  "throttled c steadyNow lastAt \<longleftrightarrow> lastAt \<noteq> 0 \<and> (steadyNow - lastAt) sdiv 1000000000 < wc_certDownloadMinIntervalSeconds c"

definition downloadCertificates :: "wechat_sys \<Rightarrow> wechat \<Rightarrow> nat \<Rightarrow> wechat_state \<Rightarrow> sent \<times> wechat_state" where
  "downloadCertificates W c now st =
     (case buildAuthorizationHeader W c now ''GET'' ''/v3/certificates'' [] (show_int (wx_time W now)) (wx_getUuid W now) of
        Inl error \<Rightarrow> (Called JNull error, st)
      | Inr auth \<Rightarrow>
          let request = sendWechatRequest (wc_apiBase c) ''GET'' ''/v3/certificates'' [] auth (wc_timeoutMs c) False;
              logged = st\<lparr>ws_downloads := wx_steadyNs W now # ws_downloads st\<rparr>
          in if 0 < wc_certDownloadMinIntervalSeconds c then
               (if throttled c (wx_steadyNs W now) (ws_lastCertDownloadAt st)
                then (Called JNull ''certificate download throttled'', st)
                else (request, logged\<lparr>ws_lastCertDownloadAt := wx_steadyNs W now\<rparr>))
             else (request, logged))"

text \<open>
  The loop over the entries of an answer: how many were installed, \<open>None\<close> when an accessor
  throws, in which case those before it stay installed.
\<close>

definition certificateEntry :: "json \<Rightarrow> (string \<times> string \<times> string \<times> string) option option" where
  "certificateEntry certNode =
     (case (jstr certNode ''serial_no'' [], jget certNode ''encrypt_certificate'' JNull) of
        (Some serialNo, Some encNode) \<Rightarrow>
          if serialNo = [] \<or> isNull encNode then Some None
          else
            (case (jstr encNode ''ciphertext'' [], jstr encNode ''nonce'' [], jstr encNode ''associated_data'' []) of
               (Some ciphertext, Some nonceStr, Some associatedData) \<Rightarrow>
                 Some (Some (serialNo, ciphertext, nonceStr, associatedData))
             | _ \<Rightarrow> None)
      | _ \<Rightarrow> None)"

fun installCertificates ::
  "wechat_sys \<Rightarrow> wechat \<Rightarrow> nat \<Rightarrow> json list \<Rightarrow> nat \<Rightarrow> wechat_state \<Rightarrow> nat option \<times> wechat_state" where
  "installCertificates W c now [] installed st = (Some installed, st)"
| "installCertificates W c now (certNode # nodes) installed st =
     (case certificateEntry certNode of
        None \<Rightarrow> (None, st)
      | Some None \<Rightarrow> installCertificates W c now nodes installed st
      | Some (Some (serialNo, ciphertext, nonceStr, associatedData)) \<Rightarrow>
          (case wechatDecryptResource W c now ciphertext nonceStr associatedData of
             Inl decryptErr \<Rightarrow> installCertificates W c now nodes installed st
           | Inr plaintext \<Rightarrow>
               (case setPlatformCert W c now serialNo plaintext st of
                  (ok, st1) \<Rightarrow> installCertificates W c now nodes (if ok then installed + 1 else installed) st1)))"

text \<open>The callback of the download request.\<close>

definition onCertificates ::
  "wechat_sys \<Rightarrow> wechat \<Rightarrow> nat \<Rightarrow> json \<Rightarrow> string \<Rightarrow> wechat_state \<Rightarrow> (json \<times> string) option \<times> wechat_state" where
  "onCertificates W c now result err st =
     (if \<not> wx_alive W now then (Some (JNull, ''wechat client destroyed before certificate response''), st)
      else if err \<noteq> [] then (Some (result, err), st)
      else
        (case (isMember result ''data'', jget result ''data'' JNull) of
           (Some True, Some (JArray nodes)) \<Rightarrow>
             (case installCertificates W c now nodes 0 st of
                (None, st1) \<Rightarrow> (None, st1)
              | (Some installed, st1) \<Rightarrow>
                  (Some (result, if installed = 0 then ''no platform certificate passed validation'' else []), st1))
         | (None, _) \<Rightarrow> (None, st)
         | _ \<Rightarrow> (Some (result, ''invalid certificate response format''), st)))"

section \<open>Whose signature counts\<close>

text \<open>
  The certificate for a serial, or the error. An unknown serial starts a download, whose
  callback only logs.
\<close>

definition resolveTrustedPlatformCert ::
  "wechat_sys \<Rightarrow> wechat \<Rightarrow> nat \<Rightarrow> string \<Rightarrow> wechat_state \<Rightarrow> (string + string) \<times> wechat_state" where
  "resolveTrustedPlatformCert W c now serialNo st =
     (if serialNo = [] then (Inl ''missing Wechatpay-Serial'', st)
      else if 64 < length serialNo then (Inl ''Wechatpay-Serial too long'', st)
      else
        let cached = getPlatformCert serialNo st;
            found = (if cached \<noteq> [] \<or> wc_platformCertPath c = [] then Inr cached
                     else
                       (case readFile W (wc_platformCertPath c) of
                          Inl readErr \<Rightarrow> Inl (''failed to read static cert: '' @ readErr)
                        | Inr staticCert \<Rightarrow>
                            Inr (if certificateSerialHex W now staticCert = normalizeSerialHex serialNo
                                 then staticCert else [])))
        in case found of
             Inl error \<Rightarrow> (Inl error, st)
           | Inr certContent \<Rightarrow>
               if certContent = []
               then (Inl (''no trusted platform certificate for serial: '' @ serialNo),
                     snd (downloadCertificates W c now st))
               else (Inr certContent, st))"

definition signedBody :: "string \<Rightarrow> string \<Rightarrow> string \<Rightarrow> string" where
  "signedBody timestamp nonce bodyText = timestamp @ newline @ nonce @ newline @ bodyText @ newline"

definition wechatVerifyCallback ::
  "wechat_sys \<Rightarrow> wechat \<Rightarrow> nat \<Rightarrow> string \<Rightarrow> string \<Rightarrow> string \<Rightarrow> string \<Rightarrow> string \<Rightarrow> wechat_state \<Rightarrow>
     string option \<times> wechat_state" where
  "wechatVerifyCallback W c now timestamp nonce bodyText signature serialNo st =
     (case resolveTrustedPlatformCert W c now serialNo st of
        (Inl error, st1) \<Rightarrow> (Some error, st1)
      | (Inr certContent, st1) \<Rightarrow>
          (verifyMessageWithCert W now (signedBody timestamp nonce bodyText) signature certContent, st1))"

definition verifyResponse ::
  "wechat_sys \<Rightarrow> wechat \<Rightarrow> nat \<Rightarrow> wechat_response \<Rightarrow> wechat_state \<Rightarrow> string option \<times> wechat_state" where
  "verifyResponse W c now resp st =
     (let timestamp = rs_header resp ''Wechatpay-Timestamp''; nonce = rs_header resp ''Wechatpay-Nonce'';
          signature = rs_header resp ''Wechatpay-Signature''; serialNo = rs_header resp ''Wechatpay-Serial''
      in if timestamp = [] \<or> nonce = [] \<or> signature = []
         then (Some ''missing Wechatpay-Timestamp/Nonce/Signature answer headers'', st)
         else
           (case resolveTrustedPlatformCert W c now serialNo st of
              (Inl error, st1) \<Rightarrow> (Some error, st1)
            | (Inr certContent, st1) \<Rightarrow>
                (verifyMessageWithCert W now (signedBody timestamp nonce (rs_body resp)) signature certContent, st1)))"

definition answerVerifier ::
  "wechat_sys \<Rightarrow> wechat \<Rightarrow> nat \<Rightarrow> wechat_response \<Rightarrow> wechat_state \<Rightarrow> string option \<times> wechat_state" where
  "answerVerifier W c now resp st =
     (if wx_alive W now then verifyResponse W c now resp st
      else (Some ''wechat client destroyed before the answer was verified'', st))"

section \<open>Answers\<close>

definition httpFailureText :: "nat \<Rightarrow> string \<Rightarrow> string" where
  "httpFailureText status detail =
     (let trimmed = (if 200 < length detail then take 200 detail @ ''...'' else detail)
      in ''HTTP '' @ show_nat status @ '': '' @
         rev (dropWhile (\<lambda>c. c = CHR 0x0A \<or> c = CHR 0x0D) (rev trimmed)))"

definition parseAnswer :: "wechat_sys \<Rightarrow> wechat_response \<Rightarrow> bool \<times> json" where
  "parseAnswer W resp = (case rs_json resp of Some json \<Rightarrow> (True, json) | None \<Rightarrow> wx_parseJson W (rs_body resp))"

text \<open>The text of an error envelope; \<open>None\<close> when an accessor throws.\<close>

definition envelopeDetail :: "bool \<Rightarrow> json \<Rightarrow> string option" where
  "envelopeDetail parsed bodyJson =
     map_option (\<lambda>detail. if detail = [] \<or> detail = '' '' then ''no error envelope'' else detail)
       (if parsed
        then (case (jstr bodyJson ''code'' [], jstr bodyJson ''message'' []) of
                (Some code, Some message) \<Rightarrow> Some (code @ '' '' @ message)
              | _ \<Rightarrow> None)
        else Some [])"

definition readVerified :: "wechat_sys \<Rightarrow> wechat_response \<Rightarrow> (json \<times> string) option" where
  "readVerified W resp =
     (if rs_status resp = 204 then Some (JObject [], [])
      else
        (case parseAnswer W resp of
           (parsed, bodyJson) \<Rightarrow>
             if rs_status resp < 200 \<or> 300 \<le> rs_status resp
             then map_option (\<lambda>detail. (bodyJson, httpFailureText (rs_status resp) detail)) (envelopeDetail parsed bodyJson)
             else if \<not> parsed then Some (bodyJson, ''invalid json response'')
             else Some (bodyJson, [])))"

text \<open>The callback of \<open>sendRequest\<close>: what is handed to the caller's callback, if anything.\<close>

definition receiveAnswer ::
  "wechat_sys \<Rightarrow> wechat \<Rightarrow> nat \<Rightarrow> wechat_request \<Rightarrow> wechat_result \<Rightarrow> wechat_state \<Rightarrow>
     (json \<times> string) option \<times> wechat_state" where
  "receiveAnswer W c now rq result st =
     (case result of
        ReqTimeout \<Rightarrow> (Some (JNull, ''http request timed out after '' @ show_int (wq_timeoutMs rq) @ ''ms''), st)
      | ReqFailed \<Rightarrow> (Some (JNull, ''http request failed''), st)
      | Response resp \<Rightarrow>
          (case (if wq_verified rq then answerVerifier W c now resp st else (None, st)) of
             (Some verifyError, st1) \<Rightarrow> (Some (JNull, ''response signature verification failed: '' @ verifyError), st1)
           | (None, st1) \<Rightarrow> (readVerified W resp, st1)))"

text \<open>The answer to a download: the inner callback is that of \<open>downloadCertificates\<close>.\<close>

definition receiveCertificates ::
  "wechat_sys \<Rightarrow> wechat \<Rightarrow> nat \<Rightarrow> wechat_request \<Rightarrow> wechat_result \<Rightarrow> wechat_state \<Rightarrow>
     (json \<times> string) option \<times> wechat_state" where
  "receiveCertificates W c now rq result st =
     (case receiveAnswer W c now rq result st of
        (None, st1) \<Rightarrow> (None, st1)
      | (Some (bodyJson, err), st1) \<Rightarrow> onCertificates W c now bodyJson err st1)"

section \<open>The client as a channel\<close>

text \<open>
  A call at \<open>now\<close> whose answer arrives later, when the client's state is the one \<open>history\<close> has
  for that moment.
\<close>

definition exchange ::
  "wechat_sys \<Rightarrow> wechat \<Rightarrow> (nat \<Rightarrow> wechat_state) \<Rightarrow> nat \<Rightarrow> sent \<Rightarrow> (json \<times> string) option" where
  "exchange W c history now out =
     (case out of
        Raised \<Rightarrow> None
      | Called result error \<Rightarrow> Some (result, error)
      | Sent rq \<Rightarrow>
          (case wx_http W now rq of
             None \<Rightarrow> None
           | Some (later, result) \<Rightarrow> fst (receiveAnswer W c later rq result (history later))))"

definition wechatChannel :: "wechat_sys \<Rightarrow> wechat \<Rightarrow> (nat \<Rightarrow> wechat_state) \<Rightarrow> channel" where
  "wechatChannel W c history =
     \<lparr>ch_createQRPayment = \<lambda>now payload. exchange W c history now (createTransactionNative W c now payload),
      ch_queryPayment = \<lambda>now orderNo. exchange W c history now (queryTransaction W c now orderNo),
      ch_closeOrder = \<lambda>now orderNo. exchange W c history now (closeTransaction W c now orderNo),
      ch_refund = \<lambda>now payload. exchange W c history now (wechatRefund W c now payload),
      ch_queryRefund = \<lambda>now refundNo. exchange W c history now (wechatQueryRefund W c now refundNo)\<rparr>"

text \<open>The client as the callback service uses it at a moment.\<close>

definition wechatAt :: "wechat_sys \<Rightarrow> wechat \<Rightarrow> nat \<Rightarrow> wechat_state \<Rightarrow> wechat_client" where
  "wechatAt W c now st =
     \<lparr>verifyCallback = \<lambda>timestamp nonce bodyText signature serialNo.
        fst (wechatVerifyCallback W c now timestamp nonce bodyText signature serialNo st) = None,
      decryptResource = wechatDecryptResource W c now, getAppId = wc_appId c, getMchId = wc_mchId c\<rparr>"

text \<open>
  The channel interface's \<open>verifyCallback\<close>: \<open>None\<close> when an accessor throws, else the error or
  the event.
\<close>

definition eventOf :: "string \<Rightarrow> string \<Rightarrow> json \<Rightarrow> string \<Rightarrow> json \<Rightarrow> callback_event option" where
  "eventOf bodyText eventType bodyJson plaintext resourceJson =
     (case (jstr resourceJson ''out_trade_no'' [], jstr resourceJson ''transaction_id'' [],
            jstr resourceJson ''trade_state'' eventType,
            (case jget resourceJson ''amount'' JNull of
               Some (JObject kvs) \<Rightarrow> Option.bind (jget (JObject kvs) ''total'' (JInt 0)) asInt64
             | Some _ \<Rightarrow> Some 0
             | None \<Rightarrow> None)) of
        (Some orderNo, Some channelTxnId, Some tradeStatus, Some amountTotal) \<Rightarrow>
          Some \<lparr>ev_channel = ''wechat'', ev_orderNo = orderNo, ev_channelTxnId = channelTxnId,
            ev_tradeStatus = tradeStatus, ev_paid = (eventType = ''TRANSACTION.SUCCESS''), ev_amountTotal = amountTotal,
            ev_rawPayload = (if plaintext = [] then bodyText else plaintext),
            ev_payload = jset ''event_type'' (JString eventType) (if isNull resourceJson then bodyJson else resourceJson)\<rparr>
      | _ \<Rightarrow> None)"

definition readNotification :: "wechat_sys \<Rightarrow> wechat \<Rightarrow> nat \<Rightarrow> string \<Rightarrow> (string + callback_event) option" where
  "readNotification W c now bodyText =
     (case wx_parseJson W bodyText of
        (False, _) \<Rightarrow> Some (Inl (''invalid JSON body: '' @ wx_parseErrors W bodyText))
      | (True, bodyJson) \<Rightarrow>
          (case jstr bodyJson ''event_type'' [] of
             None \<Rightarrow> None
           | Some eventType \<Rightarrow>
               (case jget bodyJson ''resource'' JNull of
                  Some (JObject kvs) \<Rightarrow>
                    (case (jstr (JObject kvs) ''ciphertext'' [], jstr (JObject kvs) ''nonce'' [],
                           jstr (JObject kvs) ''associated_data'' []) of
                       (Some ciphertext, Some nonce, Some associatedData) \<Rightarrow>
                         (case wechatDecryptResource W c now ciphertext nonce associatedData of
                            Inl decryptErr \<Rightarrow> Some (Inl (''resource decrypt failed: '' @ decryptErr))
                          | Inr plaintext \<Rightarrow>
                              (case wx_parseJson W plaintext of
                                 (False, _) \<Rightarrow>
                                   Some (Inl (''decrypted resource is not valid JSON: '' @ wx_parseErrors W plaintext))
                               | (True, resourceJson) \<Rightarrow>
                                   map_option Inr (eventOf bodyText eventType bodyJson plaintext resourceJson)))
                     | _ \<Rightarrow> None)
                | Some _ \<Rightarrow> Some (Inl ''notification body has no resource object'')
                | None \<Rightarrow> None)))"

definition wechatVerifyNotification ::
  "wechat_sys \<Rightarrow> wechat \<Rightarrow> nat \<Rightarrow> http_request \<Rightarrow> wechat_state \<Rightarrow> (string + callback_event) option \<times> wechat_state" where
  "wechatVerifyNotification W c now rq st =
     (let signature = hq_header rq ''Wechatpay-Signature''; timestamp = hq_header rq ''Wechatpay-Timestamp'';
          nonce = hq_header rq ''Wechatpay-Nonce''; serialNo = hq_header rq ''Wechatpay-Serial''
      in if signature = [] \<or> timestamp = [] \<or> nonce = []
         then (Some (Inl ''missing Wechatpay-Signature/Timestamp/Nonce headers''), st)
         else
           (case wechatVerifyCallback W c now timestamp nonce (hq_body rq) signature serialNo st of
              (Some error, st1) \<Rightarrow> (Some (Inl error), st1)
            | (None, st1) \<Rightarrow> (readNotification W c now (hq_body rq), st1)))"

text \<open>\<open>onStart\<close>: a download whose callback only logs.\<close>

definition onStart :: "wechat_sys \<Rightarrow> wechat \<Rightarrow> nat \<Rightarrow> wechat_state \<Rightarrow> wechat_state" where
  "onStart W c now st = snd (downloadCertificates W c now st)"

section \<open>The cache of certificates\<close>

text \<open>
  The interface the rest of the client relies on: a lookup by serial in any spelling and an
  installation that may refuse. What is found was installed, under a serial it is good for.
\<close>

locale cert_cache =
  fixes lookup :: "string \<Rightarrow> 's \<Rightarrow> string"
    and install :: "'t \<Rightarrow> string \<Rightarrow> string \<Rightarrow> 's \<Rightarrow> bool \<times> 's"
    and canon :: "string \<Rightarrow> string"
    and good :: "string \<Rightarrow> string \<Rightarrow> bool"
  assumes refused: "install now s x st = (False, st') \<Longrightarrow> st' = st"
    and accepted: "install now s x st = (True, st') \<Longrightarrow>
      good (canon s) x \<and> lookup s' st' = (if canon s' = canon s then x else lookup s' st)"
begin

lemma install_found:
  "install now s x st = (True, st') \<Longrightarrow> canon s' = canon s \<Longrightarrow> lookup s' st' = x"
  using accepted by simp

lemma install_other:
  "canon s' \<noteq> canon s \<Longrightarrow> lookup s' (snd (install now s x st)) = lookup s' st"
proof (cases "install now s x st")
  case (Pair ok st')
  assume "canon s' \<noteq> canon s"
  with Pair refused [of now s x st st'] accepted [of now s x st st' s'] show ?thesis by (cases ok) auto
qed

lemma install_keeps_good:
  assumes "\<forall>s. lookup s st \<noteq> [] \<longrightarrow> good (canon s) (lookup s st)"
  shows "\<forall>s. lookup s (snd (install now s' x st)) \<noteq> [] \<longrightarrow> good (canon s) (lookup s (snd (install now s' x st)))"
proof (cases "install now s' x st")
  case (Pair ok st')
  then show ?thesis
  proof (cases ok)
    case True
    with Pair accepted [of now s' x st st'] show ?thesis using assms by (auto split: if_splits)
  next
    case False
    with Pair refused [of now s' x st st'] assms show ?thesis by simp
  qed
qed

end

text \<open>What a certificate has shown when it was installed, or shows now.\<close>

definition carries :: "wechat_sys \<Rightarrow> string \<Rightarrow> string \<Rightarrow> bool" where
  "carries W serial content \<longleftrightarrow> (\<exists>cert. wx_pemX509 W content = Some cert \<and> serialHexOf cert = serial)"

definition vetted :: "wechat_sys \<Rightarrow> wechat \<Rightarrow> string \<Rightarrow> string \<Rightarrow> bool" where
  "vetted W c serial content \<longleftrightarrow>
     carries W serial content \<and>
     (\<exists>now cert. parseCert W now content = Some cert \<and> isWithinValidity W now cert = None \<and>
        chainsToConfiguredAnchors W now content (wc_platformCaCertPath c) = None)"

lemma parseCert_pem: "parseCert W now content = Some cert \<Longrightarrow> wx_pemX509 W content = Some cert \<and> content \<noteq> []"
  by (auto simp: parseCert_def split: if_splits)

lemma setPlatformCert_True:
  assumes "setPlatformCert W c now s x st = (True, st')"
  shows "x \<noteq> [] \<and> vetted W c (normalizeSerialHex s) x \<and>
     st' = st\<lparr>ws_platformCerts := (ws_platformCerts st)(normalizeSerialHex s \<mapsto> x)\<rparr>"
proof -
  from assms obtain cert where c: "parseCert W now x = Some cert" "isWithinValidity W now cert = None"
    "serialHexOf cert = normalizeSerialHex s"
    "chainsToConfiguredAnchors W now x (wc_platformCaCertPath c) = None"
    "st' = st\<lparr>ws_platformCerts := (ws_platformCerts st)(normalizeSerialHex s \<mapsto> x)\<rparr>"
    by (auto simp: setPlatformCert_def Let_def split: if_splits option.splits)
  with parseCert_pem [OF c(1)] show ?thesis unfolding vetted_def carries_def by blast
qed

lemma setPlatformCert_False: "setPlatformCert W c now s x st = (False, st') \<Longrightarrow> st' = st"
  by (auto simp: setPlatformCert_def Let_def split: if_splits option.splits)

interpretation certs: cert_cache getPlatformCert "setPlatformCert W c" normalizeSerialHex "vetted W c" for W c
proof
  fix now s x st st' s'
  assume "setPlatformCert W c now s x st = (True, st')"
  from setPlatformCert_True [OF this]
  show "vetted W c (normalizeSerialHex s) x \<and>
    getPlatformCert s' st' = (if normalizeSerialHex s' = normalizeSerialHex s then x else getPlatformCert s' st)"
    by (simp add: getPlatformCert_def)
qed (rule setPlatformCert_False)

section \<open>Runs of the client\<close>

inductive client_step :: "wechat_sys \<Rightarrow> wechat \<Rightarrow> wechat_state \<Rightarrow> wechat_state \<Rightarrow> bool" for W c where
  refresh: "client_step W c st (snd (downloadCertificates W c now st))"
| install: "client_step W c st (snd (setPlatformCert W c now serialNo content st))"
| certificates: "client_step W c st (snd (receiveCertificates W c now rq result st))"
| answer: "client_step W c st (snd (receiveAnswer W c now rq result st))"
| callback: "client_step W c st (snd (wechatVerifyCallback W c now timestamp nonce bodyText signature serialNo st))"
| notification: "client_step W c st (snd (wechatVerifyNotification W c now req st))"

definition client_reaches :: "wechat_sys \<Rightarrow> wechat \<Rightarrow> wechat_state \<Rightarrow> bool" where
  "client_reaches W c st \<longleftrightarrow> (client_step W c)\<^sup>*\<^sup>* fresh_state st"

text \<open>Every step is made of downloads and installations.\<close>

inductive basic_step :: "wechat_sys \<Rightarrow> wechat \<Rightarrow> wechat_state \<Rightarrow> wechat_state \<Rightarrow> bool" for W c where
  download: "basic_step W c st (snd (downloadCertificates W c now st))"
| store: "basic_step W c st (snd (setPlatformCert W c now serialNo content st))"

lemma resolve_basic: "(basic_step W c)\<^sup>*\<^sup>* st (snd (resolveTrustedPlatformCert W c now serialNo st))"
  using basic_step.download [of W c st now]
  by (auto simp: resolveTrustedPlatformCert_def Let_def split: sum.split)

lemma verify_basic:
  "(basic_step W c)\<^sup>*\<^sup>* st (snd (wechatVerifyCallback W c now timestamp nonce bodyText signature serialNo st))"
  using resolve_basic [of W c st now serialNo]
  by (auto simp: wechatVerifyCallback_def split: prod.split sum.split)

lemma response_basic: "(basic_step W c)\<^sup>*\<^sup>* st (snd (answerVerifier W c now resp st))"
  using resolve_basic [of W c st now "rs_header resp ''Wechatpay-Serial''"]
  by (auto simp: answerVerifier_def verifyResponse_def Let_def split: prod.split sum.split)

lemma answer_basic: "(basic_step W c)\<^sup>*\<^sup>* st (snd (receiveAnswer W c now rq result st))"
proof (cases result)
  case (Response resp)
  with response_basic [of W c st now resp] show ?thesis
    by (auto simp: receiveAnswer_def split: prod.splits option.splits)
qed (simp_all add: receiveAnswer_def)

lemma installs_basic: "(basic_step W c)\<^sup>*\<^sup>* st (snd (installCertificates W c now nodes n st))"
proof (induction nodes arbitrary: n st)
  case (Cons node nodes)
  have s: "(basic_step W c)\<^sup>*\<^sup>* st (snd (installCertificates W c now nodes m (snd (setPlatformCert W c now s x st))))" for m s x
    by (rule converse_rtranclp_into_rtranclp [OF basic_step.store Cons.IH])
  have "(basic_step W c)\<^sup>*\<^sup>* st (snd (case setPlatformCert W c now s x st of (ok, st1) \<Rightarrow>
      installCertificates W c now nodes (if ok then n + 1 else n) st1))" for s x
    using s [of _ s x] by (cases "setPlatformCert W c now s x st") simp
  with Cons.IH show ?case by (auto split: option.split sum.split)
qed simp

lemma certificates_basic: "(basic_step W c)\<^sup>*\<^sup>* st (snd (onCertificates W c now result err st))"
proof -
  have "(basic_step W c)\<^sup>*\<^sup>* st (snd (case installCertificates W c now nodes 0 st of
       (None, st1) \<Rightarrow> (None, st1) | (Some installed, st1) \<Rightarrow> (Some (result, f installed), st1)))" for nodes f
    using installs_basic [of W c st now nodes 0] by (auto split: prod.splits option.splits)
  then show ?thesis by (auto simp: onCertificates_def split: option.split bool.split json.split)
qed

lemma client_step_basic: "client_step W c st st' \<Longrightarrow> (basic_step W c)\<^sup>*\<^sup>* st st'"
proof (induction rule: client_step.induct)
  case (certificates st now rq result)
  show ?case
  proof (cases "receiveAnswer W c now rq result st")
    case (Pair out st1)
    with answer_basic [of W c st now rq result] have "(basic_step W c)\<^sup>*\<^sup>* st st1" by simp
    then show ?thesis using Pair certificates_basic
      by (auto simp: receiveCertificates_def split: option.split intro: rtranclp_trans)
  qed
next
  case (notification st now req)
  show ?case
    using verify_basic [of W c st now _ _ "hq_body req"]
    by (auto simp: wechatVerifyNotification_def Let_def split: prod.split option.split) (metis snd_conv)+
qed (auto intro: basic_step.intros answer_basic verify_basic)

text \<open>An invariant of the basic steps holds in every reachable state.\<close>

lemma client_invariant:
  assumes "client_reaches W c st" "Q fresh_state" "\<And>st st'. basic_step W c st st' \<Longrightarrow> Q st \<Longrightarrow> Q st'"
  shows "Q st"
proof -
  have b: "Q st'" if "(basic_step W c)\<^sup>*\<^sup>* st st'" "Q st" for st st'
    using that by (induction rule: rtranclp_induct) (auto intro: assms(3))
  from assms(1) have "(client_step W c)\<^sup>*\<^sup>* fresh_state st" by (simp add: client_reaches_def)
  then show ?thesis by (induction rule: rtranclp_induct) (auto intro: assms(2) b client_step_basic)
qed

inductive_cases basic_stepE: "basic_step W c st st'"

lemma download_certs [simp]: "getPlatformCert s (snd (downloadCertificates W c now st)) = getPlatformCert s st"
  by (auto simp: downloadCertificates_def getPlatformCert_def Let_def split: sum.split)

lemma cached_vetted:
  assumes "client_reaches W c st"
  shows "\<forall>s. getPlatformCert s st \<noteq> [] \<longrightarrow> vetted W c (normalizeSerialHex s) (getPlatformCert s st)"
proof (rule client_invariant [OF assms])
  show "\<forall>s. getPlatformCert s fresh_state \<noteq> [] \<longrightarrow> vetted W c (normalizeSerialHex s) (getPlatformCert s fresh_state)"
    by (simp add: getPlatformCert_def fresh_state_def)
next
  fix st st'
  assume "basic_step W c st st'"
    and "\<forall>s. getPlatformCert s st \<noteq> [] \<longrightarrow> vetted W c (normalizeSerialHex s) (getPlatformCert s st)"
  then show "\<forall>s. getPlatformCert s st' \<noteq> [] \<longrightarrow> vetted W c (normalizeSerialHex s) (getPlatformCert s st')"
  proof cases
    case (download now)
    with \<open>\<forall>s. getPlatformCert s st \<noteq> [] \<longrightarrow> vetted W c (normalizeSerialHex s) (getPlatformCert s st)\<close>
    show ?thesis by simp
  next
    case (store now serialNo content)
    with certs.install_keeps_good
      [OF \<open>\<forall>s. getPlatformCert s st \<noteq> [] \<longrightarrow> vetted W c (normalizeSerialHex s) (getPlatformCert s st)\<close>]
    show ?thesis by simp
  qed
qed

section \<open>How often certificates are fetched\<close>

lemma not_throttled:
  assumes "\<not> throttled c a b" "b \<noteq> 0" "0 < wc_certDownloadMinIntervalSeconds c"
  shows "b + wc_certDownloadMinIntervalSeconds c * 1000000000 \<le> a"
proof -
  let ?m = "wc_certDownloadMinIntervalSeconds c"
  from assms have m: "?m \<le> (a - b) sdiv 1000000000" by (simp add: throttled_def)
  have "0 < a - b"
  proof (rule ccontr)
    assume "\<not> 0 < a - b"
    then have "(a - b) sdiv 1000000000 \<le> 0" by (auto simp: signed_divide_int_def sgn_if)
    with m assms(3) show False by simp
  qed
  with m have "?m \<le> (a - b) div 1000000000" by (simp add: signed_divide_int_def)
  then have "?m * 1000000000 \<le> (a - b) div 1000000000 * 1000000000" by simp
  also have "\<dots> \<le> a - b" by simp
  finally show ?thesis by simp
qed

definition spaced :: "int \<Rightarrow> int list \<Rightarrow> bool" where
  "spaced gap stamps \<longleftrightarrow> sorted_wrt (\<lambda>later earlier. earlier + gap \<le> later) stamps"

lemma spaced_Cons:
  assumes "spaced gap stamps" "0 \<le> gap" "stamps \<noteq> [] \<Longrightarrow> hd stamps + gap \<le> s"
  shows "spaced gap (s # stamps)"
proof (cases stamps)
  case (Cons h rest)
  with assms have "h + gap \<le> s" "\<forall>e \<in> set rest. e + gap \<le> h" "spaced gap stamps" by (auto simp: spaced_def)
  with assms(2) Cons show ?thesis by (auto simp: spaced_def)
qed (simp add: spaced_def)

text \<open>The stamp is that of the latest download.\<close>

definition stamped :: "wechat \<Rightarrow> wechat_state \<Rightarrow> bool" where
  "stamped c st \<longleftrightarrow>
     spaced (wc_certDownloadMinIntervalSeconds c * 1000000000) (ws_downloads st) \<and>
     ws_lastCertDownloadAt st = (if ws_downloads st = [] then 0 else hd (ws_downloads st)) \<and>
     (\<forall>s \<in> set (ws_downloads st). 0 < s)"

lemma download_stamped:
  assumes "0 < wc_certDownloadMinIntervalSeconds c" "0 < wx_steadyNs W now" "stamped c st"
  shows "stamped c (snd (downloadCertificates W c now st))"
proof (cases "throttled c (wx_steadyNs W now) (ws_lastCertDownloadAt st)")
  case False
  let ?gap = "wc_certDownloadMinIntervalSeconds c * 1000000000"
  have "hd (ws_downloads st) + ?gap \<le> wx_steadyNs W now" if "ws_downloads st \<noteq> []"
  proof -
    from that assms(3) have "ws_lastCertDownloadAt st = hd (ws_downloads st)" "hd (ws_downloads st) \<noteq> 0"
      using hd_in_set [OF that] by (fastforce simp: stamped_def)+
    with not_throttled [OF False _ assms(1)] show ?thesis by simp
  qed
  then have "spaced ?gap (wx_steadyNs W now # ws_downloads st)"
    using assms by (intro spaced_Cons) (auto simp: stamped_def)
  with assms False show ?thesis by (auto simp: stamped_def downloadCertificates_def Let_def split: sum.split)
qed (use assms in \<open>auto simp: downloadCertificates_def Let_def split: sum.split\<close>)

lemma set_stamped: "stamped c (snd (setPlatformCert W c' now s x st)) = stamped c st"
  by (auto simp: setPlatformCert_def stamped_def Let_def split: option.split)

lemma client_interval: "newWechatPayClient config = Some c \<Longrightarrow> 1 \<le> wc_certDownloadMinIntervalSeconds c"
  by (auto simp: newWechatPayClient_def split: option.splits)

text \<open>
  C7: how often a client asks WeChat for its certificates. Whatever notifications and answers
  with unknown serials reach it, in whatever order its threads read the steady clock, any two
  of its downloads lie at least the configured interval apart, and this interval is never
  less than a second, whatever the configuration says.
\<close>

theorem downloads_spaced:
  assumes "newWechatPayClient config = Some c" "\<forall>now. 0 < wx_steadyNs W now" "client_reaches W c st"
  shows "1 \<le> wc_certDownloadMinIntervalSeconds c \<and>
     sorted_wrt (\<lambda>later earlier. earlier + wc_certDownloadMinIntervalSeconds c * 1000000000 \<le> later) (ws_downloads st)"
proof -
  from client_interval [OF assms(1)] have i: "1 \<le> wc_certDownloadMinIntervalSeconds c" .
  have "stamped c st"
  proof (rule client_invariant [OF assms(3)])
    show "stamped c fresh_state" by (simp add: stamped_def fresh_state_def spaced_def)
    fix st st' assume "basic_step W c st st'" "stamped c st"
    then show "stamped c st'"
      by (elim basic_stepE) (use i assms(2) in \<open>auto simp: set_stamped intro: download_stamped\<close>)
  qed
  with i show ?thesis by (simp add: stamped_def spaced_def)
qed

section \<open>What a verified text rests on\<close>

text \<open>
  A certificate of the serial, from the cache or the configured file, that is valid at the
  moment and whose key verifies the signature of the message.
\<close>

definition vouched :: "wechat_sys \<Rightarrow> wechat \<Rightarrow> nat \<Rightarrow> string \<Rightarrow> string \<Rightarrow> string \<Rightarrow> bool" where
  "vouched W c now serialNo message signature \<longleftrightarrow>
     (\<exists>content cert key.
        (vetted W c (normalizeSerialHex serialNo) content \<or>
         wc_platformCertPath c \<noteq> [] \<and> wx_readFile W (wc_platformCertPath c) = Some content) \<and>
        wx_pemX509 W content = Some cert \<and> serialHexOf cert = normalizeSerialHex serialNo \<and>
        isWithinValidity W now cert = None \<and> x5_pubkey cert = Some key \<and>
        wx_rsaVerify W key message (wx_base64Decode W signature))"

lemma isWithinValidity_None:
  "isWithinValidity W now cert = None \<longleftrightarrow>
     (\<exists>b a. x5_notBefore cert = Some b \<and> x5_notAfter cert = Some a \<and> b \<le> wx_time W now \<and> wx_time W now < a)"
  by (auto simp: isWithinValidity_def cmp_current_time_def split: option.splits if_splits)

lemma verifyMessage_None:
  assumes "verifyMessageWithCert W now message signature content = None"
  shows "\<exists>cert key. parseCert W now content = Some cert \<and> isWithinValidity W now cert = None \<and>
     x5_pubkey cert = Some key \<and> wx_rsaVerify W key message (wx_base64Decode W signature)"
  using assms by (auto simp: verifyMessageWithCert_def Let_def split: if_splits option.splits)

lemma resolve_Inr:
  assumes "resolveTrustedPlatformCert W c now serialNo st = (Inr content, st')"
  shows "content \<noteq> [] \<and> st' = st \<and>
     (getPlatformCert serialNo st = content \<or>
      wc_platformCertPath c \<noteq> [] \<and> wx_readFile W (wc_platformCertPath c) = Some content \<and>
      certificateSerialHex W now content = normalizeSerialHex serialNo)"
  using assms
  by (auto simp: resolveTrustedPlatformCert_def readFile_def Let_def split: if_splits sum.splits option.splits)

lemma normalize_not_Nil: "normalizeSerialHex s \<noteq> []"
  by (auto simp: normalizeSerialHex_def Let_def dest!: index_of_Some split: option.split)

lemma resolved_vouches:
  assumes r: "client_reaches W c st" "resolveTrustedPlatformCert W c now serialNo st = (Inr content, st')"
    and v: "verifyMessageWithCert W now message signature content = None"
  shows "vouched W c now serialNo message signature"
proof -
  obtain cert key where c: "parseCert W now content = Some cert" "isWithinValidity W now cert = None"
    "x5_pubkey cert = Some key" "wx_rsaVerify W key message (wx_base64Decode W signature)"
    using verifyMessage_None [OF v] by blast
  have p: "wx_pemX509 W content = Some cert" using parseCert_pem [OF c(1)] by simp
  from resolve_Inr [OF r(2)] consider
      (cached) "getPlatformCert serialNo st = content" "content \<noteq> []"
    | (static) "wc_platformCertPath c \<noteq> []" "wx_readFile W (wc_platformCertPath c) = Some content"
        "certificateSerialHex W now content = normalizeSerialHex serialNo" by blast
  then show ?thesis
  proof cases
    case cached
    with cached_vetted [OF r(1)] have "vetted W c (normalizeSerialHex serialNo) content" by blast
    moreover from this p have "serialHexOf cert = normalizeSerialHex serialNo" by (auto simp: vetted_def carries_def)
    ultimately show ?thesis using c p by (auto simp: vouched_def)
  next
    case static
    with c p show ?thesis by (auto simp: vouched_def certificateSerialHex_def)
  qed
qed

lemma callback_vouched:
  assumes "client_reaches W c st"
    and "fst (wechatVerifyCallback W c now timestamp nonce bodyText signature serialNo st) = None"
  shows "vouched W c now serialNo (signedBody timestamp nonce bodyText) signature"
  using assms by (auto simp: wechatVerifyCallback_def split: prod.splits sum.splits intro: resolved_vouches)

definition responseVouched :: "wechat_sys \<Rightarrow> wechat \<Rightarrow> nat \<Rightarrow> wechat_response \<Rightarrow> bool" where
  "responseVouched W c now resp \<longleftrightarrow>
     vouched W c now (rs_header resp ''Wechatpay-Serial'')
       (signedBody (rs_header resp ''Wechatpay-Timestamp'') (rs_header resp ''Wechatpay-Nonce'') (rs_body resp))
       (rs_header resp ''Wechatpay-Signature'')"

lemma response_vouched:
  assumes "client_reaches W c st" "fst (answerVerifier W c now resp st) = None"
  shows "responseVouched W c now resp"
  using assms unfolding responseVouched_def
  by (auto simp: answerVerifier_def verifyResponse_def Let_def split: prod.splits sum.splits if_splits
      intro: resolved_vouches)

text \<open>Every method of the channel reports a refusal of its own, throws, or sends a request to be verified.\<close>

definition guarded_send :: "sent \<Rightarrow> bool" where
  "guarded_send out \<longleftrightarrow>
     (case out of Raised \<Rightarrow> True | Called result error \<Rightarrow> result = JNull \<and> error \<noteq> [] | Sent rq \<Rightarrow> wq_verified rq)"

lemma sign_error_not_Nil: "signMessage W now m p = Inl e \<Longrightarrow> e \<noteq> []"
  by (auto simp: signMessage_def readFile_def split: if_splits option.splits)

lemma signAndSend_guarded: "guarded_send (signAndSend W c now verb path bodyText)"
  by (auto simp: signAndSend_def sendWechatRequest_def buildAuthorizationHeader_def guarded_send_def
      split: sum.split dest: sign_error_not_Nil)

lemma methods_guarded:
  "guarded_send (createTransactionNative W c now payload)" "guarded_send (queryTransaction W c now no)"
  "guarded_send (closeTransaction W c now no)" "guarded_send (wechatRefund W c now payload)"
  "guarded_send (wechatQueryRefund W c now no)"
proof -
  have r: "guarded_send Raised" "e \<noteq> [] \<Longrightarrow> guarded_send (Called JNull e)" for e by (simp_all add: guarded_send_def)
  show "guarded_send (createTransactionNative W c now payload)"
    using signAndSend_guarded r by (simp add: createTransactionNative_def split: option.split)
  show "guarded_send (wechatRefund W c now payload)"
    using signAndSend_guarded r by (simp add: wechatRefund_def split: option.split)
qed (use signAndSend_guarded in \<open>simp_all add: queryTransaction_def closeTransaction_def wechatQueryRefund_def guarded_send_def\<close>)

lemma exchange_vouched:
  assumes "\<forall>now. client_reaches W c (history now)" "guarded_send out"
    and "exchange W c history now out = Some (result, error)" "result \<noteq> JNull \<or> error = []"
  shows "\<exists>rq later resp. out = Sent rq \<and> wx_http W now rq = Some (later, Response resp) \<and>
     responseVouched W c later resp \<and> readVerified W resp = Some (result, error)"
proof -
  from assms(2-4) obtain rq later r where rq: "out = Sent rq" "wq_verified rq" "wx_http W now rq = Some (later, r)"
    "fst (receiveAnswer W c later rq r (history later)) = Some (result, error)"
    by (auto simp: exchange_def guarded_send_def split: sent.splits option.splits)
  from rq(2,4) assms(4) obtain resp where resp: "r = Response resp"
    "fst (answerVerifier W c later resp (history later)) = None" "readVerified W resp = Some (result, error)"
    by (auto simp: receiveAnswer_def split: wechat_result.splits prod.splits option.splits)
  with response_vouched [OF _ resp(2)] assms(1) rq show ?thesis by auto
qed

text \<open>
  C12: what the WeChat channel hands to the services. No method of the channel reports success
  or passes on a body, not even that of an error, unless an HTTP response came whose headers
  carry a signature over exactly its body that verifies with the key of a certificate valid
  at that moment: one of the serial the response names, which either was vetted when it was
  cached or lies in the configured file.
\<close>

theorem channel_answers_vouched:
  assumes "\<forall>now. client_reaches W c (history now)" "ch = wechatChannel W c history"
    and "Some (result, error) \<in> {ch_createQRPayment ch now payload, ch_queryPayment ch now no, ch_closeOrder ch now no,
           ch_refund ch now payload, ch_queryRefund ch now no}"
    and "result \<noteq> JNull \<or> error = []"
  shows "\<exists>rq later resp. wx_http W now rq = Some (later, Response resp) \<and> responseVouched W c later resp \<and>
     readVerified W resp = Some (result, error)"
proof -
  let ?calls = "{createTransactionNative W c now payload, queryTransaction W c now no, closeTransaction W c now no,
    wechatRefund W c now payload, wechatQueryRefund W c now no}"
  from assms(2,3) have "Some (result, error) \<in> exchange W c history now ` ?calls" by (simp add: wechatChannel_def)
  then obtain out where o: "Some (result, error) = exchange W c history now out" "out \<in> ?calls" by (rule imageE)
  from o(2) have "guarded_send out" by (elim insertE emptyE) (simp_all only: methods_guarded)
  from exchange_vouched [OF assms(1) this o(1) [symmetric] assms(4)] show ?thesis by blast
qed

text \<open>
  C18: from the wire to the books. A notification on the WeChat route changes the books only
  if its body is signed, with its time stamp and nonce, by the key of a certificate that
  carries the serial its headers name, is valid now, and was vetted when it was cached or
  lies in the configured file.
\<close>

theorem notified_books_vouched:
  assumes "client_reaches W c st" "ap_callbackService A = Some (C, S)"
    and "wechatClient C = Some (wechatAt W c now st)"
    and "snd (wechatNotify e A rq w) \<noteq> w"
  shows "vouched W c now (hq_header rq ''Wechatpay-Serial'')
     (signedBody (hq_header rq ''Wechatpay-Timestamp'') (hq_header rq ''Wechatpay-Nonce'') (hq_body rq))
     (hq_header rq ''Wechatpay-Signature'')"
proof -
  from route_signed [OF assms(4)] assms(2) have "verifySignature C (deliveryOf rq)" by auto
  then show ?thesis
    using callback_vouched [OF assms(1)] assms(3) by (simp add: verifySignature_def deliveryOf_def wechatAt_def)
qed

section \<open>Serial numbers\<close>

text \<open>
  OpenSSL prints a serial number of 128 bits or more in hexadecimal after \<open>0x\<close>; the serial
  numbers of WeChat's platform certificates have 160 bits. The leading zero is dropped as padding and
  the \<open>x\<close> stays.
\<close>

lemma to_upper_x: "to_upper (CHR ''x'') = CHR ''X''" "to_upper (CHR ''0'') = CHR ''0''"
  by code_simp+

lemma normalize_prefixed: "normalizeSerialHex (''0x'' @ h) = CHR ''X'' # map to_upper h"
  by (simp add: normalizeSerialHex_def to_upper_x)

lemma to_upper_hex: "isHexDigit ch \<Longrightarrow> to_upper ch \<noteq> CHR ''X''"
proof
  assume a: "isHexDigit ch" "to_upper ch = CHR ''X''"
  from a(2) have "byte (to_upper ch) = 88" by simp
  moreover have "byte ch < 256" by simp
  ultimately show False using a(1)
    by (auto simp: to_upper_def isHexDigit_def is_lower_def in_range_def is_digit_def split: if_splits)
qed

lemma normalize_hex: "list_all isHexDigit s \<Longrightarrow> CHR ''X'' \<notin> set (normalizeSerialHex s)"
  by (auto simp: normalizeSerialHex_def Let_def list_all_iff split: option.split dest!: in_set_dropD)
    (metis to_upper_hex)

lemma prefixed_serial_differs:
  "list_all isHexDigit s \<Longrightarrow> x5_serialText cert = Some (''0x'' @ h) \<Longrightarrow> serialHexOf cert \<noteq> normalizeSerialHex s"
  using normalize_hex [of s] normalize_prefixed [of h] by (metis list.set_intros(1) option.simps(5) serialHexOf_def)

definition long_serials :: "wechat_sys \<Rightarrow> bool" where
  "long_serials W \<longleftrightarrow> (\<forall>content cert. wx_pemX509 W content = Some cert \<longrightarrow> (\<exists>h. x5_serialText cert = Some (''0x'' @ h)))"

lemma long_not_vouched:
  assumes "long_serials W" "list_all isHexDigit serialNo"
  shows "\<not> vouched W c now serialNo message signature"
  using assms prefixed_serial_differs [OF assms(2)] unfolding vouched_def long_serials_def by blast

text \<open>
  C36: the serial numbers of real platform certificates. If every certificate has a serial
  number that OpenSSL prints after \<open>0x\<close>, then, whatever the client downloaded and whichever
  certificate file is configured, it installs no certificate under a serial written in
  hexadecimal digits, and it refuses every notification and every answer that names such a
  serial.
\<close>

theorem long_serials_never_verify:
  assumes "client_reaches W c st" "long_serials W" "list_all isHexDigit serialNo"
  shows "setPlatformCert W c now serialNo content st = (False, st) \<and>
     fst (wechatVerifyCallback W c now timestamp nonce bodyText signature serialNo st) \<noteq> None \<and>
     (rs_header resp ''Wechatpay-Serial'' = serialNo \<longrightarrow> fst (answerVerifier W c now resp st) \<noteq> None)"
proof (intro conjI impI notI)
  show "setPlatformCert W c now serialNo content st = (False, st)"
  proof (cases "setPlatformCert W c now serialNo content st")
    case (Pair ok st')
    have "\<not> ok"
    proof
      assume ok
      with Pair have "setPlatformCert W c now serialNo content st = (True, st')" by simp
      from setPlatformCert_True [OF this] have "vetted W c (normalizeSerialHex serialNo) content" by blast
      then show False using assms(2) prefixed_serial_differs [OF assms(3)]
        unfolding vetted_def carries_def long_serials_def by blast
    qed
    with Pair setPlatformCert_False [of W c now serialNo content st st'] show ?thesis by simp
  qed
next
  assume "fst (wechatVerifyCallback W c now timestamp nonce bodyText signature serialNo st) = None"
  from callback_vouched [OF assms(1) this] long_not_vouched [OF assms(2,3)] show False by blast
next
  assume "rs_header resp ''Wechatpay-Serial'' = serialNo" "fst (answerVerifier W c now resp st) = None"
  with response_vouched [OF assms(1)] long_not_vouched [OF assms(2,3)] show False
    unfolding responseVouched_def by blast
qed

section \<open>A sample client\<close>

definition sample_cert :: x509 where
  "sample_cert = \<lparr>x5_notBefore = Some 0, x5_notAfter = Some 100, x5_serialText = Some ''01f'', x5_pubkey = Some ''k'',
     x5_encoding = ''der''\<rparr>"

definition sample_answer :: wechat_response where
  "sample_answer = \<lparr>rs_status = 200, rs_header = \<lambda>k. if k = ''Wechatpay-Serial'' then ''1F''
      else if k = ''Wechatpay-Signature'' then ''sig'' else ''x'', rs_body = ''answer'', rs_json = None\<rparr>"

definition sample_wx :: wechat_sys where
  "sample_wx = \<lparr>wx_fails = \<lambda>_ _. False, wx_readFile = \<lambda>p. if p = ''key'' then Some ''pem'' else None,
     wx_pemX509 = \<lambda>x. if x = ''cert'' then Some sample_cert else None, wx_pemBundle = \<lambda>_. [],
     wx_pemPrivateKey = \<lambda>k. Some k, wx_storeAccepts = \<lambda>_. True, wx_verifyChain = \<lambda>_ _ _. None,
     wx_rsaSign = \<lambda>_ _. ''s'', wx_rsaVerify = \<lambda>key _ s. key = ''k'' \<and> s = ''sig'',
     wx_gcmOpen = \<lambda>_ _ _ _ _. Some ''plain'', wx_base64Encode = \<lambda>s. s, wx_base64Decode = \<lambda>s. s,
     wx_toJsonString = \<lambda>_. ''{}'', wx_parseJson = \<lambda>_. (True, JObject []), wx_parseErrors = \<lambda>_. [],
     wx_time = \<lambda>_. 50, wx_steadyNs = \<lambda>n. 1000000000 * int n + 1, wx_getUuid = \<lambda>_. ''u'',
     wx_http = \<lambda>now _. Some (now + 1, Response sample_answer), wx_alive = \<lambda>_. True\<rparr>"

definition wechat_config :: json where
  "wechat_config = jobject [(''app_id'', JString ''app''), (''mch_id'', JString ''mch''), (''serial_no'', JString ''7''),
     (''api_v3_key'', JString (replicate 32 (CHR ''k''))), (''private_key_path'', JString ''key''),
     (''cert_download_min_interval_seconds'', JInt (- 5))]"

definition sample_wechat_client :: wechat where
  "sample_wechat_client = \<lparr>wc_appId = ''app'', wc_mchId = ''mch'', wc_serialNo = ''7'',
     wc_apiV3Key = replicate 32 (CHR ''k''), wc_privateKeyPath = ''key'', wc_platformCertPath = [],
     wc_platformCaCertPath = [], wc_apiBase = ''https://api.mch.weixin.qq.com'', wc_notifyUrl = [],
     wc_certDownloadMinIntervalSeconds = 1, wc_timeoutMs = 5000\<rparr>"

definition loaded_state :: wechat_state where
  "loaded_state = snd (setPlatformCert sample_wx sample_wechat_client 0 ''1F'' ''cert'' fresh_state)"

lemma sample_built: "newWechatPayClient wechat_config = Some sample_wechat_client"
  by code_simp

lemma loaded_reached: "client_reaches W c (snd (setPlatformCert W c now s x fresh_state))"
  by (simp add: client_reaches_def client_step.install r_into_rtranclp)

theorem downloads_spaced_witness:
  "(\<exists>st. client_reaches sample_wx sample_wechat_client st \<and> length (ws_downloads st) = 2 \<and>
     sorted_wrt (\<lambda>later earlier. earlier + 1000000000 \<le> later) (ws_downloads st))"
proof -
  let ?d = "downloadCertificates sample_wx sample_wechat_client"
  let ?st = "snd (?d 9 (snd (?d 1 fresh_state)))"
  have r: "client_reaches sample_wx sample_wechat_client ?st" unfolding client_reaches_def
    by (rule rtranclp.rtrancl_into_rtrancl [OF r_into_rtranclp]) (rule client_step.refresh)+
  moreover have "length (ws_downloads ?st) = 2" by code_simp
  moreover have "\<forall>now. 0 < wx_steadyNs sample_wx now" by (simp add: sample_wx_def add_nonneg_pos)
  from downloads_spaced [OF sample_built this r]
  have "sorted_wrt (\<lambda>later earlier. earlier + 1000000000 \<le> later) (ws_downloads ?st)"
    by (simp add: sample_wechat_client_def)
  ultimately show ?thesis by blast
qed

theorem channel_answers_vouched_witness:
  "ch_queryPayment (wechatChannel sample_wx sample_wechat_client (\<lambda>_. loaded_state)) 3 ''ORD-000001'' = Some (JObject [], []) \<and>
   (\<exists>rq later resp. wx_http sample_wx 3 rq = Some (later, Response resp) \<and>
      responseVouched sample_wx sample_wechat_client later resp \<and> readVerified sample_wx resp = Some (JObject [], []))"
proof -
  let ?h = "\<lambda>_ :: nat. loaded_state"
  let ?ch = "wechatChannel sample_wx sample_wechat_client ?h"
  have q: "ch_queryPayment ?ch 3 ''ORD-000001'' = Some (JObject [], [])" by code_simp
  have "\<forall>now. client_reaches sample_wx sample_wechat_client (?h now)"
    by (simp add: loaded_state_def loaded_reached)
  from channel_answers_vouched [OF this refl, of "JObject []" "[]" 3 JNull "''ORD-000001''"] q show ?thesis by simp
qed

definition long_wx :: wechat_sys where
  "long_wx = sample_wx\<lparr>wx_pemX509 := \<lambda>x. if x = ''cert'' then Some (sample_cert\<lparr>x5_serialText := Some ''0x5157F09EFD''\<rparr>) else None\<rparr>"

theorem long_serials_never_verify_witness:
  "setPlatformCert long_wx sample_wechat_client 0 ''5157F09EFD'' ''cert'' fresh_state = (False, fresh_state) \<and>
   fst (wechatVerifyCallback long_wx sample_wechat_client 0 ''12'' ''x'' ''body'' ''sig'' ''5157F09EFD'' fresh_state) \<noteq> None \<and>
   (rs_header (sample_answer\<lparr>rs_header := \<lambda>_. ''5157F09EFD''\<rparr>) ''Wechatpay-Serial'' = ''5157F09EFD'' \<and>
    fst (answerVerifier long_wx sample_wechat_client 0 (sample_answer\<lparr>rs_header := \<lambda>_. ''5157F09EFD''\<rparr>) fresh_state) \<noteq> None)"
proof -
  have r: "client_reaches long_wx sample_wechat_client fresh_state" by (simp add: client_reaches_def)
  have l: "long_serials long_wx" by (auto simp: long_serials_def long_wx_def)
  have h: "list_all isHexDigit ''5157F09EFD''" by code_simp
  show ?thesis
    using long_serials_never_verify [OF r l h, of 0 "''cert''" "''12''" "''x''" "''body''" "''sig''"
        "sample_answer\<lparr>rs_header := \<lambda>_. ''5157F09EFD''\<rparr>"] by simp
qed

definition wechat_envelope :: json where
  "wechat_envelope =
     jobject [(''event_type'', JString ''TRANSACTION.SUCCESS''), (''id'', JString ''N1''),
       (''resource_type'', JString ''encrypt-resource''),
       (''resource'', jobject [(''algorithm'', JString ''AEAD_AES_256_GCM''),
          (''ciphertext'', JString ''0123456789abcdefgh''), (''nonce'', JString ''0123456789ab''),
          (''associated_data'', JString ''transaction'')])]"

definition wechat_app :: app where
  "wechat_app = notice_app\<lparr>ap_callbackService :=
       Some (sample_callbacks\<lparr>wechatClient := Some (wechatAt sample_wx sample_wechat_client 0 loaded_state)\<rparr>,
             notify_sys wechat_envelope (trade ''SUCCESS'')),
     ap_parseJson := parseJson (notify_sys wechat_envelope (trade ''SUCCESS''))\<rparr>"

definition signed_post :: http_request where
  "signed_post = wechat_post\<lparr>hq_header := \<lambda>k. if k = ''Wechatpay-Serial'' then ''001f'' else hq_header wechat_post k\<rparr>"

theorem notified_books_vouched_witness:
  "snd (wechatNotify calm wechat_app signed_post (fresh paying_tables)) \<noteq> fresh paying_tables \<and>
   vouched sample_wx sample_wechat_client 0 ''001f'' (signedBody ''12'' ''x'' ''body'') ''sig''"
proof -
  have "map p_status (t_payments (tabs (snd (wechatNotify calm wechat_app signed_post (fresh paying_tables))))) = [''SUCCESS'']"
    "map p_status (t_payments (tabs (fresh paying_tables))) = [''PROCESSING'']" by code_simp+
  then have c: "snd (wechatNotify calm wechat_app signed_post (fresh paying_tables)) \<noteq> fresh paying_tables" by auto
  have r: "client_reaches sample_wx sample_wechat_client loaded_state"
    by (simp add: loaded_state_def loaded_reached)
  have a: "ap_callbackService wechat_app =
      Some (sample_callbacks\<lparr>wechatClient := Some (wechatAt sample_wx sample_wechat_client 0 loaded_state)\<rparr>,
        notify_sys wechat_envelope (trade ''SUCCESS''))" by (simp add: wechat_app_def)
  have h: "hq_header signed_post ''Wechatpay-Serial'' = ''001f''" "hq_header signed_post ''Wechatpay-Timestamp'' = ''12''"
    "hq_header signed_post ''Wechatpay-Nonce'' = ''x''" "hq_header signed_post ''Wechatpay-Signature'' = ''sig''"
    "hq_body signed_post = ''body''" by code_simp+
  from notified_books_vouched [OF r a _ c, of 0] c show ?thesis by (simp add: h)
qed

end
