(* ===== verification/Pay_Plugin.thy ===== *)
theory Pay_Plugin
  imports Pay_Wechat Pay_Reconcile Pay_Registry
begin

text \<open>
  \<open>PayPlugin.cc\<close>: the assembly of channels, services, timers and routes from the
  configuration, the shutdown, and the plugin as the process the handlers run in.

  The plugin is a record of what it owns. \<open>initAndStart\<close> returns how it ended and the plugin
  as it left it, also when an exception leaves it half way. The host framework (named
  database and Redis clients, the factories of the host's own channels, timer ids, the
  matching of a path against a route) is a parameter.
\<close>

section \<open>Channels\<close>

text \<open>A channel object: one of the two built-in classes or one of the host's.\<close>

datatype pay_channel =
    WechatClient wechat
  | AlipayClient alipay_client
  | HostChannel channel bool

text \<open>
  A factory throws (\<open>None\<close>) or gives a channel or a null pointer. \<open>history\<close> is the state of
  the WeChat client over time.
\<close>

record host =
  ho_dbClient :: "string \<Rightarrow> bool"
  ho_redisClient :: "string \<Rightarrow> bool"
  ho_factories :: "(string \<times> (json \<Rightarrow> pay_channel option option)) list"
  ho_wechat :: wechat_sys
  ho_history :: "nat \<Rightarrow> wechat_state"
  ho_alipay :: alipay_sys
  ho_reconcileTimer :: nat
  ho_certTimer :: nat
  ho_matches :: "string \<Rightarrow> string \<Rightarrow> bool"

definition channelView :: "host \<Rightarrow> pay_channel \<Rightarrow> channel \<times> bool" where
  "channelView H pc =
     (case pc of
        WechatClient c \<Rightarrow> (wechatChannel (ho_wechat H) c (ho_history H), wechatConfigured c)
      | AlipayClient c \<Rightarrow> (alipayChannel (ho_alipay H) c, alipayConfigured c)
      | HostChannel ch configured \<Rightarrow> (ch, configured))"

text \<open>\<open>cfg.isObject() && cfg.get("enabled", true).asBool()\<close>; \<open>None\<close>: \<open>asBool\<close> throws.\<close>

definition enabledBlock :: "json \<Rightarrow> bool option" where
  "enabledBlock cfg = (if isObject cfg then Option.bind (jget cfg ''enabled'' (JBool True)) asBool else Some False)"

text \<open>The factories a host registers before the plugin starts, kept by name.\<close>

definition registerFactory ::
  "string \<Rightarrow> 'f \<Rightarrow> (string \<times> 'f) list \<Rightarrow> (string \<times> 'f) list" where
  "registerFactory nm factory fs = members_set nm factory fs"

text \<open>
  The steps on the registry give \<open>False\<close> with the registry so far when an exception leaves
  them. The exception of a constructor is caught, and nothing is added.
\<close>

definition addBuiltin ::
  "json \<Rightarrow> string \<Rightarrow> (json \<Rightarrow> pay_channel option) \<Rightarrow> pay_channel registry \<Rightarrow> bool \<times> pay_channel registry" where
  "addBuiltin channelsConfig nm construct r =
     (case enabledBlock (member_of channelsConfig nm) of
        None \<Rightarrow> (False, r)
      | Some False \<Rightarrow> (True, r)
      | Some True \<Rightarrow> (True, registry_add nm (construct (member_of channelsConfig nm)) r))"

definition registerBuiltinChannels :: "host \<Rightarrow> json \<Rightarrow> pay_channel registry \<Rightarrow> bool \<times> pay_channel registry" where
  "registerBuiltinChannels H channelsConfig r =
     (case addBuiltin channelsConfig ''wechat'' (\<lambda>cfg. map_option WechatClient (newWechatPayClient cfg)) r of
        (False, r1) \<Rightarrow> (False, r1)
      | (True, r1) \<Rightarrow>
          addBuiltin channelsConfig ''alipay'' (\<lambda>cfg. map_option AlipayClient (newAlipayClient (ho_alipay H) cfg)) r1)"

fun registerFactories ::
  "json \<Rightarrow> (string \<times> (json \<Rightarrow> pay_channel option option)) list \<Rightarrow> pay_channel registry \<Rightarrow> bool \<times> pay_channel registry" where
  "registerFactories channelsConfig [] r = (True, r)"
| "registerFactories channelsConfig ((nm, factory) # rest) r =
     (case enabledBlock (member_of channelsConfig nm) of
        None \<Rightarrow> (False, r)
      | Some False \<Rightarrow> registerFactories channelsConfig rest r
      | Some True \<Rightarrow>
          if registry_find nm r \<noteq> None then registerFactories channelsConfig rest r
          else
            (case factory (member_of channelsConfig nm) of
               None \<Rightarrow> registerFactories channelsConfig rest r
             | Some built \<Rightarrow> registerFactories channelsConfig rest (registry_add nm built r)))"

definition assembleChannels :: "host \<Rightarrow> json \<Rightarrow> pay_channel registry \<Rightarrow> bool \<times> pay_channel registry" where
  "assembleChannels H channelsConfig r =
     (if \<not> isObject channelsConfig then (True, freeze r)
      else
        (case registerBuiltinChannels H channelsConfig r of
           (False, r1) \<Rightarrow> (False, r1)
         | (True, r1) \<Rightarrow>
             (case registerFactories channelsConfig (ho_factories H) r1 of
                (False, r2) \<Rightarrow> (False, r2)
              | (True, r2) \<Rightarrow> (True, freeze r2))))"

section \<open>Routes\<close>

datatype http_method = Get | Post | Options | OtherMethod

datatype endpoint =
    CreatePayment | CreateQRPayment | QueryOrder | Refund | QueryRefund | QueryOrderList | ReconcileSummary
  | AuthMetrics | AuthMetricsProm | WechatNotice | AlipayNotice

record route =
  rt_path :: string
  rt_endpoint :: endpoint
  rt_methods :: "http_method list"

definition route_to :: "string \<Rightarrow> endpoint \<Rightarrow> http_method list \<Rightarrow> route" where
  "route_to path target methods = \<lparr>rt_path = path, rt_endpoint = target, rt_methods = methods\<rparr>"

definition qrPath :: "string \<Rightarrow> string" where
  "qrPath basePath = (if basePath = ''/api/pay'' then ''/api/qrpay/create'' else basePath @ ''/qrpay/create'')"

definition registerHttpHandlers :: "string \<Rightarrow> route list" where
  "registerHttpHandlers basePath =
     [route_to (basePath @ ''/create'') CreatePayment [Post, Options],
      route_to (qrPath basePath) CreateQRPayment [Post, Options],
      route_to (basePath @ ''/query'') QueryOrder [Get, Options],
      route_to (basePath @ ''/refund'') Refund [Post, Options],
      route_to (basePath @ ''/refund/query'') QueryRefund [Get, Options],
      route_to (basePath @ ''/orders'') QueryOrderList [Get, Options],
      route_to (basePath @ ''/reconcile/summary'') ReconcileSummary [Get, Options],
      route_to (basePath @ ''/metrics/auth'') AuthMetrics [Get, Options],
      route_to (basePath @ ''/metrics/auth.prom'') AuthMetricsProm [Get, Options],
      route_to (basePath @ ''/notify/wechat'') WechatNotice [Post],
      route_to (basePath @ ''/notify/alipay'') AlipayNotice [Post]]"

section \<open>The plugin\<close>

text \<open>
  \<open>services\<close>: the channels the payment and refund services were built with; \<open>callback\<close>: the channel the callback
  service was built with, \<open>Some None\<close> for a null pointer; \<open>certTimer\<close> is the id
  kept, \<open>certTimers\<close> the timers that run, with their interval in seconds; \<open>started\<close> and
  \<open>stopped\<close> the channels whose hooks were called.
\<close>

record plugin =
  pl_registry :: "pay_channel registry"
  pl_hasDb :: bool
  pl_hasRedis :: bool
  pl_basePath :: string
  pl_idempotency :: "int option"
  pl_services :: "(string \<times> pay_channel) list option"
  pl_callback :: "pay_channel option option"
  pl_reconciler :: "reconciler option"
  pl_worker :: bool
  pl_certTimer :: nat
  pl_certTimers :: "(nat \<times> int) list"
  pl_started :: "pay_channel list"
  pl_stopped :: "pay_channel list"
  pl_routes :: "route list"

definition new_plugin :: plugin where
  "new_plugin = \<lparr>pl_registry = new_registry, pl_hasDb = False, pl_hasRedis = False, pl_basePath = ''/api/pay'',
     pl_idempotency = None, pl_services = None, pl_callback = None, pl_reconciler = None, pl_worker = False,
     pl_certTimer = 0, pl_certTimers = [], pl_started = [], pl_stopped = [], pl_routes = []\<rparr>"

datatype init_result = Refused string | ConfigError | NoDatabase | Running

definition kLegacyKeyMigration :: "(string \<times> string) list" where
  "kLegacyKeyMigration = [(''alipay_sandbox'', ''channels.alipay''), (''wechat_pay'', ''channels.wechat'')]"

text \<open>\<open>None\<close>: \<open>isMember\<close> throws; \<open>Some (Some key)\<close>: the key was found.\<close>

fun legacyKey :: "json \<Rightarrow> (string \<times> string) list \<Rightarrow> string option option" where
  "legacyKey config [] = Some None"
| "legacyKey config ((oldKey, newKey) # rest) =
     (case isMember config oldKey of None \<Rightarrow> None | Some True \<Rightarrow> Some (Some oldKey) | Some False \<Rightarrow> legacyKey config rest)"

definition idempotencyTtl :: "json \<Rightarrow> int" where
  "idempotencyTtl config =
     (let v = member_of config ''idempotency_ttl_seconds''
      in if isInt64 v then (case asInt64 v of None \<Rightarrow> 604800 | Some ttl \<Rightarrow> ttl) else 604800)"

text \<open>Steps 3 and 4: the services.\<close>

definition createServices :: "json \<Rightarrow> plugin \<Rightarrow> plugin" where
  "createServices config P =
     P\<lparr>pl_idempotency := Some (idempotencyTtl config), pl_services := Some (channels (pl_registry P)),
       pl_callback := map_option Some (registry_find ''wechat'' (pl_registry P))\<rparr>"

text \<open>Step 5: the worker loop and the sweep.\<close>

definition startReconciliation :: "host \<Rightarrow> json \<Rightarrow> plugin \<Rightarrow> bool \<times> plugin" where
  "startReconciliation H config P =
     (let R = newReconciler (\<lambda>nm. map_option (channelView H) (registry_find nm (pl_registry P))) (pl_hasDb P);
          P1 = P\<lparr>pl_worker := True, pl_reconciler := Some R\<rparr>;
          cfg = member_of config ''reconcile''
      in if \<not> isObject cfg
         then (True, P1\<lparr>pl_reconciler := Some (startReconcileTimer (ho_reconcileTimer H) R)\<rparr>)
         else
           (case (Option.bind (jget cfg ''interval_seconds'' (JInt 0)) asInt,
                  Option.bind (jget cfg ''batch_size'' (JInt 0)) asInt) of
              (Some interval, Some batch) \<Rightarrow>
                let R1 = setReconcileOptions interval batch R
                in (case enabledBlock cfg of
                      None \<Rightarrow> (False, P1\<lparr>pl_reconciler := Some R1\<rparr>)
                    | Some False \<Rightarrow> (True, P1\<lparr>pl_reconciler := Some R1\<rparr>)
                    | Some True \<Rightarrow> (True, P1\<lparr>pl_reconciler := Some (startReconcileTimer (ho_reconcileTimer H) R1)\<rparr>))
            | _ \<Rightarrow> (False, P1)))"

text \<open>Step 6: the hooks and the refresh of the certificates. \<open>None\<close>: an accessor throws.\<close>

definition certRefreshSeconds :: "json \<Rightarrow> int option" where
  "certRefreshSeconds config =
     (case Option.bind (jget config ''channels'' JNull) (\<lambda>cs. jget cs ''wechat'' JNull) of
        None \<Rightarrow> None
      | Some wechatCfg \<Rightarrow>
          (case isMember wechatCfg ''cert_refresh_interval_seconds'' of
             None \<Rightarrow> None
           | Some False \<Rightarrow> Some 43200
           | Some True \<Rightarrow>
               (case Option.bind (jget wechatCfg ''cert_refresh_interval_seconds'' (JInt 43200)) asInt of
                  None \<Rightarrow> None
                | Some configured \<Rightarrow> Some (if 300 \<le> configured then configured else 43200))))"

definition startCertRefreshTimer :: "host \<Rightarrow> int \<Rightarrow> plugin \<Rightarrow> plugin" where
  "startCertRefreshTimer H intervalSeconds P =
     (case registry_find ''wechat'' (pl_registry P) of
        Some (WechatClient c) \<Rightarrow>
          P\<lparr>pl_certTimer := ho_certTimer H, pl_certTimers := (ho_certTimer H, intervalSeconds) # pl_certTimers P\<rparr>
      | _ \<Rightarrow> P)"

definition startHooks :: "host \<Rightarrow> json \<Rightarrow> plugin \<Rightarrow> init_result \<times> plugin" where
  "startHooks H config P =
     (let P1 = P\<lparr>pl_started := pl_started P @ startAll (pl_registry P)\<rparr>
      in case certRefreshSeconds config of
           None \<Rightarrow> (ConfigError, P1)
         | Some seconds \<Rightarrow>
             (Running, (startCertRefreshTimer H seconds P1)\<lparr>pl_routes := registerHttpHandlers (pl_basePath P)\<rparr>))"

definition readRedis :: "host \<Rightarrow> json \<Rightarrow> plugin \<Rightarrow> bool \<times> plugin" where
  "readRedis H config P =
     (if isMember config ''redis_client'' = Some True
      then (case asString (member_of config ''redis_client'') of
              None \<Rightarrow> (False, P)
            | Some nm \<Rightarrow> (True, P\<lparr>pl_hasRedis := ho_redisClient H nm\<rparr>))
      else (True, P))"

text \<open>Steps 2 to 7, with a database client.\<close>

definition startAssembled :: "host \<Rightarrow> json \<Rightarrow> plugin \<Rightarrow> init_result \<times> plugin" where
  "startAssembled H config P =
     (case readRedis H config P of
        (False, P1) \<Rightarrow> (ConfigError, P1)
      | (True, P1) \<Rightarrow>
          (case assembleChannels H (member_of config ''channels'') (pl_registry P1) of
             (False, r) \<Rightarrow> (ConfigError, P1\<lparr>pl_registry := r\<rparr>)
           | (True, r) \<Rightarrow>
               (case startReconciliation H config (createServices config (P1\<lparr>pl_registry := r\<rparr>)) of
                  (False, P2) \<Rightarrow> (ConfigError, P2)
                | (True, P2) \<Rightarrow> startHooks H config P2)))"

definition initAndStart :: "host \<Rightarrow> json \<Rightarrow> plugin \<Rightarrow> init_result \<times> plugin" where
  "initAndStart H config P =
     (case legacyKey config kLegacyKeyMigration of
        None \<Rightarrow> (ConfigError, P)
      | Some (Some oldKey) \<Rightarrow>
          (Refused (''PayPlugin: legacy config key '' @ [CHR 0x27] @ oldKey @ [CHR 0x27] @ '' detected''), P)
      | Some None \<Rightarrow>
          (case (jstr config ''db_client'' ''default'', jstr config ''base_path'' ''/api/pay'') of
             (Some dbClientName, Some basePath) \<Rightarrow>
               let P1 = P\<lparr>pl_basePath := basePath, pl_hasDb := ho_dbClient H dbClientName\<rparr>
               in if \<not> pl_hasDb P1 then (NoDatabase, P1) else startAssembled H config P1
           | _ \<Rightarrow> (ConfigError, P)))"

text \<open>The worker thread takes its loop and every timer on it along.\<close>

definition shutdown :: "plugin \<Rightarrow> plugin" where
  "shutdown P =
     (let P1 = P\<lparr>pl_reconciler := map_option stopReconcileTimer (pl_reconciler P)\<rparr>
      in if pl_worker P1 then
           let P2 = (if pl_certTimer P1 \<noteq> 0
                     then P1\<lparr>pl_certTimers := filter (\<lambda>t. fst t \<noteq> pl_certTimer P1) (pl_certTimers P1), pl_certTimer := 0\<rparr>
                     else P1)
           in P2\<lparr>pl_stopped := pl_stopped P2 @ stopAll (pl_registry P2), pl_worker := False\<rparr>
         else P1\<lparr>pl_stopped := pl_stopped P1 @ stopAll (pl_registry P1)\<rparr>)"

text \<open>The set-up of the tests.\<close>

definition setTestChannels :: "(string \<times> pay_channel option) list \<Rightarrow> bool \<Rightarrow> plugin \<Rightarrow> plugin" where
  "setTestChannels chs db P =
     P\<lparr>pl_hasDb := db, pl_registry := freeze (fold (\<lambda>(nm, c). registry_add nm c) chs (pl_registry P)),
       pl_idempotency := Some 604800,
       pl_services := Some (map (\<lambda>(nm, c). (nm, the c)) (filter (\<lambda>(nm, c). c \<noteq> None) chs)),
       pl_callback := Some (case map_of chs ''wechat'' of None \<Rightarrow> None | Some c \<Rightarrow> c)\<rparr>"

section \<open>Assembly and shutdown\<close>

lemma readRedis_cases:
  "readRedis H config P = (ok, P1) \<Longrightarrow> \<exists>b. P1 = P\<lparr>pl_hasRedis := b\<rparr>"
  by (auto simp: readRedis_def split: if_splits option.splits intro: exI [of _ "pl_hasRedis P"])

lemma assemble_frozen: "assembleChannels H cfg r = (True, r') \<Longrightarrow> frozen r'"
  by (auto simp: assembleChannels_def freeze_def split: if_splits prod.splits bool.splits)

text \<open>A reconciler whose timers all stop with the one it knows.\<close>

definition stoppable :: "reconciler \<Rightarrow> bool" where
  "stoppable R \<longleftrightarrow> rc_active (stopReconcileTimer R) = {}"

lemma stoppable_simps:
  "rc_active R = {} \<Longrightarrow> stoppable R"
  "rc_active R = {} \<Longrightarrow> ident \<noteq> 0 \<Longrightarrow> stoppable (startReconcileTimer ident R)"
  by (auto simp: stoppable_def stopReconcileTimer_def startReconcileTimer_def)

lemma new_reconciler_idle:
  "rc_active (newReconciler chs db) = {}" "rc_active (setReconcileOptions i b R) = rc_active R"
  by (auto simp: newReconciler_def setReconcileOptions_def Let_def)

lemma startReconciliation_cases:
  assumes "startReconciliation H config P = (ok, P1)" "ho_reconcileTimer H \<noteq> 0"
  shows "\<exists>R. P1 = P\<lparr>pl_worker := True, pl_reconciler := Some R\<rparr> \<and> stoppable R"
proof -
  let ?R = "newReconciler (\<lambda>nm. map_option (channelView H) (registry_find nm (pl_registry P))) (pl_hasDb P)"
  have "\<exists>R1 \<in> insert ?R (range (\<lambda>(i, b). setReconcileOptions i b ?R)).
      P1 = P\<lparr>pl_worker := True, pl_reconciler := Some R1\<rparr> \<or>
      P1 = P\<lparr>pl_worker := True, pl_reconciler := Some (startReconcileTimer (ho_reconcileTimer H) R1)\<rparr>"
    using assms(1) by (auto simp: startReconciliation_def Let_def split: if_splits option.splits bool.splits)
  then obtain R1 where R1: "R1 \<in> insert ?R (range (\<lambda>(i, b). setReconcileOptions i b ?R))"
    "P1 = P\<lparr>pl_worker := True, pl_reconciler := Some R1\<rparr> \<or>
     P1 = P\<lparr>pl_worker := True, pl_reconciler := Some (startReconcileTimer (ho_reconcileTimer H) R1)\<rparr>"
    by (rule bexE)
  from R1(1) have "rc_active R1 = {}" by (auto simp: new_reconciler_idle)
  from stoppable_simps(1) [OF this] stoppable_simps(2) [OF this assms(2)] R1(2) show ?thesis by blast
qed

text \<open>What every end of \<open>initAndStart\<close> leaves for \<open>shutdown\<close>.\<close>

definition stoppable_plugin :: "plugin \<Rightarrow> bool" where
  "stoppable_plugin P \<longleftrightarrow>
     (\<forall>R. pl_reconciler P = Some R \<longrightarrow> stoppable R) \<and> pl_stopped P = [] \<and>
     (pl_certTimers P = [] \<or>
      pl_worker P \<and> pl_certTimer P \<noteq> 0 \<and> (\<exists>s. pl_certTimers P = [(pl_certTimer P, s)]))"

definition assembled :: "plugin \<Rightarrow> bool" where
  "assembled P \<longleftrightarrow>
     pl_hasDb P \<and> frozen (pl_registry P) \<and> pl_idempotency P \<noteq> None \<and>
     pl_services P = Some (channels (pl_registry P)) \<and>
     pl_callback P = map_option Some (registry_find ''wechat'' (pl_registry P)) \<and>
     pl_reconciler P \<noteq> None \<and> pl_started P = startAll (pl_registry P) \<and>
     (\<forall>(ident, seconds) \<in> set (pl_certTimers P). 300 \<le> seconds) \<and>
     pl_routes P = registerHttpHandlers (pl_basePath P)"

lemma cert_seconds: "certRefreshSeconds config = Some s \<Longrightarrow> 300 \<le> s"
  by (auto simp: certRefreshSeconds_def split: option.splits bool.splits if_splits)

text \<open>The last step, on a plugin with the services, the worker and the sweep.\<close>

lemma startHooks_cases:
  assumes "startHooks H config P = (result, P1)" "ho_certTimer H \<noteq> 0"
    and "stoppable_plugin P" "pl_certTimers P = []" "pl_routes P = []" "pl_started P = []" "pl_worker P"
    and "pl_hasDb P" "frozen (pl_registry P)" "pl_idempotency P \<noteq> None" "pl_services P = Some (channels (pl_registry P))"
    and "pl_callback P = map_option Some (registry_find ''wechat'' (pl_registry P))" "pl_reconciler P \<noteq> None"
  shows "stoppable_plugin P1 \<and> pl_registry P1 = pl_registry P \<and>
     (if result = Running then assembled P1 else pl_routes P1 = [])"
proof (cases "certRefreshSeconds config")
  case None
  with assms show ?thesis by (auto simp: startHooks_def stoppable_plugin_def)
next
  case (Some s)
  note s = cert_seconds [OF Some]
  from Some assms(1) have r: "result = Running"
    "P1 = (startCertRefreshTimer H s (P\<lparr>pl_started := startAll (pl_registry P)\<rparr>))\<lparr>pl_routes := registerHttpHandlers (pl_basePath P)\<rparr>"
    by (simp_all add: startHooks_def assms(6))
  show ?thesis
  proof (cases "\<exists>c. registry_find ''wechat'' (pl_registry P) = Some (WechatClient c)")
    case True
    with r s assms(2-) show ?thesis
      by (auto simp: startCertRefreshTimer_def stoppable_plugin_def assembled_def)
  next
    case False
    then have "P1 = P\<lparr>pl_started := startAll (pl_registry P), pl_routes := registerHttpHandlers (pl_basePath P)\<rparr>"
      using r by (auto simp: startCertRefreshTimer_def split: option.splits pay_channel.splits)
    with r(1) assms(3-) show ?thesis by (simp add: stoppable_plugin_def assembled_def)
  qed
qed

lemma startAssembled_cases:
  assumes "startAssembled H config P = (result, P')" "ho_reconcileTimer H \<noteq> 0" "ho_certTimer H \<noteq> 0"
    and "P = new_plugin\<lparr>pl_basePath := bp, pl_hasDb := True\<rparr>"
  shows "stoppable_plugin P' \<and> (if result = Running then assembled P' else pl_routes P' = [])"
proof -
  have new: "stoppable_plugin P \<and> pl_routes P = []" by (simp add: assms(4) new_plugin_def stoppable_plugin_def)
  obtain ok1 P1 where p1: "readRedis H config P = (ok1, P1)" by fastforce
  then obtain b where b: "P1 = P\<lparr>pl_hasRedis := b\<rparr>" using readRedis_cases by blast
  obtain ok2 r where r: "assembleChannels H (member_of config ''channels'') (pl_registry P1) = (ok2, r)" by fastforce
  let ?P2 = "createServices config (P1\<lparr>pl_registry := r\<rparr>)"
  obtain ok3 P3 where p3: "startReconciliation H config ?P2 = (ok3, P3)" by fastforce
  show ?thesis
  proof (cases "ok1 \<and> ok2")
    case False
    with assms(1) p1 r have "(result, P') \<in> {(ConfigError, P1), (ConfigError, P1\<lparr>pl_registry := r\<rparr>)}"
      by (auto simp: startAssembled_def split: bool.splits)
    with new b show ?thesis by (auto simp: stoppable_plugin_def)
  next
    case True
    obtain R where R: "P3 = ?P2\<lparr>pl_worker := True, pl_reconciler := Some R\<rparr>" "stoppable R"
      using startReconciliation_cases [OF p3 assms(2)] by blast
    have s3: "stoppable_plugin P3" "pl_certTimers P3 = []" "pl_routes P3 = []" "pl_started P3 = []" "pl_worker P3" "pl_hasDb P3"
      "pl_registry P3 = r" "pl_idempotency P3 \<noteq> None" "pl_services P3 = Some (channels r)"
      "pl_callback P3 = map_option Some (registry_find ''wechat'' r)" "pl_reconciler P3 \<noteq> None"
      using R by (simp_all add: b assms(4) createServices_def new_plugin_def stoppable_plugin_def)
    have f: "frozen r" by (rule assemble_frozen) (use r True in simp)
    have "(result, P') = (if ok3 then startHooks H config P3 else (ConfigError, P3))"
      using assms(1) p1 r p3 True by (simp add: startAssembled_def split: bool.splits)
    then show ?thesis
    proof (cases ok3)
      case True
      with \<open>(result, P') = _\<close> have "startHooks H config P3 = (result, P')" by simp
      from startHooks_cases [OF this assms(3) s3(1-6)] s3(7-) f show ?thesis by blast
    next
      case False
      with \<open>(result, P') = _\<close> s3(1,3) show ?thesis by simp
    qed
  qed
qed

lemma init_cases:
  assumes "initAndStart H config new_plugin = (result, P)" "ho_reconcileTimer H \<noteq> 0" "ho_certTimer H \<noteq> 0"
  shows "stoppable_plugin P \<and> (if result = Running then assembled P else pl_routes P = [])"
proof (cases "\<exists>bp. startAssembled H config (new_plugin\<lparr>pl_basePath := bp, pl_hasDb := True\<rparr>) = (result, P)")
  case True
  then show ?thesis using startAssembled_cases [OF _ assms(2,3) refl] by blast
next
  case False
  with assms(1) have "result \<noteq> Running \<and> (\<exists>bp. P = new_plugin \<or> P = new_plugin\<lparr>pl_basePath := bp, pl_hasDb := False\<rparr>)"
    by (auto simp: initAndStart_def Let_def split: option.splits if_splits)
  moreover have "stoppable_plugin new_plugin \<and> pl_routes new_plugin = []" by (simp add: new_plugin_def stoppable_plugin_def)
  ultimately show ?thesis by (auto simp: stoppable_plugin_def)
qed

text \<open>
  C28: the life of the plugin. However \<open>initAndStart\<close> ends on a configuration, routes are
  registered exactly when it ran to its end; then the registry is frozen, the services were
  built on exactly its channels, the callback service on its WeChat channel, the channels
  were started in the order of their names, and certificates are refreshed no more often
  than every five minutes. And a shutdown afterwards, also after a start that an exception
  broke off, leaves no timer and no worker behind and stops every channel once.
\<close>

theorem plugin_life_cycle:
  assumes "initAndStart H config new_plugin = (result, P)" "ho_reconcileTimer H \<noteq> 0" "ho_certTimer H \<noteq> 0"
  shows "(pl_routes P \<noteq> [] \<longleftrightarrow> result = Running) \<and> (result = Running \<longrightarrow> assembled P) \<and>
     (let Q = shutdown P
      in \<not> pl_worker Q \<and> pl_certTimers Q = [] \<and> (\<forall>R. pl_reconciler Q = Some R \<longrightarrow> rc_active R = {}) \<and>
         pl_stopped Q = stopAll (pl_registry P))"
proof -
  from init_cases [OF assms] have main: "stoppable_plugin P \<and> (if result = Running then assembled P else pl_routes P = [])" .
  have "registerHttpHandlers bp \<noteq> []" for bp by (simp add: registerHttpHandlers_def)
  with main show ?thesis
    by (auto simp: assembled_def stoppable_plugin_def stoppable_def shutdown_def Let_def split: if_splits)
qed

text \<open>
  A \<open>channels\<close> member that is neither an object nor null is only logged when the channels are
  assembled; the reading of the refresh interval then throws, with the services built, the
  sweep running and no route registered.
\<close>

lemma misshapen_channels_half_started:
  assumes "config = jobject [(''channels'', v)]" "\<not> readable v" "ho_dbClient H ''default''" "ho_reconcileTimer H \<noteq> 0"
  shows "\<exists>P R. initAndStart H config new_plugin = (ConfigError, P) \<and> pl_routes P = [] \<and> pl_services P = Some [] \<and>
     pl_reconciler P = Some R \<and> rc_active R = {ho_reconcileTimer H}"
proof -
  have v: "jget v k d = None" "isObject v = False" for k d using assms(2) by (cases v; simp)+
  show ?thesis
    by (simp add: assms(1,3) v jobject_def initAndStart_def kLegacyKeyMigration_def jstr_def Let_def startAssembled_def
        readRedis_def assembleChannels_def member_of_def createServices_def startReconciliation_def startHooks_def
        certRefreshSeconds_def new_plugin_def new_registry_def freeze_def registry_find_def startReconcileTimer_def
        newReconciler_def)
qed

text \<open>A channel of the host never takes the place of a built-in one.\<close>

lemma factories_keep_found:
  "registerFactories cfg fs r = (ok, r') \<Longrightarrow> registry_find nm r = Some pc \<Longrightarrow> registry_find nm r' = Some pc"
proof (induction cfg fs r rule: registerFactories.induct)
  case (2 cfg n factory rest r)
  have add: "registry_find nm (registry_add n b r) = Some pc" if "registry_find n r = None" for b
    using 2(6) that by (auto simp: registry_find_def registry_add_def split: option.splits)
  show ?case using 2 add by (cases "registry_find n r") (auto split: option.splits bool.splits if_splits)
qed simp

section \<open>Requests\<close>

text \<open>
  The plugin as the process the handlers ask for their services. \<open>S\<close>, \<open>C\<close> and \<open>B\<close> hold the
  outside code; \<open>now\<close> is the moment of a delivery.
\<close>

definition serviceSys :: "sys \<Rightarrow> host \<Rightarrow> plugin \<Rightarrow> sys" where
  "serviceSys S H P =
     S\<lparr>findChannel := \<lambda>nm. map_option (\<lambda>pc. fst (channelView H pc)) (Option.bind (pl_services P) (\<lambda>cs. map_of cs nm)),
       hasDb := pl_hasDb P, hasRedis := pl_hasRedis P,
       ttlSeconds := (case pl_idempotency P of None \<Rightarrow> ttlSeconds S | Some ttl \<Rightarrow> ttl)\<rparr>"

definition callbackSys :: "callback_sys \<Rightarrow> host \<Rightarrow> plugin \<Rightarrow> nat \<Rightarrow> pay_channel option \<Rightarrow> callback_sys" where
  "callbackSys C H P now pc =
     C\<lparr>wechatClient := (case pc of
          Some (WechatClient c) \<Rightarrow> Some (wechatAt (ho_wechat H) c now (ho_history H now)) | _ \<Rightarrow> None),
       redisSetNx := (if pl_hasRedis P then redisSetNx C else None)\<rparr>"

definition pluginAlipay :: "host \<Rightarrow> plugin \<Rightarrow> (alipay_sys \<times> alipay_client) option" where
  "pluginAlipay H P =
     (case registry_find ''alipay'' (pl_registry P) of Some (AlipayClient c) \<Rightarrow> Some (ho_alipay H, c) | _ \<Rightarrow> None)"

definition appOf :: "host \<Rightarrow> plugin \<Rightarrow> sys \<Rightarrow> callback_sys \<Rightarrow> nat \<Rightarrow> app \<Rightarrow> app" where
  "appOf H P S C now B =
     B\<lparr>ap_paymentService := map_option (\<lambda>_. serviceSys S H P) (pl_services P),
       ap_refundService := map_option (\<lambda>_. serviceSys S H P) (pl_services P),
       ap_callbackService := map_option (\<lambda>pc. (callbackSys C H P now pc, serviceSys S H P)) (pl_callback P),
       ap_alipayClient := pluginAlipay H P\<rparr>"

text \<open>\<open>ends\<close> is the state the two chains of a summary end in.\<close>

definition endpointHandler ::
  "env \<Rightarrow> app \<Rightarrow> (summary_state \<Rightarrow> summary_state) \<Rightarrow> endpoint \<Rightarrow> http_request \<Rightarrow> server \<Rightarrow> handled \<times> server" where
  "endpointHandler e A ends target rq sv =
     (case target of
        CreatePayment \<Rightarrow> booked (createPaymentHandler e A) rq sv
      | CreateQRPayment \<Rightarrow> booked (createQRPaymentHandler e A) rq sv
      | QueryOrder \<Rightarrow> booked (queryOrderHandler e A) rq sv
      | Refund \<Rightarrow> booked (refundHandler e A) rq sv
      | QueryRefund \<Rightarrow> booked (queryRefundHandler e A) rq sv
      | QueryOrderList \<Rightarrow> booked (queryOrderListHandler e A) rq sv
      | ReconcileSummary \<Rightarrow>
          (case reconcileSummaryHandler A rq of
             Inl a \<Rightarrow> answered a sv
           | Inr s \<Rightarrow> ((summaryAnswers (ends s), False), sv))
      | AuthMetrics \<Rightarrow> answered (authMetrics (sv_metrics sv) rq) sv
      | AuthMetricsProm \<Rightarrow> answered (authMetricsProm (sv_metrics sv) rq) sv
      | WechatNotice \<Rightarrow> booked (wechatNotify e A) rq sv
      | AlipayNotice \<Rightarrow> booked (alipayNotify e A) rq sv)"

definition serveRoute ::
  "env \<Rightarrow> app \<Rightarrow> (summary_state \<Rightarrow> summary_state) \<Rightarrow> auth_config \<Rightarrow> endpoint \<Rightarrow> http_request \<Rightarrow> server \<Rightarrow>
     answer list \<times> server" where
  "serveRoute e A ends K target rq sv =
     (if target = WechatNotice \<or> target = AlipayNotice then open_route (endpointHandler e A ends target) rq sv
      else authed K (endpointHandler e A ends target) rq sv)"

text \<open>The route of a request; \<open>None\<close> when the framework answers it itself.\<close>

definition routed :: "host \<Rightarrow> plugin \<Rightarrow> http_method \<Rightarrow> string \<Rightarrow> endpoint option" where
  "routed H P verb path =
     map_option rt_endpoint (find (\<lambda>rt. ho_matches H (rt_path rt) path \<and> verb \<in> set (rt_methods rt)) (pl_routes P))"

definition serve ::
  "host \<Rightarrow> plugin \<Rightarrow> env \<Rightarrow> app \<Rightarrow> (summary_state \<Rightarrow> summary_state) \<Rightarrow> auth_config \<Rightarrow> http_method \<Rightarrow> http_request \<Rightarrow> server \<Rightarrow>
     (answer list \<times> server) option" where
  "serve H P e A ends K verb rq sv =
     map_option (\<lambda>target. serveRoute e A ends K target rq sv) (routed H P verb (rq_path rq))"

section \<open>Who may change the books\<close>

definition keyAuthorised :: "auth_config \<Rightarrow> auth_request \<Rightarrow> bool" where
  "keyAuthorised K rq \<longleftrightarrow>
     extractApiKey rq \<noteq> [] \<and>
     ((\<exists>items. payMember (ac_config K) ''api_keys'' = Some (Some (JArray items)) \<and> Some (extractApiKey rq) \<in> asString ` set items) \<or>
      (\<exists>v. ac_singleKey K = Some v \<and> extractApiKey rq = trim v) \<or>
      (\<exists>v. ac_multiKeys K = Some v \<and> extractApiKey rq \<in> set (splitKeys v))) \<and>
     (resolveScope (rq_path rq) (ac_basePath K) \<noteq> [] \<longrightarrow>
        scope_rule (ac_config K) (extractApiKey rq) (resolveScope (rq_path rq) (ac_basePath K)))"

lemma preflight_keeps:
  assumes "rq_options rq" "target \<noteq> WechatNotice" "target \<noteq> AlipayNotice"
  shows "snd (endpointHandler e A ends target rq sv) = sv"
  using assms
  by (cases target) (auto simp: endpointHandler_def booked_def answered_def createPaymentHandler_def
      createQRPaymentHandler_def queryOrderHandler_def refundHandler_def queryRefundHandler_def queryOrderListHandler_def
      reconcileSummaryHandler_def withBody_def split: sum.split)

lemma guarded_snd: "snd (guarded out) = snd out"
  by (simp add: guarded_def split: prod.split)

lemma authed_gate:
  assumes "memcmp_exact (ac_memcmp K)" "target \<noteq> WechatNotice" "target \<noteq> AlipayNotice"
    and "sv_world (snd (authed K (endpointHandler e A ends target) rq sv)) \<noteq> sv_world sv"
  shows "keyAuthorised K (auth_request.truncate rq)"
proof -
  from assms(4) obtain mt where mt:
    "checkAuth (ac_memcmp K) (ac_config K) (ac_singleKey K) (ac_multiKeys K) (ac_basePath K) (auth_request.truncate rq)
       (sv_metrics sv) = Some (None, mt)"
    "sv_world (snd (endpointHandler e A ends target rq (sv\<lparr>sv_metrics := mt\<rparr>))) \<noteq> sv_world sv"
    by (auto simp: authed_def guarded_snd answered_def threw_def split: option.splits prod.splits)
  have "\<not> rq_options (auth_request.truncate rq)"
    using preflight_keeps [OF _ assms(2,3)] mt(2) by (auto simp: auth_request.truncate_def)
  from checkAuth_passes_authorised [OF assms(1) this mt(1)] show ?thesis by (simp add: keyAuthorised_def)
qed

lemma booked_changes: "sv_world (snd (booked handler rq sv)) \<noteq> sv_world sv \<Longrightarrow> snd (handler rq (sv_world sv)) \<noteq> sv_world sv"
  by (auto simp: booked_def split: prod.splits)

text \<open>What an assembled plugin is made of decides whom its notification routes believe.\<close>

lemma notice_vouched:
  assumes "assembled P"
    and "\<forall>c. registry_find ''wechat'' (pl_registry P) = Some (WechatClient c) \<longrightarrow> client_reaches (ho_wechat H) c (ho_history H now)"
    and "snd (wechatNotify e (appOf H P S C now B) rq w) \<noteq> w"
  shows "\<exists>c. registry_find ''wechat'' (pl_registry P) = Some (WechatClient c) \<and>
     vouched (ho_wechat H) c now (hq_header rq ''Wechatpay-Serial'')
       (signedBody (hq_header rq ''Wechatpay-Timestamp'') (hq_header rq ''Wechatpay-Nonce'') (hq_body rq))
       (hq_header rq ''Wechatpay-Signature'')"
proof -
  from route_signed [OF assms(3)] obtain D T where s: "ap_callbackService (appOf H P S C now B) = Some (D, T)"
    "verifySignature D (deliveryOf rq)" by blast
  from s(1) obtain pc where pc: "pl_callback P = Some pc" "D = callbackSys C H P now pc" by (auto simp: appOf_def)
  with s(2) obtain c where c: "pc = Some (WechatClient c)"
    "fst (wechatVerifyCallback (ho_wechat H) c now (hq_header rq ''Wechatpay-Timestamp'') (hq_header rq ''Wechatpay-Nonce'')
       (hq_body rq) (hq_header rq ''Wechatpay-Signature'') (hq_header rq ''Wechatpay-Serial'') (ho_history H now)) = None"
    by (auto simp: verifySignature_def callbackSys_def deliveryOf_def wechatAt_def split: option.splits pay_channel.splits)
  have "map_option Some (registry_find ''wechat'' (pl_registry P)) = Some (Some (WechatClient c))"
    using assms(1) pc(1) c(1) by (simp add: assembled_def)
  then have "registry_find ''wechat'' (pl_registry P) = Some (WechatClient c)" by auto
  moreover from this assms(2) have "client_reaches (ho_wechat H) c (ho_history H now)" by blast
  ultimately show ?thesis using callback_vouched c(2) by blast
qed

text \<open>The scopes of the routes, whatever the base path.\<close>

lemma route_scopes:
  "map (\<lambda>rt. (rt_endpoint rt, resolveScope (rt_path rt) bp)) (registerHttpHandlers bp) =
     [(CreatePayment, []), (CreateQRPayment, []), (QueryOrder, ''order_query''), (Refund, ''refund''),
      (QueryRefund, ''refund_query''), (QueryOrderList, []), (ReconcileSummary, ''reconcile''), (AuthMetrics, []),
      (AuthMetricsProm, []), (WechatNotice, []), (AlipayNotice, [])]"
  by (simp add: registerHttpHandlers_def route_to_def qrPath_def resolveScope_def starts_with_def)

text \<open>
  The scope is read from the path as it is written: where a router ignores the case of
  paths, a key without the scope \<open>refund\<close> reaches the refund route under another spelling.
\<close>

definition query_key_config :: json where
  "query_key_config = JObject [(''pay'', JObject [(''api_key_scopes'', JObject [(''k1'', JArray [JString ''order_query''])]),
     (''api_keys'', JArray [JString ''k1''])])]"

definition key_request :: "string \<Rightarrow> auth_request" where
  "key_request path = \<lparr>rq_options = False, rq_path = path, rq_x_api_key = ''k1'', rq_authorization = []\<rparr>"

lemma mixed_case_path_has_no_scope:
  "map to_lower ''/api/pay/Refund'' = ''/api/pay/refund''"
  "map_option (\<lambda>(resp, _). map_option status_code resp)
     (checkAuth bytes_differ query_key_config None None ''/api/pay'' (key_request ''/api/pay/refund'') mt) = Some (Some 403)"
  "checkAuth bytes_differ query_key_config None None ''/api/pay'' (key_request ''/api/pay/Refund'') mt = Some (None, mt)"
  by (code_simp, simp_all add: checkAuth_def query_key_config_def key_request_def extractApiKey_def resolveScope_def
      starts_with_def configKeys_def payMember_def envKeys_def contains_iff [OF memcmp_exact_bytes_differ]
      scopeAllowed_def scopesAllow_def Let_def)

text \<open>The scope of the refund route, whatever the base path.\<close>

lemma scope_of_refund: "resolveScope (bp @ ''/refund'') bp = ''refund''"
  by (simp add: resolveScope_def starts_with_def)

lemma refund_path:
  assumes "assembled P" "routed H P verb path = Some Refund" "\<forall>p q. ho_matches H p q \<longleftrightarrow> p = q"
  shows "path = pl_basePath P @ ''/refund''"
proof -
  from assms(2) obtain rt where rt: "rt \<in> set (pl_routes P)" "ho_matches H (rt_path rt) path" "rt_endpoint rt = Refund"
    by (auto simp: routed_def find_Some_iff) (metis nth_mem)
  have "rt_path rt = pl_basePath P @ ''/refund''"
    using rt(1,3) assms(1) by (auto simp: assembled_def registerHttpHandlers_def route_to_def)
  with rt(2) assms(3) show ?thesis by simp
qed

lemma startup_assembled:
  "initAndStart H config new_plugin = (Running, P) \<Longrightarrow> ho_reconcileTimer H \<noteq> 0 \<Longrightarrow> ho_certTimer H \<noteq> 0 \<Longrightarrow> assembled P"
  using init_cases by fastforce

text \<open>
  C17: who may change the books of a running plugin. A request that the framework routes and
  that changes anything in the database came with a configured API key whose scopes allow
  the path, on a refund the scope \<open>refund\<close> where paths are matched exactly; or it is a WeChat
  notification vouched for by a valid certificate of the platform; or an Alipay notification
  signed over its parameters with the configured key and for the configured app. It is
  answered at most once.
\<close>

theorem served_changes_authorised:
  assumes "initAndStart H config new_plugin = (Running, P)" "ho_reconcileTimer H \<noteq> 0" "ho_certTimer H \<noteq> 0"
    and "memcmp_exact (ac_memcmp K)" "ac_basePath K = pl_basePath P"
    and "\<forall>c. registry_find ''wechat'' (pl_registry P) = Some (WechatClient c) \<longrightarrow> client_reaches (ho_wechat H) c (ho_history H now)"
    and "serve H P e (appOf H P S C now B) ends K verb rq sv = Some (answers, sv')" "sv_world sv' \<noteq> sv_world sv"
  shows "length answers \<le> 1 \<and>
     (keyAuthorised K (auth_request.truncate rq) \<and>
        (routed H P verb (rq_path rq) = Some Refund \<and> (\<forall>p q. ho_matches H p q \<longleftrightarrow> p = q) \<longrightarrow>
           scope_rule (ac_config K) (extractApiKey (auth_request.truncate rq)) ''refund'') \<or>
      (\<exists>c. registry_find ''wechat'' (pl_registry P) = Some (WechatClient c) \<and>
         vouched (ho_wechat H) c now (hq_header rq ''Wechatpay-Serial'')
           (signedBody (hq_header rq ''Wechatpay-Timestamp'') (hq_header rq ''Wechatpay-Nonce'') (hq_body rq))
           (hq_header rq ''Wechatpay-Signature'')) \<or>
      (\<exists>c. registry_find ''alipay'' (pl_registry P) = Some (AlipayClient c) \<and> al_alipayPublicKeyPem c \<noteq> [] \<and>
         (let params = parseForm (ap_urlDecode B) (hq_body rq)
          in ay_rsaVerify (ho_alipay H) (al_alipayPublicKeyPem c) (joined (signed_part params)) (param params ''sign'') \<and>
             (al_appId c = [] \<or> param params ''app_id'' = al_appId c))))"
proof -
  let ?A = "appOf H P S C now B"
  have P: "assembled P" using startup_assembled [OF assms(1-3)] .
  from assms(7) obtain target where t: "routed H P verb (rq_path rq) = Some target"
    "serveRoute e ?A ends K target rq sv = (answers, sv')" by (auto simp: serve_def)
  obtain out where "serveRoute e ?A ends K target rq sv = guarded out"
    by (cases "target = WechatNotice \<or> target = AlipayNotice") (auto simp: serveRoute_def open_route_def authed_def)
  with t(2) guarded_once [of out] have one: "length answers \<le> 1" by simp
  consider (wx) "target = WechatNotice" | (ali) "target = AlipayNotice"
    | (key) "target \<noteq> WechatNotice" "target \<noteq> AlipayNotice" by blast
  then show ?thesis
  proof cases
    case wx
    with t(2) assms(8) have ch: "snd (wechatNotify e ?A rq (sv_world sv)) \<noteq> sv_world sv"
      using booked_changes by (force simp: serveRoute_def open_route_def guarded_snd endpointHandler_def
          dest!: arg_cong [where f = snd])
    from notice_vouched [OF P assms(6) ch] one show ?thesis by blast
  next
    case ali
    with t(2) assms(8) have ch: "snd (alipayNotify e ?A rq (sv_world sv)) \<noteq> sv_world sv"
      using booked_changes by (force simp: serveRoute_def open_route_def guarded_snd endpointHandler_def
          dest!: arg_cong [where f = snd])
    from alipay_signed [OF disjI1, OF ch] obtain c where "pluginAlipay H P = Some (ho_alipay H, c)"
      "al_alipayPublicKeyPem c \<noteq> []"
      "let params = parseForm (ap_urlDecode B) (hq_body rq)
       in ay_rsaVerify (ho_alipay H) (al_alipayPublicKeyPem c) (joined (signed_part params)) (param params ''sign'') \<and>
          (al_appId c = [] \<or> param params ''app_id'' = al_appId c)"
      by (auto simp: appOf_def Let_def pluginAlipay_def split: option.splits pay_channel.splits)
    with one show ?thesis
      by (auto simp: pluginAlipay_def split: option.splits pay_channel.splits)
  next
    case key
    have "keyAuthorised K (auth_request.truncate rq)"
      using authed_gate [OF assms(4) key] t(2) assms(8) key by (simp add: serveRoute_def) (metis snd_conv)
    moreover have "resolveScope (rq_path rq) (ac_basePath K) = ''refund''"
      if "target = Refund" "\<forall>p q. ho_matches H p q \<longleftrightarrow> p = q"
      using refund_path [OF P _ that(2)] t(1) that(1) scope_of_refund assms(5) by metis
    ultimately show ?thesis using one t(1) by (auto simp: keyAuthorised_def auth_request.truncate_def)
  qed
qed

section \<open>A sample plugin\<close>

definition sample_host :: host where
  "sample_host = \<lparr>ho_dbClient = \<lambda>_. True, ho_redisClient = \<lambda>_. False, ho_factories = [], ho_wechat = sample_wx,
     ho_history = \<lambda>_. loaded_state, ho_alipay = sample_alipay, ho_reconcileTimer = 7, ho_certTimer = 8, ho_matches = (=)\<rparr>"

definition plugin_config :: json where
  "plugin_config = jobject [(''channels'', jobject [(''wechat'', wechat_config)])]"

definition running_plugin :: plugin where
  "running_plugin = snd (initAndStart sample_host plugin_config new_plugin)"

lemma sample_timers: "ho_reconcileTimer sample_host \<noteq> 0" "ho_certTimer sample_host \<noteq> 0"
  by (simp_all add: sample_host_def)

lemma sample_started: "initAndStart sample_host plugin_config new_plugin = (Running, running_plugin)"
proof -
  have "fst (initAndStart sample_host plugin_config new_plugin) = Running" by code_simp
  then show ?thesis by (simp add: running_plugin_def prod_eq_iff)
qed

lemma sample_channels: "channels (pl_registry running_plugin) = [(''wechat'', WechatClient sample_wechat_client)]"
proof -
  let ?view = "\<lambda>(nm, pc). (nm, case pc of WechatClient c \<Rightarrow> Some c | _ \<Rightarrow> None)"
  have "map ?view (channels (pl_registry running_plugin)) = [(''wechat'', Some sample_wechat_client)]" by code_simp
  then show ?thesis by (auto split: prod.splits pay_channel.splits)
qed

theorem plugin_life_cycle_witness:
  "assembled running_plugin \<and> pl_certTimers running_plugin = [(8, 43200)] \<and> pl_certTimers (shutdown running_plugin) = [] \<and>
   pl_stopped (shutdown running_plugin) = [WechatClient sample_wechat_client]"
proof -
  have "pl_certTimers running_plugin = [(8, 43200)]" by code_simp
  moreover have "stopAll (pl_registry running_plugin) = [WechatClient sample_wechat_client]"
    by (simp add: stopAll_def sample_channels)
  ultimately show ?thesis using plugin_life_cycle [OF sample_started sample_timers] by (simp add: Let_def)
qed

definition plain_auth :: auth_config where
  "plain_auth = \<lparr>ac_memcmp = bytes_differ, ac_config = JNull, ac_singleKey = None, ac_multiKeys = None, ac_basePath = ''/api/pay''\<rparr>"

definition notice_request :: http_request where
  "notice_request = signed_post\<lparr>rq_path := ''/api/pay/notify/wechat'', rq_x_api_key := [], rq_authorization := []\<rparr>"

definition plain_server :: server where
  "plain_server = \<lparr>sv_world = fresh paying_tables,
     sv_metrics = \<lparr>missingKey = 0, invalidKey = 0, scopeDenied = 0, notConfigured = 0\<rparr>\<rparr>"

definition served_notice :: "(answer list \<times> server) option" where
  "served_notice = serve sample_host running_plugin calm
     (appOf sample_host running_plugin (notify_sys wechat_envelope (trade ''SUCCESS'')) sample_callbacks 0 wechat_app)
     (\<lambda>s. s) plain_auth Post notice_request plain_server"

theorem served_changes_authorised_witness:
  "map_option (\<lambda>(answers, sv'). map p_status (t_payments (tabs (sv_world sv')))) served_notice = Some [''SUCCESS''] \<and>
   vouched sample_wx sample_wechat_client 0 ''001f'' (signedBody ''12'' ''x'' ''body'') ''sig''"
proof -
  have m: "map_option (\<lambda>(answers, sv'). map p_status (t_payments (tabs (sv_world sv')))) served_notice = Some [''SUCCESS'']"
    and u: "map p_status (t_payments (tabs (sv_world plain_server))) = [''PROCESSING'']" by code_simp+
  from m obtain answers sv' where s: "served_notice = Some (answers, sv')"
    "map p_status (t_payments (tabs (sv_world sv'))) = [''SUCCESS'']" by auto
  with u have c: "sv_world sv' \<noteq> sv_world plain_server" by auto
  have reg: "registry_find ''wechat'' (pl_registry running_plugin) = Some (WechatClient sample_wechat_client)"
    "registry_find ''alipay'' (pl_registry running_plugin) = None" by (simp_all add: registry_find_def sample_channels)
  have k0: "extractApiKey (auth_request.truncate notice_request) = []" "pl_basePath running_plugin = ac_basePath plain_auth"
    by code_simp+
  have r: "\<forall>c. registry_find ''wechat'' (pl_registry running_plugin) = Some (WechatClient c) \<longrightarrow>
      client_reaches (ho_wechat sample_host) c (ho_history sample_host 0)"
    by (simp add: reg sample_host_def loaded_state_def loaded_reached)
  have h: "hq_header notice_request ''Wechatpay-Serial'' = ''001f''" "hq_header notice_request ''Wechatpay-Timestamp'' = ''12''"
    "hq_header notice_request ''Wechatpay-Nonce'' = ''x''" "hq_header notice_request ''Wechatpay-Signature'' = ''sig''"
    "hq_body notice_request = ''body''" "ho_wechat sample_host = sample_wx"
    by (code_simp, code_simp, code_simp, code_simp, code_simp, simp add: sample_host_def)
  have k: "memcmp_exact (ac_memcmp plain_auth)" by (simp add: plain_auth_def memcmp_exact_bytes_differ)
  from served_changes_authorised [OF sample_started sample_timers k k0(2) [symmetric] r s(1) [unfolded served_notice_def] c]
  show ?thesis using m by (auto simp: keyAuthorised_def reg h k0(1))
qed

end
