(* ===== verification/Pay_Server.thy ===== *)
theory Pay_Server
  imports Pay_Plugin
begin

text \<open>
  The example server around the plugin (\<open>examples/pay-server\<close>): the loading of the
  environment and of the configuration (\<open>ConfigLoader\<close>), the checks before the start
  (\<open>StartupValidator\<close>), the start itself, the health and metrics routes, and the CORS and
  security headers. Files, the environment and the framework are parameters.
\<close>

section \<open>ConfigLoader\<close>

text \<open>The environment as \<open>getenv\<close> and \<open>setenv\<close> see it. A C string ends at its first zero byte.\<close>

type_synonym environment = "string \<rightharpoonup> string"

definition c_str :: "string \<Rightarrow> string" where
  "c_str = takeWhile (\<lambda>c. c \<noteq> CHR 0x00)"

text \<open>\<open>setenv\<close> with overwriting; an empty name is refused.\<close>

definition setenv :: "string \<Rightarrow> string \<Rightarrow> environment \<Rightarrow> environment" where
  "setenv key v E = (if c_str key = [] then E else E(c_str key \<mapsto> c_str v))"

definition getenv :: "environment \<Rightarrow> string \<Rightarrow> string option" where
  "getenv E key = E (c_str key)"

fun file_lines :: "string \<Rightarrow> string \<Rightarrow> string list" where
  "file_lines token [] = (if token = [] then [] else [token])"
| "file_lines token (c # cs) = (if c = CHR 0x0A then token # file_lines [] cs else file_lines (token @ [c]) cs)"

definition env_space :: "char \<Rightarrow> bool" where
  "env_space c \<longleftrightarrow> c = CHR '' '' \<or> c = CHR 0x09 \<or> c = CHR 0x0D \<or> c = CHR 0x0A"

definition strip :: "string \<Rightarrow> string" where
  "strip s = rev (dropWhile env_space (rev (dropWhile env_space s)))"

definition unquote :: "string \<Rightarrow> string" where
  "unquote v = (if v \<noteq> [] \<and> hd v = CHR 0x22 \<and> last v = CHR 0x22 then substr v 1 (length v - 2) else v)"

definition readEnvLine :: "string \<Rightarrow> environment \<Rightarrow> environment" where
  "readEnvLine line E =
     (if line = [] \<or> hd line = CHR ''#'' then E
      else
        (case index_of (\<lambda>c. c = CHR ''='') line of
           None \<Rightarrow> E
         | Some pos \<Rightarrow> setenv (strip (take pos line)) (unquote (strip (drop (pos + 1) line))) E))"

definition loadEnvFile :: "string option \<Rightarrow> environment \<Rightarrow> bool \<times> environment" where
  "loadEnvFile file E =
     (case file of None \<Rightarrow> (False, E) | Some content \<Rightarrow> (True, fold readEnvLine (file_lines [] content) E))"

text \<open>\<open>s.rfind(p)\<close> for a string \<open>p\<close>.\<close>

fun rfind_sub :: "string \<Rightarrow> string \<Rightarrow> nat option" where
  "rfind_sub p [] = (if p = [] then Some 0 else None)"
| "rfind_sub p (c # s) =
     (case rfind_sub p s of Some i \<Rightarrow> Some (Suc i) | None \<Rightarrow> if starts_with p (c # s) then Some 0 else None)"

definition getEnvValue :: "environment \<Rightarrow> string \<Rightarrow> string" where
  "getEnvValue E placeholder =
     (case (index_of (\<lambda>c. c = CHR '':'') placeholder, rfind_sub ''__'' placeholder) of
        (Some colonPos, Some endPos) \<Rightarrow>
          if colonPos < endPos
          then (case getenv E (substr placeholder (colonPos + 1) (endPos - colonPos - 1)) of None \<Rightarrow> [] | Some v \<Rightarrow> v)
          else []
      | _ \<Rightarrow> [])"

text \<open>A member function nothing calls; without \<open>__\<close> the end position is the largest one.\<close>

definition parseEnvVarName :: "string \<Rightarrow> string" where
  "parseEnvVarName placeholder =
     (case (index_of (\<lambda>c. c = CHR '':'') placeholder, rfind_sub ''__'' placeholder) of
        (Some colonPos, Some endPos) \<Rightarrow>
          if colonPos < endPos then substr placeholder (colonPos + 1) (endPos - colonPos - 1) else []
      | (Some colonPos, None) \<Rightarrow> drop (colonPos + 1) placeholder
      | _ \<Rightarrow> [])"

text \<open>An object is rebuilt by assignments to a null value, so an empty object becomes null.\<close>

primrec replacePlaceholders :: "environment \<Rightarrow> json \<Rightarrow> json" where
  "replacePlaceholders E JNull = JNull"
| "replacePlaceholders E (JBool b) = JBool b"
| "replacePlaceholders E (JInt i) = JInt i"
| "replacePlaceholders E (JReal i b t) = JReal i b t"
| "replacePlaceholders E (JString s) = JString (if starts_with ''__env_var'' s then getEnvValue E s else s)"
| "replacePlaceholders E (JArray xs) = JArray (map (replacePlaceholders E) xs)"
| "replacePlaceholders E (JObject kvs) = jobject (map (map_prod id (replacePlaceholders E)) kvs)"

definition loadConfig :: "environment \<Rightarrow> json \<Rightarrow> json" where
  "loadConfig E config = replacePlaceholders E config"

definition maskSensitive :: "string \<Rightarrow> string" where
  "maskSensitive v = (if length v \<le> 8 then ''***'' else take 4 v @ ''***'' @ drop (length v - 4) v)"

section \<open>StartupValidator\<close>

definition startupPlaceholder :: "string \<Rightarrow> bool" where
  "startupPlaceholder v \<longleftrightarrow>
     v = [] \<or> starts_with ''__env_var'' v \<or>
     3 \<le> length v \<and> hd v = CHR ''$'' \<and> v ! 1 = CHR 0x7B \<and> last v = CHR 0x7D"

text \<open>The variables that are missing; the start is refused when there is one.\<close>

definition validateRequired :: "environment \<Rightarrow> string list \<Rightarrow> string list" where
  "validateRequired E requiredVars =
     filter (\<lambda>varName. case getenv E varName of None \<Rightarrow> True | Some v \<Rightarrow> startupPlaceholder v) requiredVars"

text \<open>\<open>None\<close>: the process exits; otherwise the lines logged about the loaded secrets.\<close>

definition validate :: "environment \<Rightarrow> string list \<Rightarrow> string list option" where
  "validate E requiredVars =
     (if validateRequired E requiredVars \<noteq> [] then None
      else Some (List.map_filter (\<lambda>varName. map_option (\<lambda>v. varName @ '' = '' @ maskSensitive v) (getenv E varName)) requiredVars))"

text \<open>The checks of the channels; \<open>None\<close>: an accessor throws.\<close>

definition channelWarning :: "string \<Rightarrow> string" where
  "channelWarning nm = ''Channel '' @ [CHR 0x27] @ nm @ [CHR 0x27] @
     '' is enabled but app_id is not set; its API calls and callbacks will be rejected''"

fun channelWarnings :: "(string \<times> json) list \<Rightarrow> string list option" where
  "channelWarnings [] = Some []"
| "channelWarnings ((nm, channel) # rest) =
     (case Option.bind (jget channel ''enabled'' (JBool False)) asBool of
        None \<Rightarrow> None
      | Some False \<Rightarrow> channelWarnings rest
      | Some True \<Rightarrow>
          (case jstr channel ''app_id'' [] of
             None \<Rightarrow> None
           | Some appId \<Rightarrow>
               map_option (\<lambda>ws. if startupPlaceholder appId then channelWarning nm # ws else ws) (channelWarnings rest)))"

definition pluginChannels :: "json \<Rightarrow> (string \<times> json) list option" where
  "pluginChannels plugin =
     (case jstr plugin ''name'' [] of
        None \<Rightarrow> None
      | Some nm \<Rightarrow>
          if nm \<noteq> ''PayPlugin'' then Some []
          else
            (case Option.bind (jget plugin ''config'' JNull) (\<lambda>config. jget config ''channels'' JNull) of
               None \<Rightarrow> None
             | Some (JObject kvs) \<Rightarrow> Some kvs
             | Some _ \<Rightarrow> Some []))"

fun pluginWarnings :: "json list \<Rightarrow> string list option" where
  "pluginWarnings [] = Some []"
| "pluginWarnings (plugin # rest) =
     (case Option.bind (pluginChannels plugin) channelWarnings of
        None \<Rightarrow> None
      | Some ws \<Rightarrow> map_option (\<lambda>vs. ws @ vs) (pluginWarnings rest))"

definition validateChannelReadiness :: "json \<Rightarrow> string list option" where
  "validateChannelReadiness processedConfig =
     (case jget processedConfig ''plugins'' JNull of
        None \<Rightarrow> None
      | Some (JArray plugins) \<Rightarrow> pluginWarnings plugins
      | Some _ \<Rightarrow> Some [])"

section \<open>The start\<close>

datatype boot = Exit nat | Terminated | Serving json "string list"

text \<open>\<open>configFile\<close>: whether \<open>config.json\<close> opens, and the parser's answer.\<close>

definition server_main :: "string option \<Rightarrow> (bool \<times> json) option \<Rightarrow> environment \<Rightarrow> boot" where
  "server_main envFile configFile E0 =
     (let E = snd (loadEnvFile envFile E0)
      in if validate E [''PAY_DB_PASSWORD'', ''PAY_API_KEY''] = None then Exit 1
         else
           (case configFile of
              None \<Rightarrow> Exit 1
            | Some (False, _) \<Rightarrow> Exit 1
            | Some (True, config) \<Rightarrow>
                let processedConfig = loadConfig E config
                in (case validateChannelReadiness processedConfig of
                      None \<Rightarrow> Terminated
                    | Some warnings \<Rightarrow> Serving processedConfig warnings)))"

section \<open>Health\<close>

definition healthz :: "bool \<Rightarrow> bool \<Rightarrow> bool \<Rightarrow> answer" where
  "healthz options loopAlive isRunning =
     (if options then empty_answer
      else if loopAlive \<and> isRunning
      then \<lparr>an_status = 200, an_content = Json (jobject [(''status'', JString ''alive'')])\<rparr>
      else \<lparr>an_status = 503, an_content = Json (jobject [(''status'', JString ''dead''),
              (''reason'', JString (if \<not> loopAlive then ''event_loop_null'' else ''not_running''))])\<rparr>)"

text \<open>The state of one readiness request, and what its probes report before the deadline.\<close>

record ready_state =
  rd_failed :: "string list"
  rd_pending :: int

datatype ready_event = DbOk | DbFailed | RedisOk | RedisFailed

definition startProbes :: "bool \<Rightarrow> bool \<Rightarrow> ready_state" where
  "startProbes db redis =
     (let s = \<lparr>rd_failed = [], rd_pending = (if redis then 2 else 1)\<rparr>
      in if db then s else s\<lparr>rd_failed := [''db''], rd_pending := rd_pending s - 1\<rparr>)"

fun probeEvent :: "ready_event \<Rightarrow> ready_state \<Rightarrow> ready_state" where
  "probeEvent DbOk s = s\<lparr>rd_pending := rd_pending s - 1\<rparr>"
| "probeEvent DbFailed s = s\<lparr>rd_failed := rd_failed s @ [''db''], rd_pending := rd_pending s - 1\<rparr>"
| "probeEvent RedisOk s = s\<lparr>rd_pending := rd_pending s - 1\<rparr>"
| "probeEvent RedisFailed s = s\<lparr>rd_failed := rd_failed s @ [''redis''], rd_pending := rd_pending s - 1\<rparr>"

text \<open>The state of the controller; the counter is a 32-bit \<open>int\<close>.\<close>

record health =
  hl_consecutiveFailures :: "32 word"
  hl_lastReadyState :: bool

definition new_health :: health where
  "new_health = \<lparr>hl_consecutiveFailures = 0, hl_lastReadyState = False\<rparr>"

definition FAILURE_THRESHOLD :: int where
  "FAILURE_THRESHOLD = 3"

definition recordProbe :: "bool \<Rightarrow> health \<Rightarrow> health" where
  "recordProbe ready h =
     (if ready then h\<lparr>hl_consecutiveFailures := 0, hl_lastReadyState := True\<rparr>
      else
        let failures = hl_consecutiveFailures h + 1
        in h\<lparr>hl_consecutiveFailures := failures,
             hl_lastReadyState := (if FAILURE_THRESHOLD \<le> sint failures then False else hl_lastReadyState h)\<rparr>)"

definition readyAnswer :: "string list \<Rightarrow> health \<Rightarrow> answer" where
  "readyAnswer failures h =
     (if hl_lastReadyState h then \<lparr>an_status = 200, an_content = Json (jobject [(''status'', JString ''ready'')])\<rparr>
      else \<lparr>an_status = 503, an_content = Json (jobject [(''status'', JString ''not_ready''),
              (''failed'', JArray (map JString failures))])\<rparr>)"

definition deadlineFailures :: "ready_state \<Rightarrow> string list" where
  "deadlineFailures s = (if 0 < rd_pending s then rd_failed s @ [''timeout''] else rd_failed s)"

definition readyzDeadline :: "ready_state \<Rightarrow> health \<Rightarrow> answer \<times> health" where
  "readyzDeadline s h =
     (let failures = deadlineFailures s; h1 = recordProbe (failures = []) h
      in (readyAnswer failures h1, h1))"

text \<open>The reports come in the order in which the probes complete.\<close>

definition readyz :: "bool \<Rightarrow> bool \<Rightarrow> bool \<Rightarrow> ready_event list \<Rightarrow> health \<Rightarrow> answer \<times> health" where
  "readyz options db redis reports h =
     (if options then (empty_answer, h) else readyzDeadline (fold probeEvent reports (startProbes db redis)) h)"

section \<open>Metrics\<close>

definition metricsBaseUrl :: "json \<Rightarrow> string option" where
  "metricsBaseUrl customConfig =
     (case isMember customConfig ''pay'' of
        None \<Rightarrow> None
      | Some False \<Rightarrow> Some ''http://127.0.0.1:5566/metrics/base''
      | Some True \<Rightarrow>
          (case isMember (member_of customConfig ''pay'') ''metrics_base_url'' of
             None \<Rightarrow> None
           | Some False \<Rightarrow> Some ''http://127.0.0.1:5566/metrics/base''
           | Some True \<Rightarrow> asString (member_of (member_of customConfig ''pay'') ''metrics_base_url'')))"

definition splitBaseUrl :: "string \<Rightarrow> string \<times> string" where
  "splitBaseUrl url =
     (case find_sub ''://'' url of
        None \<Rightarrow> (url, ''/'')
      | Some schemePos \<Rightarrow>
          (case find_at (\<lambda>c. c = CHR ''/'') url (schemePos + 3) of
             None \<Rightarrow> (url, ''/'')
           | Some pathPos \<Rightarrow> (take pathPos url, drop pathPos url)))"

text \<open>\<open>scrape\<close>: the body at a host and path, \<open>None\<close> for no response. \<open>None\<close>: an accessor throws.\<close>

definition serverMetrics ::
  "(string \<Rightarrow> string \<Rightarrow> string option) \<Rightarrow> json \<Rightarrow> bool \<Rightarrow> auth_metrics \<Rightarrow> answer option" where
  "serverMetrics scrape customConfig options mt =
     (if options then Some empty_answer
      else
        map_option (\<lambda>url.
            case splitBaseUrl url of (clientHost, basePath) \<Rightarrow>
              \<lparr>an_status = 200, an_content = Text
                 (case scrape clientHost basePath of
                    Some base \<Rightarrow> base @ newline @ toPrometheus mt
                  | None \<Rightarrow> ''# NOTE base metrics unavailable'' @ newline @ toPrometheus mt)\<rparr>)
          (metricsBaseUrl customConfig))"

section \<open>CORS and security headers\<close>

text \<open>Headers by lower-case name; adding one replaces it.\<close>

type_synonym headers = "string \<rightharpoonup> string"

fun listsOrigin :: "string \<Rightarrow> json list \<Rightarrow> bool option" where
  "listsOrigin origin [] = Some False"
| "listsOrigin origin (allowed # rest) =
     (case asString allowed of None \<Rightarrow> None | Some a \<Rightarrow> if a = origin then Some True else listsOrigin origin rest)"

definition isAllowed :: "json \<Rightarrow> string \<Rightarrow> bool option" where
  "isAllowed customConfig origin =
     (if origin = [] then Some False
      else
        (case Option.bind (jget customConfig ''cors'' JNull) (\<lambda>cors. jget cors ''allow_origins'' JNull) of
           None \<Rightarrow> None
         | Some (JArray xs) \<Rightarrow> listsOrigin origin xs
         | Some _ \<Rightarrow> Some False))"

definition add_given :: "string \<Rightarrow> string \<Rightarrow> headers \<Rightarrow> headers" where
  "add_given nm v hs = (if v \<noteq> [] then hs(nm \<mapsto> v) else hs)"

text \<open>The answer to a preflight, if this advice gives one; the outer \<open>None\<close>: an accessor throws.\<close>

definition preflightAdvice :: "json \<Rightarrow> bool \<Rightarrow> (string \<Rightarrow> string) \<Rightarrow> headers option option" where
  "preflightAdvice customConfig options header =
     (if \<not> options then Some None
      else
        map_option (\<lambda>ok.
            if ok
            then Some (add_given ''access-control-allow-headers'' (header ''Access-Control-Request-Headers'')
                   ((add_given ''access-control-allow-methods'' (header ''Access-Control-Request-Method'')
                      [''access-control-allow-origin'' \<mapsto> header ''Origin''])
                    (''access-control-allow-credentials'' \<mapsto> ''true'')))
            else None)
          (isAllowed customConfig (header ''Origin'')))"

definition securityHeaders :: "(string \<times> string) list" where
  "securityHeaders =
     [(''x-content-type-options'', ''nosniff''), (''x-frame-options'', ''DENY''), (''x-xss-protection'', ''1; mode=block''),
      (''strict-transport-security'', ''max-age=31536000; includeSubDomains''),
      (''content-security-policy'', ''default-src '' @ [CHR 0x27] @ ''none'' @ [CHR 0x27] @ ''; script-src '' @ [CHR 0x27] @ ''self'' @ [CHR 0x27]),
      (''referrer-policy'', ''no-referrer''), (''permissions-policy'', ''geolocation=(), microphone=(), camera=()'')]"

definition postHandlingAdvice :: "json \<Rightarrow> (string \<Rightarrow> string) \<Rightarrow> headers \<Rightarrow> headers option" where
  "postHandlingAdvice customConfig header hs =
     map_option (\<lambda>ok.
         (if ok then hs(''access-control-allow-origin'' \<mapsto> header ''Origin'',
                        ''access-control-allow-methods'' \<mapsto> ''GET, POST, OPTIONS'',
                        ''access-control-allow-headers'' \<mapsto> ''Content-Type, Authorization'',
                        ''access-control-allow-credentials'' \<mapsto> ''true'')
          else hs) ++ map_of securityHeaders)
       (isAllowed customConfig (header ''Origin''))"

definition corsHeaders :: "string list" where
  "corsHeaders = [''access-control-allow-origin'', ''access-control-allow-methods'', ''access-control-allow-headers'',
     ''access-control-allow-credentials'']"

definition preSendingAdvice :: "json \<Rightarrow> (string \<Rightarrow> string) \<Rightarrow> headers \<Rightarrow> headers option" where
  "preSendingAdvice customConfig header hs =
     (if header ''Origin'' = [] then Some hs
      else map_option (\<lambda>ok. if ok then hs else (\<lambda>nm. if nm \<in> set corsHeaders then None else hs nm))
             (isAllowed customConfig (header ''Origin'')))"

section \<open>Placeholders\<close>

primrec strings_of :: "json \<Rightarrow> string set" where
  "strings_of JNull = {}"
| "strings_of (JBool b) = {}"
| "strings_of (JInt i) = {}"
| "strings_of (JReal i b t) = {}"
| "strings_of (JString s) = {s}"
| "strings_of (JArray xs) = \<Union> (set (map strings_of xs))"
| "strings_of (JObject kvs) = \<Union> (snd ` set (map (map_prod id strings_of) kvs))"

lemma set_members_set: "set (members_set k v kvs) \<subseteq> insert (k, v) (set kvs)"
  by (induction k v kvs rule: members_set.induct) auto

lemma strings_jset: "strings_of (jset k v j) \<subseteq> strings_of v \<union> strings_of j"
proof (cases j)
  case (JObject kvs)
  then show ?thesis using set_members_set [of k v kvs] by fastforce
qed auto

lemma strings_jobject: "strings_of (jobject kvs) \<subseteq> \<Union> (strings_of ` snd ` set kvs)"
proof -
  have "strings_of (fold (\<lambda>(k, v). jset k v) kvs j) \<subseteq> \<Union> (strings_of ` snd ` set kvs) \<union> strings_of j" for j
  proof (induction kvs arbitrary: j)
    case (Cons p kvs)
    obtain k v where p: "p = (k, v)" by fastforce
    have "strings_of (fold (\<lambda>(k, v). jset k v) kvs (jset k v j)) \<subseteq> \<Union> (strings_of ` snd ` set kvs) \<union> strings_of (jset k v j)"
      by (rule Cons.IH)
    with strings_jset [of k v j] show ?case by (auto simp: p)
  qed simp
  from this [of JNull] show ?thesis by (simp add: jobject_def)
qed

lemma env_value: "getEnvValue E s = [] \<or> getEnvValue E s \<in> ran E"
  by (auto simp: getEnvValue_def getenv_def ran_def split: option.split)

text \<open>
  A loaded configuration holds no text that begins like a placeholder, unless a value of the
  environment does: every text of it is one of the file's or a value of the environment, or
  empty.
\<close>

lemma loaded_config_texts:
  assumes "s \<in> strings_of (loadConfig E config)"
  shows "s \<in> strings_of config \<and> \<not> starts_with ''__env_var'' s \<or> s = [] \<or> s \<in> ran E"
  using assms unfolding loadConfig_def
proof (induction config)
  case (JObject kvs)
  let ?f = "replacePlaceholders E"
  from JObject.prems strings_jobject [of "map (map_prod id ?f) kvs"]
  obtain p where p: "p \<in> set kvs" "s \<in> strings_of (?f (snd p))" by fastforce
  then obtain k v where kv: "(k, v) \<in> set kvs" "s \<in> strings_of (?f v)" by (metis prod.collapse)
  from JObject.IH [OF kv(1), of v] kv(2) have "s \<in> strings_of v \<and> \<not> starts_with ''__env_var'' s \<or> s = [] \<or> s \<in> ran E"
    by simp
  with kv(1) show ?case by force
next
  case (JString t)
  then show ?case using env_value [of E t] by (auto split: if_splits)
qed auto

text \<open>An empty object does not survive the loading, and a bare placeholder is always empty.\<close>

lemma loaded_empty_object: "loadConfig E (JObject []) = JNull"
  by (simp add: loadConfig_def jobject_def)

lemma bare_placeholder_empty: "loadConfig E (JString ''__env_var__'') = JString []"
  by (simp add: loadConfig_def getEnvValue_def starts_with_def)

text \<open>A channel without the member \<open>enabled\<close> runs, but the check before the start passes over it.\<close>

lemma unmarked_channel_not_warned:
  assumes "isObject ch" "isMember ch ''enabled'' = Some False"
  shows "channelWarnings [(nm, ch)] = Some [] \<and> enabledBlock ch = Some True"
  using assms by (cases ch) (auto simp: enabledBlock_def)

text \<open>Of a secret of nine characters the log shows eight.\<close>

lemma mask_shows_eight: "length v = 9 \<Longrightarrow> maskSensitive v = take 4 v @ ''***'' @ drop 5 v"
  by (simp add: maskSensitive_def)

text \<open>A server that serves was given the two secrets.\<close>

lemma serving_has_secrets:
  assumes "server_main envFile configFile E0 = Serving config warnings" "E = snd (loadEnvFile envFile E0)"
    and "varName \<in> {''PAY_DB_PASSWORD'', ''PAY_API_KEY''}"
  shows "\<exists>v. getenv E varName = Some v \<and> \<not> startupPlaceholder v"
proof -
  from assms(1,2) have "validateRequired E [''PAY_DB_PASSWORD'', ''PAY_API_KEY''] = []"
    by (auto simp: server_main_def validate_def Let_def split: if_splits)
  with assms(3) show ?thesis by (auto simp: validateRequired_def split: if_splits option.splits)
qed

section \<open>Readiness\<close>

text \<open>
  The specification: after the probes \<open>rs\<close>, the latest first, the server is ready when one
  succeeded and fewer than three failed since.
\<close>

definition ready_after :: "bool list \<Rightarrow> bool" where
  "ready_after rs \<longleftrightarrow> True \<in> set rs \<and> length (takeWhile Not rs) < 3"

definition probed :: "bool list \<Rightarrow> health" where
  "probed rs = foldr recordProbe rs new_health"

lemma probed_Cons: "probed (r # rs) = recordProbe r (probed rs)"
  by (simp add: probed_def)

lemma probe_count: "hl_consecutiveFailures (probed rs) = of_nat (length (takeWhile Not rs))"
  by (induction rs) (auto simp: probed_def new_health_def recordProbe_def Let_def)

lemma small_count: "n < 3 \<Longrightarrow> (FAILURE_THRESHOLD \<le> sint (of_nat n + 1 :: 32 word)) = (2 \<le> n)"
proof -
  assume "n < 3"
  then consider "n = 0" | "n = 1" | "n = 2" by linarith
  then show ?thesis by cases (simp_all add: FAILURE_THRESHOLD_def)
qed

lemma probed_ready: "hl_lastReadyState (probed rs) = ready_after rs"
proof (induction rs)
  case Nil
  then show ?case by (simp add: probed_def new_health_def ready_after_def)
next
  case (Cons r rs)
  let ?n = "length (takeWhile Not rs)"
  show ?case
  proof (cases r)
    case True
    then show ?thesis by (simp add: probed_Cons recordProbe_def ready_after_def)
  next
    case False
    have "hl_lastReadyState (probed (r # rs)) =
        (if FAILURE_THRESHOLD \<le> sint (of_nat ?n + 1 :: 32 word) then False else ready_after rs)"
      using False by (simp add: probed_Cons recordProbe_def Let_def probe_count Cons.IH)
    also have "\<dots> = ready_after (r # rs)"
      using False small_count [of ?n] by (cases "?n < 3") (auto simp: ready_after_def)
    finally show ?thesis .
  qed
qed

text \<open>Whether a request's probes all succeeded before the deadline.\<close>

definition probes_ok :: "bool \<Rightarrow> bool \<Rightarrow> ready_event list \<Rightarrow> bool" where
  "probes_ok db redis reports \<longleftrightarrow> db \<and> DbOk \<in> set reports \<and> (redis \<longrightarrow> RedisOk \<in> set reports)"

text \<open>Each probe that was started reports at most once.\<close>

definition reports_of :: "bool \<Rightarrow> bool \<Rightarrow> ready_event list set" where
  "reports_of db redis = {rs. distinct rs \<and> \<not> {DbOk, DbFailed} \<subseteq> set rs \<and> \<not> {RedisOk, RedisFailed} \<subseteq> set rs \<and>
     (\<not> db \<longrightarrow> set rs \<inter> {DbOk, DbFailed} = {}) \<and> (\<not> redis \<longrightarrow> set rs \<inter> {RedisOk, RedisFailed} = {})}"

lemma reports_length: "rs \<in> reports_of db redis \<Longrightarrow> length rs \<le> 2"
proof (rule ccontr)
  assume r: "rs \<in> reports_of db redis" and "\<not> length rs \<le> 2"
  then obtain a b c rest where "rs = a # b # c # rest" by (metis One_nat_def Suc_1 Suc_le_length_iff not_less_eq_eq)
  with r show False by (cases a; cases b; cases c) (auto simp: reports_of_def)
qed

lemma deadline_failures:
  assumes "rs \<in> reports_of db redis"
  shows "deadlineFailures (fold probeEvent rs (startProbes db redis)) = [] \<longleftrightarrow> probes_ok db redis rs"
proof -
  from reports_length [OF assms(1)] consider "rs = []" | a where "rs = [a]" | a b where "rs = [a, b]"
    by (cases rs; cases "tl rs"; cases "tl (tl rs)") auto
  then show ?thesis
  proof cases
    case 1
    then show ?thesis by (simp add: deadlineFailures_def startProbes_def probes_ok_def Let_def)
  next
    case 2
    with assms show ?thesis by (cases a) (auto simp: deadlineFailures_def startProbes_def probes_ok_def reports_of_def Let_def)
  next
    case 3
    with assms show ?thesis by (cases a; cases b) (auto simp: deadlineFailures_def startProbes_def probes_ok_def reports_of_def Let_def)
  qed
qed

text \<open>
  C8: the readiness route. After any sequence of requests, each with its clients and the
  reports of its probes in the order they came, the route answers 200 exactly when some
  request found all its dependencies answering within its deadline and fewer than three
  failed since; so never before a first success, and however often the failure counter
  wraps around.
\<close>

theorem readyz_refines:
  assumes "\<forall>(db, redis, reports) \<in> set (p # ps). reports \<in> reports_of db redis" "p = (db, redis, reports)"
    and "h = foldr (\<lambda>(db, redis, reports) h. snd (readyz False db redis reports h)) ps new_health"
  shows "an_status (fst (readyz False db redis reports h)) =
     (if ready_after (map (\<lambda>(db, redis, reports). probes_ok db redis reports) (p # ps)) then 200 else 503)"
proof -
  let ?ok = "\<lambda>(db, redis, reports). probes_ok db redis reports"
  have step: "readyz False d r rs h =
      (readyAnswer (deadlineFailures (fold probeEvent rs (startProbes d r))) (recordProbe (probes_ok d r rs) h),
       recordProbe (probes_ok d r rs) h)" if "rs \<in> reports_of d r" for d r rs h
    using deadline_failures [OF that] by (simp add: readyz_def readyzDeadline_def Let_def)
  have "\<forall>(d, r, rs) \<in> set ps. rs \<in> reports_of d r \<Longrightarrow>
      foldr (\<lambda>(d, r, rs) h. snd (readyz False d r rs h)) ps new_health = probed (map ?ok ps)"
    by (induction ps) (auto simp: probed_def step)
  with assms have h: "h = probed (map ?ok ps)" by simp
  from assms(1,2) have "reports \<in> reports_of db redis" by simp
  from step [OF this] show ?thesis
    using probed_ready [of "map ?ok (p # ps)"] by (simp add: h readyAnswer_def probed_Cons assms(2))
qed

theorem readyz_refines_witness:
  "an_status (fst (readyz False True False [DbFailed] (snd (readyz False True False [DbOk] new_health)))) = 200 \<and>
   ready_after [False, True] \<and> \<not> ready_after [False, False, False, True]"
proof -
  have r: "\<forall>(db, redis, reports) \<in> set [(True, False, [DbFailed]), (True, False, [DbOk])]. reports \<in> reports_of db redis"
    by (simp add: reports_of_def)
  from readyz_refines [OF this refl refl] show ?thesis by (simp add: ready_after_def probes_ok_def)
qed

section \<open>Origins\<close>

text \<open>
  What a browser of another site is told. Whatever headers the framework put on a response,
  one to an origin that is not on the list leaves without any CORS header; one to a listed
  origin that a handler gave names just this origin; and every response of a handler carries
  the seven security headers.
\<close>

lemma cors_only_for_listed:
  assumes "header ''Origin'' = origin" "origin \<noteq> []" "isAllowed config origin = Some ok"
    and "postHandlingAdvice config header hs = Some handled" "preSendingAdvice config header handled = Some sent_headers"
  shows "(\<not> ok \<longrightarrow> (\<forall>nm \<in> set corsHeaders. sent_headers nm = None)) \<and>
     (ok \<longrightarrow> sent_headers ''access-control-allow-origin'' = Some origin) \<and>
     (\<forall>(nm, v) \<in> set securityHeaders. sent_headers nm = Some v)"
proof -
  from assms have h: "handled = (if ok then hs(''access-control-allow-origin'' \<mapsto> origin,
      ''access-control-allow-methods'' \<mapsto> ''GET, POST, OPTIONS'',
      ''access-control-allow-headers'' \<mapsto> ''Content-Type, Authorization'',
      ''access-control-allow-credentials'' \<mapsto> ''true'') else hs) ++ map_of securityHeaders"
    "sent_headers = (if ok then handled else (\<lambda>nm. if nm \<in> set corsHeaders then None else handled nm))"
    by (auto simp: postHandlingAdvice_def preSendingAdvice_def)
  have d: "distinct (map fst securityHeaders)" "set (map fst securityHeaders) \<inter> set corsHeaders = {}"
    "''access-control-allow-origin'' \<in> set corsHeaders" by code_simp+
  have sec: "sent_headers nm = Some v" if "(nm, v) \<in> set securityHeaders" for nm v
  proof -
    from that d(1) have "map_of securityHeaders nm = Some v" by simp
    moreover have "nm \<notin> set corsHeaders" using that d(2) by (force simp: disjoint_iff)
    ultimately show ?thesis by (simp add: h map_add_Some_iff)
  qed
  have "map_of securityHeaders ''access-control-allow-origin'' = None"
    using d(2,3) by (auto simp: map_of_eq_None_iff disjoint_iff)
  then have "ok \<Longrightarrow> sent_headers ''access-control-allow-origin'' = Some origin" by (simp add: h map_add_def)
  with sec show ?thesis by (auto simp: h(2))
qed

end
