(* ===== verification/Spec2Isabelle.thy ===== *)
theory Spec2Isabelle
  imports Pay_Amount Pay_Url Pay_Time Pay_Json Pay_Registry Pay_Auth Pay_Db Pay_Idempotency Pay_Service
    Pay_Create Pay_Qr Pay_Sync Pay_Query Pay_Refund Pay_Refund_Laws Pay_Callback Pay_Callback_Laws Pay_Notice
    Pay_Notice_Runs Pay_Reconcile Pay_Books Pay_Alipay Pay_Http Pay_Notify
    Pay_Wechat Pay_Plugin Pay_Server
begin

text \<open>
  A verification of \<^emph>\<open>drogon-pay\<close>, a payment plugin for the drogon web framework
  (\<open>src/libs/drogon-pay\<close>). Handlers check an API key and hand requests to services; the
  services keep orders, payments, refunds, a ledger and idempotency keys in PostgreSQL,
  talk to payment channels (WeChat, Alipay) through an interface, and settle orders from
  channel answers.

  \<^bold>\<open>Theories and the code they model.\<close>
  \<^item> \<open>Pay_Prelude\<close>: the operations of \<open>std::string\<close> and \<open>int64_t\<close> the sources use, decimal
    numerals, shared lemmas.
  \<^item> \<open>Pay_Amount\<close>, \<open>Pay_Url\<close>, \<open>Pay_Time\<close>, \<open>Pay_Json\<close>: \<open>utils/PayUtils.cc\<close>. Amount parsing
    is characterised by a declarative grammar, shown free of overflow and inverse to the
    yuan printer; the callback-address guard is shown exact on dotted-quad hosts and its two
    holes are stated; the civil-day count is shown to advance by one per calendar day and
    the RFC 3339 reader to invert the printed form.
  \<^item> \<open>Pay_Registry\<close>: \<open>OnceCallback.h\<close> as a step relation over interleaved calls (at most one
    delivery, exactly one when all calls returned), \<open>ChannelRegistry\<close> as a sorted map with
    a freeze, and the shared message table of \<open>PayErrorCategory.h\<close>.
  \<^item> \<open>Pay_Auth\<close>: \<open>handlers/AuthCheck.cc\<close> and \<open>PayAuthMetrics.cc\<close>.
  \<^item> \<open>Pay_Db\<close>: the tables of \<open>sql/*.sql\<close> as lists of rows, the constraints of the schema, and
    the database as the services see it: statements that may fail, transactions, rollback,
    and other requests acting between statements.
  \<^item> \<open>Pay_Idempotency\<close>: \<open>services/IdempotencyService.cc\<close>. A locale states the contract of the
    reservation statements over a key map; exclusion and permanence of a stored response are
    proved from it and transferred to the SQL statements by an interpretation.
  \<^item> \<open>Pay_Service\<close>: the file-local helpers of \<open>services/PaymentService.cc\<close> and the status
    statements its flows share; the locales of the invariants of booking flows.
  \<^item> \<open>Pay_Create\<close>, \<open>Pay_Qr\<close>: \<open>createPayment\<close> with \<open>proceedCreatePayment\<close>, and
    \<open>createQRPayment\<close>, each handler in full.
  \<^item> \<open>Pay_Sync\<close>: the reconcile doors \<open>syncOrderStatusFromWechat\<close> and
    \<open>syncOrderStatusFromAlipay\<close>.
  \<^item> \<open>Pay_Query\<close>: \<open>queryOrder\<close>, \<open>queryOrderList\<close> and \<open>reconcileSummary\<close>, the last as a step
    relation over its two interleaved chains of statements.
  \<^item> \<open>Pay_Refund\<close>, \<open>Pay_Refund_Laws\<close>: \<open>services/RefundService.cc\<close> in full, and what it keeps:
    settled rows, the bound of the refunds by the order's amount, booking before the channel
    call, termination; and how the ledger misses a second partial refund.
  \<^item> \<open>Pay_Callback\<close>: \<open>services/CallbackService.cc\<close>, both notification handlers in full: the
    gates on the delivery, the reservation of the notification's id, the payment transaction
    and the refund transaction. \<open>Pay_Callback_Laws\<close> lifts invariants of the tables to the
    handlers; \<open>Pay_Notice\<close> shows what a delivery must be to touch anything, that an
    acknowledged payment is booked, and that a notification settles once; \<open>Pay_Notice_Runs\<close>
    holds concrete deliveries, how often a handler answers, and the order a notification
    takes back from \<open>PAID\<close>.
  \<^item> \<open>Pay_Reconcile\<close>: \<open>services/ReconciliationService.cc\<close>: one round of the sweep over stale
    orders and refunds, each job through the doors of the services, and how many calls a
    round may make.
  \<^item> \<open>Pay_Books\<close>: histories of requests over all services, their common invariant, what
    happens to settled payments, the append-only journal the tables refine, and the bound of
    a sweep.
  \<^item> \<open>Pay_Alipay\<close>: \<open>channels/AlipayChannel.cc\<close>: the signed request, the gateway call and the
    verified answer, the operations of the channel interface, and the signature check of a
    notification: what it binds, and where the signed text is ambiguous.
  \<^item> \<open>Pay_Http\<close>: \<open>handlers/PayHandlers.cc\<close>, \<open>PayMetricsHandlers.cc\<close> and \<open>PluginGuard.h\<close>: parsing
    and checking of request bodies and query parameters, the call of the service, the status
    code of the answer, and the wrappers of a route (readiness, API key, exceptions).
  \<^item> \<open>Pay_Notify\<close>: \<open>handlers/CallbackHandlers.cc\<close>: the two notification routes, from the raw
    request to the acknowledgement, composed with the channel and the callback service.
  \<^item> \<open>Pay_Wechat\<close>: \<open>channels/WechatChannel.cc\<close>: the cache of platform certificates behind a locale
    (lookup, vetted installation), the throttled download and its answer, signing, the check
    of answers and notifications, decryption, every method of the channel. The client is a
    step relation in which the network may answer anything; every step reduces to downloads
    and installations, from which follow what a cached certificate has shown, how far
    downloads lie apart, and what a believed answer or notification rests on.
  \<^item> \<open>Pay_Plugin\<close>: \<open>PayPlugin.cc\<close>: the assembly of channels, services, timers and routes from
    the configuration, with every exception on the way, the shutdown, and the dispatch of a
    request through the routes to the handlers, for which the theorem on who may change the
    books composes the key check, the notification routes and the channels.
  \<^item> \<open>Pay_Server\<close>: \<open>examples/pay-server\<close>: the environment file and the placeholders of the
    configuration, the checks before the start, \<open>main\<close>, the health and metrics routes, the
    CORS and security headers; readiness is shown to refine a specification over the history
    of probes.

  \<^bold>\<open>State and effects.\<close> A service flow is a function of an environment, a record of the code
  outside the repository and a world (tables, transaction, statement counter, outgoing
  calls) to its reply and the next world. The environment is arbitrary: it decides which
  statement or mapper construction fails, whether a transaction is available, what other
  requests write between statements outside a transaction, and what the clocks show. JSON
  text, SHA-256, MD5, random numbers, channel answers, the WeChat client's signature check and
  decryption in \<open>Pay_Callback\<close> (an instance is built in \<open>Pay_Wechat\<close>), OpenSSL, base64 and the HTTP
  exchanges of both channels, URL coding, the request object, the clients, timers and path
  matching of the web framework, the age the sweep reads of a row, the answer of the Redis
  \<open>SET .. NX\<close> and the \<open>NUMERIC\<close> sum of the database are parameters; a theorem that relies on their documented behaviour names it as a hypothesis.
  Every definition is total but for \<open>proceedRefund\<close>, which calls itself with the payment number
  it found and is a partial function in the option monad; it is shown to return. There is no
  fuel.

  \<^bold>\<open>Invariants.\<close> \<open>stmt_inv\<close> is the interface between a service and the database: a statement
  that keeps a property of the tables keeps it in every way of being run. \<open>idem_inv\<close>,
  \<open>booking_inv\<close>, \<open>refusal_inv\<close>, \<open>settle_inv\<close>, \<open>refund_inv\<close>, \<open>refund_door_inv\<close>, \<open>notice_inv\<close> and \<open>sweep_inv\<close> lift it
  to the flows and \<open>books_inv\<close> to histories; they are interpreted on the schema's invariant (unique
  keys, foreign keys, one income entry per payment), on the property that settled rows stay
  as they are, on the bound of the refunds and on the growth of the journal. These theorems
  hold for every environment. The theorems about what a run achieves (replay, booking, settling) are for runs in which no
  statement fails and nobody else writes.

  \<^bold>\<open>Modelling decisions.\<close> Transactions are serial, as the row locks of the modelled writes make
  them for the rows concerned. A reply that is never given (a channel that does not answer,
  an accessor that throws in an asynchronous callback, a null transaction that is
  dereferenced) is \<open>None\<close>; the notification handlers, which may also answer more than once, give
  the list of their replies. Where a handler submits several statements to a transaction
  without waiting (the refund notification), they form a queue that is worked off in the
  order of submission, each result adding what its callback submits; the weight of the queue
  decreases, so it always empties. The callback service is taken to have its database client.
  Log statements are left out. Rows are addressed by their business
  number instead of the numeric \<open>id\<close>; \<open>updated_at\<close> of an order is recorded at insertion only, and
  the sweep, which orders by it, takes the stamp of the trigger as a parameter; that of a
  refund is stamped by every update.

  \<^bold>\<open>Not modelled.\<close> The ORM models (\<open>models/*.cc\<close>) are generated by the framework's tool from the
  schema; the tables of \<open>Pay_Db\<close> stand for them. \<open>HttpClientPool.h\<close> caches the framework's HTTP
  clients and does not change what is sent. In the plugin the interleaving of the worker
  loop's tasks is left out.
\<close>

section \<open>From the booking to the settlement\<close>

text \<open>
  The amount a create flow books, sends to the channel and later compares goes through
  three representations: the request's text, the channel's unit and the answer's field.
\<close>

lemma parsed_is_int64: "parseAmountToFen s = Some fen \<Longrightarrow> is_int64 fen"
  using parse_range [of s fen] by (simp add: int64_defs)

lemma jget_jset_text:
  "k \<noteq> k' \<Longrightarrow> \<exists>kvs. jset_text k v (JObject ms) = JObject kvs \<and> map_of kvs k' = map_of ms k'"
  by (simp add: jset_text_def)

lemma alipay_total:
  "jget (alipayPayload S rq fen) ''total_amount'' JNull = Some (JString (yuanString fen))"
proof -
  let ?base = "[(''out_trade_no'', JString (cp_orderNo rq)), (''subject'', JString (cp_description rq)),
     (''total_amount'', JString (yuanString fen))]"
  let ?b = "case sandboxBuyerId S of None \<Rightarrow> [] | Some b \<Rightarrow> b"
  have j: "jobject [(''total_amount'', JString (yuanString fen)), (''subject'', JString (cp_description rq)),
      (''out_trade_no'', JString (cp_orderNo rq))] = JObject ?base"
    by (simp add: jobject_def less_char_def)
  obtain ms where m: "jset_text ''buyer_id'' ?b (JObject ?base) = JObject ms"
    "map_of ms ''total_amount'' = map_of ?base ''total_amount''"
    using jget_jset_text [of "''buyer_id''" "''total_amount''" ?b ?base] by auto
  obtain ns where "jset_text ''notify_url'' (cp_notifyUrl rq) (JObject ms) = JObject ns"
    "map_of ns ''total_amount'' = map_of ms ''total_amount''"
    using jget_jset_text [of "''notify_url''" "''total_amount''" "cp_notifyUrl rq" ms] by auto
  with m j show ?thesis by (simp add: alipayPayload_def)
qed

lemma wechat_total:
  "jget (wechatPayload rq fen) ''amount'' JNull =
     Some (jobject [(''total'', JInt fen), (''currency'', JString (cp_currency rq))])"
proof -
  let ?amount = "jobject [(''total'', JInt fen), (''currency'', JString (cp_currency rq))]"
  obtain base where j: "jobject [(''description'', JString (cp_description rq)),
      (''out_trade_no'', JString (cp_orderNo rq)), (''amount'', ?amount)] = JObject base"
    "map_of base ''amount'' = Some ?amount"
    by (simp add: jobject_def [of "(_ # _ # _ # _)"])
  have keep: "\<exists>ns. jset_text k v (JObject ms) = JObject ns \<and> map_of ns ''amount'' = map_of ms ''amount''"
    if "k \<noteq> ''amount''" for k v ms using that by (rule jget_jset_text)
  obtain a where a: "jset_text ''notify_url'' (cp_notifyUrl rq) (JObject base) = JObject a"
    "map_of a ''amount'' = Some ?amount" using keep [of "''notify_url''" "cp_notifyUrl rq" base] j(2) by auto
  obtain b where b: "(if isNull (cp_sceneInfo rq) then JObject a else jset ''scene_info'' (cp_sceneInfo rq) (JObject a)) = JObject b"
    "map_of b ''amount'' = Some ?amount" using a(2) by (cases "isNull (cp_sceneInfo rq)") auto
  obtain c where c: "jset_text ''time_expire'' (cp_timeExpire rq) (JObject b) = JObject c"
    "map_of c ''amount'' = Some ?amount" using keep [of "''time_expire''" "cp_timeExpire rq" b] b(2) by auto
  obtain d where "jset_text ''attach'' (cp_attach rq) (JObject c) = JObject d"
    "map_of d ''amount'' = Some ?amount" using keep [of "''attach''" "cp_attach rq" c] c(2) by auto
  with j a b c show ?thesis by (simp add: wechatPayload_def split del: if_split cong: if_cong)
qed

text \<open>
  C32: the amount a payment is created with is the amount that settles it. If the request's
  amount reads as a positive number of fen, then a channel answer that repeats the amount
  field of the payload sent at creation (the yuan text for Alipay, the amount object for
  the other channels) is read by the reconcile door as exactly those fen, and both amount
  gates, on the booked payment and on the booked order, accept it.
\<close>

theorem booked_amount_settles:
  assumes "parseAmountToFen (cp_amount rq) = Some fen" "0 < fen"
  shows "(cp_channel rq = ''alipay'' \<and>
        jget result ''total_amount'' (JString []) = jget (createPayload S rq fen) ''total_amount'' JNull \<longrightarrow>
          alipayNotifiedFen ''PAID'' result = Some fen) \<and>
     (cp_channel rq \<noteq> ''alipay'' \<and> jstr result ''transaction_id'' [] = Some tx \<and>
        jget result ''amount'' JNull = jget (createPayload S rq fen) ''amount'' JNull \<longrightarrow>
          wechatAnswer result = Some (tx, fen)) \<and>
     reconcileAmountProblem fen (p_amount (newPayment rq pn payload now)) = [] \<and>
     amountEqualsFen (o_amount (newOrder e rq w)) fen"
proof -
  have "parseAmountToFen (yuanString fen) = Some fen"
    using yuanString_parses parse_range [OF assms(1)] by blast
  then have "alipayNotifiedFen ''PAID'' result = Some fen" if "cp_channel rq = ''alipay''"
    "jget result ''total_amount'' (JString []) = jget (createPayload S rq fen) ''total_amount'' JNull"
    using that by (simp add: alipayNotifiedFen_def jstr_def createPayload_def alipay_total)
  moreover have "wechatAnswer result = Some (tx, fen)" if "cp_channel rq \<noteq> ''alipay''"
    "jstr result ''transaction_id'' [] = Some tx"
    "jget result ''amount'' JNull = jget (createPayload S rq fen) ''amount'' JNull"
    using that parsed_is_int64 [OF assms(1)]
    by (simp add: wechatAnswer_def createPayload_def wechat_total jobject_def)
  moreover have "reconcileAmountProblem fen (p_amount (newPayment rq pn payload now)) = []"
    using assms by (simp add: no_amount_problem newPayment_def)
  moreover have "amountEqualsFen (o_amount (newOrder e rq w)) fen"
    using assms(1) by (simp add: amountEqualsFen_def newOrder_def)
  ultimately show ?thesis by blast
qed

theorem booked_amount_settles_witness:
  "let ali = sample_request\<lparr>cp_channel := ''alipay''\<rparr>; wx = sample_request\<lparr>cp_channel := ''wechat''\<rparr>;
       paid = jobject [(''total_amount'', JString ''1.50'')];
       txn = jobject [(''transaction_id'', JString ''T1''),
                      (''amount'', jobject [(''total'', JInt 150), (''currency'', JString ''CNY'')])]
   in parseAmountToFen (cp_amount ali) = Some 150 \<and>
      alipayNotifiedFen ''PAID'' paid = Some 150 \<and> wechatAnswer txn = Some (''T1'', 150) \<and>
      reconcileAmountProblem 150 (p_amount (newPayment ali ''P1'' ''{}'' 0)) = [] \<and>
      amountEqualsFen (o_amount (newOrder calm wx (fresh no_rows))) 150"
proof -
  let ?ali = "sample_request\<lparr>cp_channel := ''alipay''\<rparr>" and ?wx = "sample_request\<lparr>cp_channel := ''wechat''\<rparr>"
  let ?paid = "jobject [(''total_amount'', JString ''1.50'')]"
  let ?txn = "jobject [(''transaction_id'', JString ''T1''),
      (''amount'', jobject [(''total'', JInt 150), (''currency'', JString ''CNY'')])]"
  have p: "parseAmountToFen (cp_amount ?ali) = Some 150" "parseAmountToFen (cp_amount ?wx) = Some 150"
    by code_simp+
  have "jget ?paid ''total_amount'' (JString []) = jget (createPayload plain_sys ?ali 150) ''total_amount'' JNull"
    by code_simp
  moreover have "jget ?txn ''amount'' JNull = jget (createPayload plain_sys ?wx 150) ''amount'' JNull"
    "jstr ?txn ''transaction_id'' [] = Some ''T1''" by code_simp+
  ultimately show ?thesis
    using booked_amount_settles [OF p(1), where result = ?paid and S = plain_sys and tx = "[]" and pn = "''P1''"
        and payload = "''{}''" and now = 0 and e = calm and w = "fresh no_rows"]
      booked_amount_settles [OF p(2), where result = ?txn and S = plain_sys and tx = "''T1''" and pn = "''P1''"
        and payload = "''{}''" and now = 0 and e = calm and w = "fresh no_rows"] p(1)
    by (simp add: Let_def)
qed

end
